(* ===== verification/Prelude.thy ===== *)
theory Prelude
  imports Main "HOL-Library.AList" "HOL-Library.Multiset" "HOL-Library.State_Monad"
    "HOL-Library.Word"
begin

text \<open>
  Shared vocabulary of the development: the collections of rules the component theories use,
  the fragment of the Go standard library the operator relies on (package \<open>strings\<close>,
  wrapped errors, \<open>sort.Slice\<close>), and the result type of code that can panic.
  Strings are lists of bytes; case mapping is the ASCII one, so the model is faithful for ASCII
  identifiers (Kubernetes and Azure names, VM sizes, error codes).
\<close>

named_theorems emits_intros \<open>rules that bound the calls an operation can make\<close>
named_theorems go_eval \<open>unfolding rules for evaluating model code on concrete input\<close>

section \<open>Package strings\<close>

fun HasPrefix :: "string \<Rightarrow> string \<Rightarrow> bool" where
  "HasPrefix s [] = True"
| "HasPrefix [] (p # ps) = False"
| "HasPrefix (c # s) (p # ps) = (c = p \<and> HasPrefix s ps)"

definition HasSuffix :: "string \<Rightarrow> string \<Rightarrow> bool" where
  "HasSuffix s p = HasPrefix (rev s) (rev p)"

fun Contains :: "string \<Rightarrow> string \<Rightarrow> bool" where
  "Contains [] p = (p = [])"
| "Contains (c # s) p = (HasPrefix (c # s) p \<or> Contains s p)"

definition to_lower_char :: "char \<Rightarrow> char" where
  "to_lower_char c =
     (let n = (of_char c :: nat) in if 65 \<le> n \<and> n \<le> 90 then char_of (n + 32) else c)"

definition to_upper_char :: "char \<Rightarrow> char" where
  "to_upper_char c =
     (let n = (of_char c :: nat) in if 97 \<le> n \<and> n \<le> 122 then char_of (n - 32) else c)"

definition ToLower :: "string \<Rightarrow> string" where
  "ToLower s = map to_lower_char s"

definition ToUpper :: "string \<Rightarrow> string" where
  "ToUpper s = map to_upper_char s"

definition EqualFold :: "string \<Rightarrow> string \<Rightarrow> bool" where
  "EqualFold s t \<longleftrightarrow> ToLower s = ToLower t"

definition is_space_char :: "char \<Rightarrow> bool" where
  "is_space_char c = (let n = (of_char c :: nat) in n = 32 \<or> 9 \<le> n \<and> n \<le> 13)"

definition TrimSpace :: "string \<Rightarrow> string" where
  "TrimSpace s = rev (dropWhile is_space_char (rev (dropWhile is_space_char s)))"

lemma HasPrefix_iff: "HasPrefix s p \<longleftrightarrow> (\<exists>r. s = p @ r)"
  by (induction s p rule: HasPrefix.induct) auto

lemma HasPrefix_append [simp]: "HasPrefix (p @ r) p"
  by (auto simp: HasPrefix_iff)

lemma HasSuffix_iff: "HasSuffix s p \<longleftrightarrow> (\<exists>r. s = r @ p)"
  by (metis HasPrefix_iff HasSuffix_def rev_append rev_rev_ident)

lemma Contains_Nil [simp]: "Contains s []"
  by (cases s) auto

lemma Contains_iff: "Contains s p \<longleftrightarrow> (\<exists>a b. s = a @ p @ b)"
proof (induction s)
  case (Cons c s)
  have "(\<exists>a b. c # s = a @ p @ b) \<longleftrightarrow>
        (\<exists>b. c # s = p @ b) \<or> (\<exists>a b. s = a @ p @ b)"
    by (metis append_Cons append_Nil list.inject neq_Nil_conv)
  then show ?case using Cons by (simp add: HasPrefix_iff)
qed simp

lemma Contains_appendI1: "Contains s p \<Longrightarrow> Contains (t @ s) p"
  by (metis Contains_iff append.assoc)

lemma Contains_appendI2: "Contains s p \<Longrightarrow> Contains (s @ t) p"
  by (metis Contains_iff append.assoc)

lemma Contains_ConsI: "Contains s p \<Longrightarrow> Contains (c # s) p"
  by simp

lemma HasPrefix_imp_Contains: "HasPrefix s p \<Longrightarrow> Contains s p"
  by (metis Contains_iff HasPrefix_iff append_Nil)

lemma to_lower_char_idem [simp]: "to_lower_char (to_lower_char c) = to_lower_char c"
proof -
  have "of_char (char_of (n + 32) :: char) = n + 32" if "n \<le> 90" for n :: nat
    using that by simp
  then show ?thesis
    by (simp add: to_lower_char_def Let_def)
qed

lemma ToLower_idem [simp]: "ToLower (ToLower s) = ToLower s"
  by (simp add: ToLower_def)

lemma length_ToLower [simp]: "length (ToLower s) = length s"
  by (simp add: ToLower_def)

lemma EqualFold_refl [simp]: "EqualFold s s"
  and EqualFold_sym: "EqualFold s t \<Longrightarrow> EqualFold t s"
  and EqualFold_trans: "EqualFold s t \<Longrightarrow> EqualFold t u \<Longrightarrow> EqualFold s u"
  by (simp_all add: EqualFold_def)

lemma EqualFold_ToLower [simp]: "EqualFold (ToLower s) t = EqualFold s t"
  by (simp add: EqualFold_def)

lemmas string_eval = ToLower_def ToUpper_def EqualFold_def to_lower_char_def to_upper_char_def
  HasSuffix_def Let_def char_of_def bit_Suc_0_iff

section \<open>Errors\<close>

text \<open>
  A Go error is its text together with the Kubernetes API reason that
  \<open>apierrors.IsNotFound\<close>, \<open>IsConflict\<close> and \<open>IsAlreadyExists\<close> read through the
  wrapped chain. \<open>fmt.Errorf("m: %w", err)\<close> prefixes the text and keeps the chain.
\<close>

datatype api_reason = NotFoundReason | ConflictReason | AlreadyExistsReason | OtherReason

record go_error =
  err_text :: string
  err_reason :: api_reason

definition new_error :: "string \<Rightarrow> go_error" where
  "new_error msg = \<lparr>err_text = msg, err_reason = OtherReason\<rparr>"

definition wrap_error :: "string \<Rightarrow> go_error \<Rightarrow> go_error" where
  "wrap_error msg e = \<lparr>err_text = msg @ '': '' @ err_text e, err_reason = err_reason e\<rparr>"

definition IsNotFound :: "go_error \<Rightarrow> bool" where
  "IsNotFound e \<longleftrightarrow> err_reason e = NotFoundReason"

definition IsConflict :: "go_error \<Rightarrow> bool" where
  "IsConflict e \<longleftrightarrow> err_reason e = ConflictReason"

definition IsAlreadyExists :: "go_error \<Rightarrow> bool" where
  "IsAlreadyExists e \<longleftrightarrow> err_reason e = AlreadyExistsReason"

lemma err_text_simps [simp]:
  "err_text (new_error m) = m" "err_text (wrap_error m e) = m @ '': '' @ err_text e"
  "err_reason (new_error m) = OtherReason" "err_reason (wrap_error m e) = err_reason e"
  by (simp_all add: new_error_def wrap_error_def)

lemma Contains_wrap_error: "Contains (err_text e) p \<Longrightarrow> Contains (err_text (wrap_error m e)) p"
  by (auto intro!: Contains_appendI1 Contains_ConsI)

text \<open>Code that dereferences a nil pointer panics instead of returning.\<close>

datatype 'a outcome = Returned 'a | Panicked

lemmas error_splits = sum.splits option.splits prod.splits if_splits outcome.splits

section \<open>sort.Slice\<close>

text \<open>
  The contract of \<open>sort.Slice\<close>: the result is a permutation of the slice, and it is sorted
  whenever the comparison is a strict weak order on the elements. The sort is not stable. The
  operator's two uses take the sorting function as a parameter constrained by this contract;
  \<open>insertion_sort\<close>, which is the algorithm \<open>sort.Slice\<close> runs on slices of at most
  12 elements, is one provider.
\<close>

definition strict_weak_on :: "('a \<Rightarrow> 'a \<Rightarrow> bool) \<Rightarrow> 'a set \<Rightarrow> bool" where
  "strict_weak_on lt A \<longleftrightarrow>
     (\<forall>x\<in>A. \<not> lt x x) \<and>
     (\<forall>x\<in>A. \<forall>y\<in>A. \<forall>z\<in>A. lt x y \<longrightarrow> lt y z \<longrightarrow> lt x z) \<and>
     (\<forall>x\<in>A. \<forall>y\<in>A. \<forall>z\<in>A. lt x z \<longrightarrow> lt x y \<or> lt y z)"

lemma strict_weak_on_subset: "strict_weak_on lt B \<Longrightarrow> A \<subseteq> B \<Longrightarrow> strict_weak_on lt A"
  unfolding strict_weak_on_def by (meson subsetD)

lemma strict_weak_on_trans:
  "strict_weak_on lt A \<Longrightarrow> lt x y \<Longrightarrow> lt y z \<Longrightarrow> x \<in> A \<Longrightarrow> y \<in> A \<Longrightarrow> z \<in> A \<Longrightarrow> lt x z"
  unfolding strict_weak_on_def by meson

lemma strict_weak_on_asym:
  "strict_weak_on lt A \<Longrightarrow> lt x y \<Longrightarrow> x \<in> A \<Longrightarrow> y \<in> A \<Longrightarrow> \<not> lt y x"
  unfolding strict_weak_on_def by meson

locale slice_sort =
  fixes lt :: "'a \<Rightarrow> 'a \<Rightarrow> bool"
    and sorter :: "'a list \<Rightarrow> 'a list"
  assumes sort_mset: "mset (sorter xs) = mset xs"
    and sort_sorted: "strict_weak_on lt (set xs) \<Longrightarrow>
                        sorted_wrt (\<lambda>a b. \<not> lt b a) (sorter xs)"
begin

lemma sort_set [simp]: "set (sorter xs) = set xs"
  using sort_mset by (rule mset_eq_setD)

lemma sort_length [simp]: "length (sorter xs) = length xs"
  using sort_mset by (rule mset_eq_length)

lemma sort_Nil_iff [simp]: "sorter xs = [] \<longleftrightarrow> xs = []"
  by (metis length_0_conv sort_length)

lemma sort_hd_in: "xs \<noteq> [] \<Longrightarrow> hd (sorter xs) \<in> set xs"
  by (metis hd_in_set sort_Nil_iff sort_set)

lemma sort_distinct [simp]: "distinct (sorter xs) = distinct xs"
  using mset_eq_imp_distinct_iff [OF sort_mset] .

lemma sort_distinct_map: "distinct (map f (sorter xs)) = distinct (map f xs)"
  by (metis mset_eq_imp_distinct_iff mset_map sort_mset)

lemma sort_hd_minimal:
  assumes "strict_weak_on lt (set xs)" and "x \<in> set xs"
  shows "\<not> lt x (hd (sorter xs))"
proof -
  from assms(2) obtain y ys where s: "sorter xs = y # ys"
    by (metis list.exhaust list.set_cases list.distinct(1) sort_Nil_iff)
  have "x = y \<or> x \<in> set ys"
    using assms(2) s sort_set [of xs] by auto
  then show ?thesis
  proof
    assume "x = y"
    then show ?thesis using assms s by (auto simp: strict_weak_on_def)
  next
    assume "x \<in> set ys"
    then show ?thesis using sort_sorted [OF assms(1)] s by auto
  qed
qed

end

fun insert_sorted :: "('a \<Rightarrow> 'a \<Rightarrow> bool) \<Rightarrow> 'a \<Rightarrow> 'a list \<Rightarrow> 'a list" where
  "insert_sorted lt x [] = [x]"
| "insert_sorted lt x (y # ys) =
     (if lt x y then x # y # ys else y # insert_sorted lt x ys)"

definition insertion_sort :: "('a \<Rightarrow> 'a \<Rightarrow> bool) \<Rightarrow> 'a list \<Rightarrow> 'a list" where
  "insertion_sort lt xs = fold (insert_sorted lt) xs []"

lemma mset_insert_sorted [simp]: "mset (insert_sorted lt x ys) = add_mset x (mset ys)"
  by (induction ys) auto

lemma set_insert_sorted [simp]: "set (insert_sorted lt x ys) = insert x (set ys)"
  by (metis mset_insert_sorted set_mset_add_mset_insert set_mset_mset)

lemma mset_fold_insert_sorted: "mset (fold (insert_sorted lt) xs ys) = mset xs + mset ys"
  by (induction xs arbitrary: ys) auto

lemma sorted_insert_sorted:
  assumes "strict_weak_on lt (insert x (set ys))" and "sorted_wrt (\<lambda>a b. \<not> lt b a) ys"
  shows "sorted_wrt (\<lambda>a b. \<not> lt b a) (insert_sorted lt x ys)"
  using assms
proof (induction ys)
  case (Cons y ys)
  have sw: "strict_weak_on lt (insert x (set ys))"
    by (rule strict_weak_on_subset [OF Cons.prems(1)]) auto
  show ?case
  proof (cases "lt x y")
    case True
    have "\<not> lt z x" if z: "z \<in> set ys" for z
    proof
      assume "lt z x"
      then have "lt z y"
        using True by (rule strict_weak_on_trans [OF Cons.prems(1)]) (use z in auto)
      then show False using Cons.prems(2) z by simp
    qed
    moreover have "\<not> lt y x"
      by (rule strict_weak_on_asym [OF Cons.prems(1) True]) auto
    ultimately show ?thesis using Cons.prems(2) True by simp
  next
    case False
    then show ?thesis using Cons.IH [OF sw] Cons.prems(2) by simp
  qed
qed simp

lemma sorted_fold_insert_sorted:
  assumes "strict_weak_on lt (set xs \<union> set ys)" and "sorted_wrt (\<lambda>a b. \<not> lt b a) ys"
  shows "sorted_wrt (\<lambda>a b. \<not> lt b a) (fold (insert_sorted lt) xs ys)"
  using assms
proof (induction xs arbitrary: ys)
  case (Cons x xs)
  have "strict_weak_on lt (insert x (set ys))"
    by (rule strict_weak_on_subset [OF Cons.prems(1)]) auto
  then have "sorted_wrt (\<lambda>a b. \<not> lt b a) (insert_sorted lt x ys)"
    using Cons.prems(2) by (rule sorted_insert_sorted)
  then show ?case using Cons by simp
qed simp

lemma insertion_sort_slice_sort: "slice_sort lt (insertion_sort lt)"
  by unfold_locales
    (simp_all add: insertion_sort_def mset_fold_insert_sorted sorted_fold_insert_sorted)

interpretation go_sort: slice_sort lt "insertion_sort lt"
  by (rule insertion_sort_slice_sort)

section \<open>Association lists as Go maps\<close>

text \<open>
  A Go map whose iteration matters is an association list with distinct keys; assignment is
  \<^theory_text>\<open>AList.update\<close>.
\<close>

definition is_go_map :: "('k \<times> 'v) list \<Rightarrow> bool" where
  "is_go_map m \<longleftrightarrow> distinct (map fst m)"

lemma is_go_map_Nil [simp]: "is_go_map []"
  by (simp add: is_go_map_def)

lemma is_go_map_update [simp]: "is_go_map m \<Longrightarrow> is_go_map (AList.update k v m)"
  by (simp add: is_go_map_def AList.distinct_update)

lemma map_of_fold_update:
  "map_of (fold (\<lambda>(k, v). AList.update k v) xs m) = map_of m ++ map_of (rev xs)"
  by (induction xs arbitrary: m) (auto simp: AList.update_conv')

lemma is_go_map_fold_update [simp]:
  "is_go_map m \<Longrightarrow> is_go_map (fold (\<lambda>(k, v). AList.update k v) xs m)"
  by (induction xs arbitrary: m) auto

end
