(* ===== verification/Convert.thy ===== *)
theory Convert
  imports Prelude
begin

unbundle bit_operations_syntax

text \<open>
  The integer conversions of \<open>internal/managers/convert.go\<close>. Go's \<open>int\<close> and
  \<open>uint\<close> are 64-bit words on the operator's platforms, \<open>int32\<close> is a 32-bit word;
  \<^const>\<open>sint\<close> reads a word as two's complement, \<^const>\<open>uint\<close> as unsigned.
\<close>

type_synonym go_int = "64 word"
type_synonym go_uint = "64 word"
type_synonym go_int32 = "32 word"

definition safeIntToInt32 :: "go_int \<Rightarrow> go_int32" where
  "safeIntToInt32 v =
     (if (2147483647 :: go_int) <s v then 2147483647
      else if v <s (- 2147483648 :: go_int) then - 2147483648
      else scast v)"

definition safeUintToInt :: "go_uint \<Rightarrow> go_int" where
  "safeUintToInt v = (if (9223372036854775807 :: go_uint) < v then 9223372036854775807 else v)"

lemma sint_scast_32:
  fixes v :: go_int
  assumes "- (2 ^ 31) \<le> sint v" and "sint v < 2 ^ 31"
  shows "sint (scast v :: go_int32) = sint v"
proof -
  have "sint (scast v :: go_int32) = signed_take_bit 31 (sint v)"
    by transfer (simp add: signed_take_bit_take_bit)
  also have "\<dots> = sint v"
    using assms by (simp add: signed_take_bit_int_eq_self_iff)
  finally show ?thesis .
qed

lemma sint_safeIntToInt32: "sint (safeIntToInt32 v) = max (- (2 ^ 31)) (min (2 ^ 31 - 1) (sint v))"
  by (auto simp: safeIntToInt32_def word_sless_alt sint_scast_32)

lemma uint_less_2_63_sint: "uint (v :: go_int) < 2 ^ 63 \<Longrightarrow> sint v = uint v"
  by (simp add: sint_uint signed_take_bit_int_eq_self_iff order_trans [OF _ uint_ge_0])

lemma sint_safeUintToInt: "sint (safeUintToInt v) = min (2 ^ 63 - 1) (uint v)"
  by (auto simp: safeUintToInt_def word_less_def uint_less_2_63_sint)
end
