(* ===== verification/CloudTypes.thy ===== *)
theory CloudTypes
  imports Convert
begin

text \<open>
  The data the operator reads and writes: the Azure SDK structures (\<open>armcompute\<close>,
  \<open>armcontainerservice\<close>), the Vitistack resources (\<open>KubernetesCluster\<close>,
  \<open>MachineClass\<close>), Kubernetes secrets, and the interface types of
  \<open>pkg/interfaces\<close>. Of the third-party structures only the fields the operator uses are
  kept. A Go pointer or nilable field is an \<^typ>\<open>'a option\<close>; a nilable map is
  \<open>(string \<rightharpoonup> string) option\<close>, \<^const>\<open>None\<close> being the nil map. Times are
  nanoseconds since Go's zero time, which is \<open>0\<close>.
\<close>

type_synonym time = int

section \<open>Azure SDK structures\<close>

record vm_size =
  vs_Name :: "string option"
  vs_NumberOfCores :: "go_int32 option"
  vs_MemoryInMB :: "go_int32 option"
  vs_MaxDataDiskCount :: "go_int32 option"
  vs_OSDiskSizeInMB :: "go_int32 option"
  vs_ResourceDiskSizeInMB :: "go_int32 option"

record pool_properties =
  pp_Count :: "go_int32 option"
  pp_VMSize :: "string option"
  pp_Mode :: "string option"
  pp_OSType :: "string option"
  pp_Type :: "string option"
  pp_EnableAutoScaling :: "bool option"
  pp_MinCount :: "go_int32 option"
  pp_MaxCount :: "go_int32 option"
  pp_OrchestratorVersion :: "string option"
  pp_NodeTaints :: "string list option"
  pp_NodeLabels :: "(string \<rightharpoonup> string) option"
  pp_AvailabilityZones :: "string list option"

definition empty_pool_properties :: pool_properties where
  "empty_pool_properties =
     \<lparr>pp_Count = None, pp_VMSize = None, pp_Mode = None, pp_OSType = None, pp_Type = None,
      pp_EnableAutoScaling = None, pp_MinCount = None, pp_MaxCount = None,
      pp_OrchestratorVersion = None, pp_NodeTaints = None, pp_NodeLabels = None,
      pp_AvailabilityZones = None\<rparr>"

record pool_profile =
  prof_Name :: "string option"
  prof_Properties :: pool_properties

record agent_pool =
  ap_ID :: "string option"
  ap_Name :: "string option"
  ap_Properties :: "pool_properties option"

record network_profile =
  net_NetworkPlugin :: string
  net_NetworkPolicy :: string

record managed_cluster_properties =
  mp_DNSPrefix :: "string option"
  mp_KubernetesVersion :: "string option"
  mp_AgentPoolProfiles :: "pool_profile list option"
  mp_EnableRBAC :: "bool option"
  mp_NetworkProfile :: "network_profile option"
  mp_ProvisioningState :: "string option"
  mp_Fqdn :: "string option"

record managed_cluster =
  mc_ID :: "string option"
  mc_Location :: "string option"
  mc_Tags :: "(string \<rightharpoonup> string) option"
  mc_IdentityType :: "string option"
  mc_Properties :: "managed_cluster_properties option"

text \<open>\<open>CredentialResults.Kubeconfigs\<close>: each entry's \<open>Value\<close> may be nil.\<close>

record credential_results =
  cr_Kubeconfigs :: "string option list"

text \<open>\<open>ManagedClusterAccessProfile\<close>: the kubeconfig it carries, if any.\<close>

record access_profile =
  acp_KubeConfig :: "string option"

section \<open>Vitistack resources\<close>

record machine_class =
  mcl_Name :: string
  mcl_Enabled :: bool
  mcl_Category :: string
  mcl_CPUCores :: go_uint
  mcl_MemoryValue :: go_int  \<comment> \<open>\<open>Spec.Memory.Quantity.Value()\<close>, in bytes\<close>
  mcl_GPUCores :: go_uint

record taint =
  taint_Key :: string
  taint_Value :: string
  taint_Effect :: string

record autoscaling =
  as_Enabled :: bool
  as_MinReplicas :: go_int
  as_MaxReplicas :: go_int

record node_pool =
  np_Name :: string
  np_Version :: string
  np_Replicas :: go_int
  np_MachineClass :: string
  np_Autoscaling :: autoscaling
  np_Taint :: "taint list"
  np_Labels :: "(string \<times> string) list"  \<comment> \<open>\<open>Metadata.Labels\<close>, a Go map\<close>

record control_plane =
  cp_Replicas :: go_int
  cp_Version :: string
  cp_MachineClass :: string

record cluster_data =
  cd_ClusterId :: string
  cd_Provider :: string
  cd_Region :: string
  cd_Project :: string
  cd_Workspace :: string
  cd_Environment :: string

record topology =
  tp_Version :: string
  tp_ControlPlane :: control_plane
  tp_NodePools :: "node_pool list"

record condition =
  cond_Type :: string
  cond_Status :: string
  cond_Message :: string
  cond_LastTransitionTime :: string

record endpoint =
  ep_Name :: string
  ep_Address :: string

record component_version =
  ver_Name :: string
  ver_Version :: string
  ver_Branch :: string

record resource_usage =
  ru_Capacity :: int
  ru_Used :: int
  ru_Percentage :: int

record resource_set =
  rs_CPU :: resource_usage
  rs_Memory :: resource_usage
  rs_Disk :: resource_usage
  rs_GPU :: resource_usage

record status_state =
  ss_Created :: time
  ss_LastUpdated :: time
  ss_LastUpdatedBy :: string
  ss_Endpoints :: "endpoint list option"
  ss_Versions :: "component_version list option"
  ss_EgressIP :: string
  ss_ExternalId :: string
  ss_Resources :: resource_set
  ss_ControlPlaneResources :: resource_set
  ss_ControlPlaneNodes :: "string list option"
  ss_NodePools :: "string list option"

record cluster_status =
  st_Phase :: string
  st_Conditions :: "condition list"
  st_State :: status_state

record kubernetes_cluster =
  kc_Name :: string
  kc_Namespace :: string
  kc_ResourceVersion :: string
  kc_Annotations :: "(string \<rightharpoonup> string) option"
  kc_Finalizers :: "string list"
  kc_DeletionTimestamp :: "time option"
  kc_Cluster :: cluster_data
  kc_Topology :: topology
  kc_Status :: cluster_status

record secret =
  sec_Name :: string
  sec_Namespace :: string
  sec_ResourceVersion :: string
  sec_Labels :: "string \<rightharpoonup> string"
  sec_Owner :: "string option"
  sec_Data :: "(string \<rightharpoonup> string) option"

section \<open>pkg/interfaces: VM purposes and machine-class mappings\<close>

type_synonym vm_purpose = string

definition VMPurposeGeneralPurpose :: vm_purpose where
  "VMPurposeGeneralPurpose = ''general-purpose''"
definition VMPurposeComputeOptimized :: vm_purpose where
  "VMPurposeComputeOptimized = ''compute-optimized''"
definition VMPurposeMemoryOptimized :: vm_purpose where
  "VMPurposeMemoryOptimized = ''memory-optimized''"
definition VMPurposeGPU :: vm_purpose where
  "VMPurposeGPU = ''gpu''"
definition VMPurposeBurstable :: vm_purpose where
  "VMPurposeBurstable = ''burstable''"
definition VMPurposeStorageOptimized :: vm_purpose where
  "VMPurposeStorageOptimized = ''storage-optimized''"

lemmas purpose_defs = VMPurposeGeneralPurpose_def VMPurposeComputeOptimized_def
  VMPurposeMemoryOptimized_def VMPurposeGPU_def VMPurposeBurstable_def
  VMPurposeStorageOptimized_def

end
