(* ===== verification/Runtime.thy ===== *)
theory Runtime
  imports CloudTypes
begin

text \<open>
  The operator's surroundings. Everything outside the repository is a parameter: a world of
  type \<open>'w\<close>, the functions of \<open>runtime\<close> (clock, map iteration order, environment
  variables), the clients of the Kubernetes API server, and the Azure client interfaces of
  \<open>pkg/interfaces/azure.go\<close>. A piece of the operator is a state transformer over
  \<open>'w st\<close>, which holds the world, the two caches the operator keeps in memory, and a
  trace of the external calls it has made with their results. The trace is a ghost: no model code
  reads it.
\<close>

section \<open>External calls\<close>

datatype event =
    AzClusterCreateOrUpdate string string managed_cluster "go_error option"
  | AzClusterGet string string "go_error option"
  | AzClusterDelete string string "go_error option"
  | AzClusterCredentials string string "go_error option"
  | AzPoolCreateOrUpdate string string string agent_pool "go_error option"
  | AzPoolGet string string string "go_error option"
  | AzPoolDelete string string string "go_error option"
  | AzPoolList string string "go_error option"
  | AzVMSizeList string "go_error option"
  | KubeGetCluster string string "go_error option"
  | KubeUpdateCluster kubernetes_cluster "go_error option"
  | KubeUpdateStatus kubernetes_cluster "go_error option"
  | KubeListMachineClasses "go_error option"
  | SecretGet string string "go_error option"
  | SecretCreate secret "go_error option"
  | SecretUpdate secret "go_error option"
  | SecretDelete secret "go_error option"
  | GuestGetNamespace string "go_error option"

fun sum_error :: "go_error + 'a \<Rightarrow> go_error option" where
  "sum_error (Inl e) = Some e"
| "sum_error (Inr x) = None"

definition is_vm_event :: "event \<Rightarrow> bool" where
  "is_vm_event e \<longleftrightarrow> (\<exists>l r. e = AzVMSizeList l r)"

definition is_class_event :: "event \<Rightarrow> bool" where
  "is_class_event e \<longleftrightarrow> (\<exists>r. e = KubeListMachineClasses r)"

definition is_sizing_event :: "event \<Rightarrow> bool" where
  "is_sizing_event e \<longleftrightarrow> is_vm_event e \<or> is_class_event e"

definition is_pool_write :: "event \<Rightarrow> bool" where
  "is_pool_write e \<longleftrightarrow>
     (\<exists>rg cl p ap r. e = AzPoolCreateOrUpdate rg cl p ap r) \<or> (\<exists>rg cl p r. e = AzPoolDelete rg cl p r)"

definition is_pool_event :: "event \<Rightarrow> bool" where
  "is_pool_event e \<longleftrightarrow> is_pool_write e \<or> (\<exists>rg cl p r. e = AzPoolGet rg cl p r) \<or>
     (\<exists>rg cl r. e = AzPoolList rg cl r)"

definition is_secret_event :: "event \<Rightarrow> bool" where
  "is_secret_event e \<longleftrightarrow> (\<exists>n ns r. e = SecretGet n ns r) \<or> (\<exists>s r. e = SecretCreate s r) \<or>
     (\<exists>s r. e = SecretUpdate s r) \<or> (\<exists>s r. e = SecretDelete s r)"

definition is_cluster_write :: "event \<Rightarrow> bool" where
  "is_cluster_write e \<longleftrightarrow>
     (\<exists>rg cl c r. e = AzClusterCreateOrUpdate rg cl c r) \<or> (\<exists>rg cl r. e = AzClusterDelete rg cl r)"

definition is_azure_write :: "event \<Rightarrow> bool" where
  "is_azure_write e \<longleftrightarrow> is_cluster_write e \<or> is_pool_write e"

lemma event_class_simps [simp]:
  "is_vm_event (AzVMSizeList l r)" "is_class_event (KubeListMachineClasses r)"
  "is_sizing_event (AzVMSizeList l r)" "is_sizing_event (KubeListMachineClasses r)"
  "is_pool_write (AzPoolCreateOrUpdate rg cl p ap r)" "is_pool_write (AzPoolDelete rg cl p r)"
  "is_pool_event (AzPoolCreateOrUpdate rg cl p ap r)" "is_pool_event (AzPoolDelete rg cl p r)"
  "is_pool_event (AzPoolGet rg cl p r)" "is_pool_event (AzPoolList rg cl r)"
  "is_secret_event (SecretGet n ns r)" "is_secret_event (SecretCreate s r)"
  "is_secret_event (SecretUpdate s r)" "is_secret_event (SecretDelete s r)"
  "is_azure_write (AzClusterCreateOrUpdate rg cl c r)" "is_azure_write (AzClusterDelete rg cl r)"
  "\<not> is_azure_write (AzClusterGet rg cl r)" "\<not> is_azure_write (AzClusterCredentials rg cl r)"
  by (simp_all add: is_vm_event_def is_azure_write_def is_cluster_write_def is_class_event_def is_sizing_event_def is_pool_write_def
      is_pool_event_def is_secret_event_def)

lemma sizing_not_write: "is_sizing_event e \<Longrightarrow> \<not> is_pool_write e"
  by (auto simp: is_sizing_event_def is_vm_event_def is_class_event_def is_pool_write_def)

lemma sizing_not_azure_write: "is_sizing_event e \<Longrightarrow> \<not> is_azure_write e"
  by (auto simp: is_sizing_event_def is_vm_event_def is_class_event_def is_pool_write_def
      is_azure_write_def is_cluster_write_def)

section \<open>Clients and runtime\<close>

record 'w runtime =
  rt_now :: "'w \<Rightarrow> time \<times> 'w"
  rt_sleep :: "time \<Rightarrow> 'w \<Rightarrow> 'w"
  rt_getenv :: "string \<Rightarrow> string"
  rt_range :: "string list \<Rightarrow> 'w \<Rightarrow> string list \<times> 'w"
  rt_rfc3339 :: "time \<Rightarrow> string"
  rt_rfc3339_utc :: "time \<Rightarrow> string"
  rt_sort_conditions :: "condition list \<Rightarrow> condition list"

text \<open>
  \<open>rt_range\<close> gives the order in which a \<open>range\<close> loop visits the keys of a map; Go
  leaves it open, so the only documented fact is that it is a permutation of the keys.
\<close>

definition range_permutes :: "'w runtime \<Rightarrow> bool" where
  "range_permutes R \<longleftrightarrow> (\<forall>ks w. mset (fst (rt_range R ks w)) = mset ks)"

record 'w managed_cluster_client =
  mcc_CreateOrUpdate :: "string \<Rightarrow> string \<Rightarrow> managed_cluster \<Rightarrow> 'w \<Rightarrow> (go_error + managed_cluster) \<times> 'w"
  mcc_Get :: "string \<Rightarrow> string \<Rightarrow> 'w \<Rightarrow> (go_error + managed_cluster) \<times> 'w"
  mcc_Delete :: "string \<Rightarrow> string \<Rightarrow> 'w \<Rightarrow> go_error option \<times> 'w"
  mcc_GetAccessProfile :: "string \<Rightarrow> string \<Rightarrow> string \<Rightarrow> 'w \<Rightarrow> (go_error + access_profile) \<times> 'w"
  mcc_ListClusterAdminCredentials :: "string \<Rightarrow> string \<Rightarrow> 'w \<Rightarrow> (go_error + credential_results) \<times> 'w"
  mcc_ListClusterUserCredentials :: "string \<Rightarrow> string \<Rightarrow> 'w \<Rightarrow> (go_error + credential_results) \<times> 'w"

record 'w agent_pool_client =
  apc_CreateOrUpdate :: "string \<Rightarrow> string \<Rightarrow> string \<Rightarrow> agent_pool \<Rightarrow> 'w \<Rightarrow> (go_error + agent_pool) \<times> 'w"
  apc_Get :: "string \<Rightarrow> string \<Rightarrow> string \<Rightarrow> 'w \<Rightarrow> (go_error + agent_pool) \<times> 'w"
  apc_Delete :: "string \<Rightarrow> string \<Rightarrow> string \<Rightarrow> 'w \<Rightarrow> go_error option \<times> 'w"
  apc_List :: "string \<Rightarrow> string \<Rightarrow> 'w \<Rightarrow> (go_error + agent_pool list) \<times> 'w"

record 'w vm_size_client =
  vsc_List :: "string \<Rightarrow> 'w \<Rightarrow> (go_error + vm_size list) \<times> 'w"
  vsc_GetVMSize :: "string \<Rightarrow> string \<Rightarrow> 'w \<Rightarrow> (go_error + vm_size) \<times> 'w"

text \<open>
  The Kubernetes clients. An update writes the server's answer back into the object, so it returns
  the object as it is after the call. \<open>kube_SetControllerReference\<close> and the finalizer helpers
  are pure functions of \<open>controllerutil\<close>.
\<close>

record 'w kube_client =
  kube_Get :: "string \<Rightarrow> string \<Rightarrow> 'w \<Rightarrow> (go_error + kubernetes_cluster) \<times> 'w"
  kube_Update :: "kubernetes_cluster \<Rightarrow> 'w \<Rightarrow> (go_error option \<times> kubernetes_cluster) \<times> 'w"
  kube_StatusUpdate :: "kubernetes_cluster \<Rightarrow> 'w \<Rightarrow> (go_error option \<times> kubernetes_cluster) \<times> 'w"
  kube_ListMachineClasses :: "'w \<Rightarrow> (go_error + machine_class list) \<times> 'w"
  kube_GetSecret :: "string \<Rightarrow> string \<Rightarrow> 'w \<Rightarrow> (go_error + secret) \<times> 'w"
  kube_CreateSecret :: "secret \<Rightarrow> 'w \<Rightarrow> go_error option \<times> 'w"
  kube_UpdateSecret :: "secret \<Rightarrow> 'w \<Rightarrow> go_error option \<times> 'w"
  kube_DeleteSecret :: "secret \<Rightarrow> 'w \<Rightarrow> go_error option \<times> 'w"
  kube_SetControllerReference :: "kubernetes_cluster \<Rightarrow> secret \<Rightarrow> go_error option \<times> secret"
  kube_ContainsFinalizer :: "kubernetes_cluster \<Rightarrow> string \<Rightarrow> bool"
  kube_AddFinalizer :: "kubernetes_cluster \<Rightarrow> string \<Rightarrow> kubernetes_cluster"
  kube_RemoveFinalizer :: "kubernetes_cluster \<Rightarrow> string \<Rightarrow> kubernetes_cluster"

text \<open>The documented behaviour of the \<open>controllerutil\<close> finalizer helpers.\<close>

definition finalizer_laws :: "'w kube_client \<Rightarrow> bool" where
  "finalizer_laws K \<longleftrightarrow>
     (\<forall>kc f. kube_ContainsFinalizer K kc f \<longleftrightarrow> f \<in> set (kc_Finalizers kc)) \<and>
     (\<forall>kc f. kube_AddFinalizer K kc f =
        (if f \<in> set (kc_Finalizers kc) then kc
         else kc\<lparr>kc_Finalizers := kc_Finalizers kc @ [f]\<rparr>)) \<and>
     (\<forall>kc f. kube_RemoveFinalizer K kc f = kc\<lparr>kc_Finalizers := filter (\<lambda>g. g \<noteq> f) (kc_Finalizers kc)\<rparr>)"

section \<open>The operator's state\<close>

record vm_size_cache =
  vmc_data :: "string \<rightharpoonup> vm_size list"
  vmc_expiry :: "string \<rightharpoonup> time"
  vmc_ttl :: time

record machine_class_cache =
  clc_data :: "(string \<times> machine_class) list"
  clc_expiry :: time
  clc_ttl :: time

record 'w st =
  world :: 'w
  trace :: "event list"
  vm_cache :: vm_size_cache
  class_cache :: machine_class_cache

type_synonym ('w, 'a) go = "('w st, 'a) state"

definition call :: "('a \<Rightarrow> event) \<Rightarrow> ('w \<Rightarrow> 'a \<times> 'w) \<Rightarrow> ('w, 'a) go" where
  "call ev f = State (\<lambda>s. let (r, w) = f (world s) in (r, s\<lparr>world := w, trace := trace s @ [ev r]\<rparr>))"

definition quiet :: "('w \<Rightarrow> 'a \<times> 'w) \<Rightarrow> ('w, 'a) go" where
  "quiet f = State (\<lambda>s. let (r, w) = f (world s) in (r, s\<lparr>world := w\<rparr>))"

definition gets :: "('w st \<Rightarrow> 'a) \<Rightarrow> ('w, 'a) go" where
  "gets f = State (\<lambda>s. (f s, s))"

definition put_vm_cache :: "vm_size_cache \<Rightarrow> ('w, unit) go" where
  "put_vm_cache c = State (\<lambda>s. ((), s\<lparr>vm_cache := c\<rparr>))"

definition put_class_cache :: "machine_class_cache \<Rightarrow> ('w, unit) go" where
  "put_class_cache c = State (\<lambda>s. ((), s\<lparr>class_cache := c\<rparr>))"

definition time_Now :: "'w runtime \<Rightarrow> ('w, time) go" where
  "time_Now R = quiet (rt_now R)"

definition time_Sleep :: "'w runtime \<Rightarrow> time \<Rightarrow> ('w, unit) go" where
  "time_Sleep R d = quiet (\<lambda>w. ((), rt_sleep R d w))"

definition range_keys :: "'w runtime \<Rightarrow> string list \<Rightarrow> ('w, string list) go" where
  "range_keys R ks = quiet (rt_range R ks)"

abbreviation ret :: "'a \<Rightarrow> ('w, 'a) go" where
  "ret x \<equiv> State_Monad.return x"

lemma run_call [simp]:
  "run_state (call ev f) s =
     (fst (f (world s)),
      s\<lparr>world := snd (f (world s)), trace := trace s @ [ev (fst (f (world s)))]\<rparr>)"
  by (simp add: call_def case_prod_beta Let_def)

lemma run_quiet [simp]:
  "run_state (quiet f) s = (fst (f (world s)), s\<lparr>world := snd (f (world s))\<rparr>)"
  by (simp add: quiet_def case_prod_beta Let_def)

lemma run_simps [simp]:
  "run_state (gets g) s = (g s, s)"
  "run_state (put_vm_cache c) s = ((), s\<lparr>vm_cache := c\<rparr>)"
  "run_state (put_class_cache d) s = ((), s\<lparr>class_cache := d\<rparr>)"
  "run_state (time_Now R) s = (fst (rt_now R (world s)), s\<lparr>world := snd (rt_now R (world s))\<rparr>)"
  "run_state (time_Sleep R n) s = ((), s\<lparr>world := rt_sleep R n (world s)\<rparr>)"
  "run_state (range_keys R ks) s =
     (fst (rt_range R ks (world s)), s\<lparr>world := snd (rt_range R ks (world s))\<rparr>)"
  by (simp_all add: gets_def put_vm_cache_def put_class_cache_def time_Now_def time_Sleep_def
      range_keys_def)

section \<open>Bounding the calls of an operation\<close>

definition emits :: "(event \<Rightarrow> bool) \<Rightarrow> ('w, 'a) go \<Rightarrow> bool" where
  "emits P m \<longleftrightarrow> (\<forall>s. \<exists>es. trace (snd (run_state m s)) = trace s @ es \<and> (\<forall>e\<in>set es. P e))"

lemma emitsD:
  assumes "emits P m" and "run_state m s = (x, s')"
  obtains es where "trace s' = trace s @ es" and "\<forall>e\<in>set es. P e"
  using assms unfolding emits_def by (metis snd_conv)

lemma emits_mono: "emits P m \<Longrightarrow> (\<And>e. P e \<Longrightarrow> Q e) \<Longrightarrow> emits Q m"
  unfolding emits_def by blast

lemma emits_return [emits_intros]: "emits P (ret x)"
  by (simp add: emits_def)

lemma emits_bind [emits_intros]:
  assumes "emits P m" and "\<And>x. emits P (f x)"
  shows "emits P (State_Monad.bind m f)"
  unfolding emits_def
proof
  fix s
  obtain x s1 where m: "run_state m s = (x, s1)" by fastforce
  obtain es where es: "trace s1 = trace s @ es" "\<forall>e\<in>set es. P e"
    using emitsD [OF assms(1) m] .
  obtain y s2 where f: "run_state (f x) s1 = (y, s2)" by fastforce
  obtain fs where "trace s2 = trace s1 @ fs" "\<forall>e\<in>set fs. P e"
    using emitsD [OF assms(2) f] .
  with es m f show "\<exists>es. trace (snd (run_state (State_Monad.bind m f) s)) = trace s @ es \<and> (\<forall>e\<in>set es. P e)"
    by (intro exI [of _ "es @ fs"]) auto
qed

lemma emits_call [emits_intros]: "(\<And>r. P (ev r)) \<Longrightarrow> emits P (call ev f)"
  by (simp add: emits_def)

lemma emits_silent [emits_intros]:
  "emits P (quiet f)" "emits P (gets g)" "emits P (put_vm_cache c)" "emits P (put_class_cache d)"
  "emits P (time_Now R)" "emits P (time_Sleep R n)" "emits P (range_keys R ks)"
  by (simp_all add: emits_def)

lemma emits_if [emits_intros]:
  "(b \<Longrightarrow> emits P m) \<Longrightarrow> (\<not> b \<Longrightarrow> emits P n) \<Longrightarrow> emits P (if b then m else n)"
  by simp

lemma emits_option [emits_intros]:
  "(x = None \<Longrightarrow> emits P m) \<Longrightarrow> (\<And>y. x = Some y \<Longrightarrow> emits P (f y)) \<Longrightarrow>
     emits P (case x of None \<Rightarrow> m | Some y \<Rightarrow> f y)"
  by (cases x) auto

lemma emits_sum [emits_intros]:
  "(\<And>y. x = Inl y \<Longrightarrow> emits P (f y)) \<Longrightarrow> (\<And>y. x = Inr y \<Longrightarrow> emits P (g y)) \<Longrightarrow>
     emits P (case x of Inl y \<Rightarrow> f y | Inr y \<Rightarrow> g y)"
  by (cases x) auto

lemma emits_prod [emits_intros]:
  "(\<And>y z. x = (y, z) \<Longrightarrow> emits P (f y z)) \<Longrightarrow> emits P (case x of (y, z) \<Rightarrow> f y z)"
  by (cases x) auto

lemma emits_outcome [emits_intros]:
  "(\<And>y. x = Returned y \<Longrightarrow> emits P (f y)) \<Longrightarrow> (x = Panicked \<Longrightarrow> emits P m) \<Longrightarrow>
     emits P (case x of Returned y \<Rightarrow> f y | Panicked \<Rightarrow> m)"
  by (cases x) auto

lemma emits_let [emits_intros]: "(\<And>y. y = x \<Longrightarrow> emits P (f y)) \<Longrightarrow> emits P (Let x f)"
  by simp

end
