(* ===== verification/TtlCache.thy ===== *)
theory TtlCache
  imports Runtime
begin

text \<open>
  The contract of the two in-memory caches (\<open>vmSizeCache\<close>, \<open>machineClassCache\<close>): a value
  stored at time \<open>t\<close> is served while the clock is before \<open>t + ttl\<close>, never after it, and
  nothing else is ever served for its key. The components interpret the locale on their own
  operations.
\<close>

locale ttl_cache =
  fixes lookup :: "'c \<Rightarrow> time \<Rightarrow> 'k \<Rightarrow> 'v option"
    and store :: "'c \<Rightarrow> time \<Rightarrow> 'k \<Rightarrow> 'u \<Rightarrow> 'c"
    and ttl :: "'c \<Rightarrow> time"
    and content :: "'u \<Rightarrow> 'v"
  assumes store_hit: "now < t + ttl c \<Longrightarrow> lookup (store c t k u) now k = Some (content u)"
    and store_only: "lookup (store c t k u) now k = Some v \<Longrightarrow> v = content u"
    and store_expired: "t + ttl c < now \<Longrightarrow> lookup (store c t k u) now k = None"
    and store_ttl: "ttl (store c t k u) = ttl c"
    and lookup_expires: "lookup c now k = None \<Longrightarrow> now \<le> now' \<Longrightarrow> lookup c now' k = None"
begin

text \<open>A value served is at most one TTL old.\<close>

lemma served_age: "lookup (store c t k u) now k = Some v \<Longrightarrow> now \<le> t + ttl c"
  using store_expired [where c = c and t = t and k = k and u = u and now = now] by (metis not_le option.discI)

lemma served_earlier:
  "lookup c now' k = Some v \<Longrightarrow> now \<le> now' \<Longrightarrow> lookup c now k \<noteq> None"
  using lookup_expires [of c now k now'] by auto

lemma refresh_replaces:
  "now < t' + ttl c \<Longrightarrow> lookup (store (store c t k u) t' k u') now k = Some (content u')"
  by (simp add: store_hit store_ttl)

end

end
