(* ===== verification/Fixtures.thy ===== *)
theory Fixtures
  imports Runtime
begin

text \<open>
  Concrete surroundings for the witnesses: a clock that stands still, maps visited in insertion
  order, Azure and Kubernetes clients that answer with a fixed value, a Kubernetes API server that
  keeps the secrets (the world), and the parts of a cluster resource.
\<close>

type_synonym fx_world = "string \<times> string \<rightharpoonup> secret"

definition fx_runtime :: "fx_world runtime" where
  "fx_runtime =
     \<lparr>rt_now = (\<lambda>w. (100, w)), rt_sleep = (\<lambda>d w. w), rt_getenv = (\<lambda>k. []), rt_range = (\<lambda>ks w. (ks, w)),
      rt_rfc3339 = (\<lambda>t. ''2026-01-01T00:00:00Z''), rt_rfc3339_utc = (\<lambda>t. ''2026-01-01T00:00:00Z''),
      rt_sort_conditions = (\<lambda>cs. cs)\<rparr>"

definition fx_state :: "fx_world st" where
  "fx_state =
     \<lparr>world = Map.empty, trace = [], vm_cache = \<lparr>vmc_data = Map.empty, vmc_expiry = Map.empty, vmc_ttl = 30\<rparr>,
      class_cache = \<lparr>clc_data = [], clc_expiry = 0, clc_ttl = 30\<rparr>\<rparr>"

definition fx_d2 :: vm_size where
  "fx_d2 =
     \<lparr>vs_Name = Some ''Standard_D2s_v5'', vs_NumberOfCores = Some 2, vs_MemoryInMB = Some 8192,
      vs_MaxDataDiskCount = None, vs_OSDiskSizeInMB = None, vs_ResourceDiskSizeInMB = None\<rparr>"

definition fx_d4 :: vm_size where
  "fx_d4 = fx_d2\<lparr>vs_Name := Some ''Standard_D4s_v5'', vs_NumberOfCores := Some 4, vs_MemoryInMB := Some 16384\<rparr>"

definition fx_sizes :: "fx_world vm_size_client" where
  "fx_sizes = \<lparr>vsc_List = (\<lambda>location w. (Inr [fx_d4, fx_d2], w)),
     vsc_GetVMSize = (\<lambda>location name w. (Inr fx_d2, w))\<rparr>"

definition fx_class :: "nat \<Rightarrow> machine_class" where
  "fx_class cores =
     \<lparr>mcl_Name = ''small'', mcl_Enabled = True, mcl_Category = ''standard'',
      mcl_CPUCores = of_nat cores, mcl_MemoryValue = 8589934592, mcl_GPUCores = 0\<rparr>"

definition fx_pools :: "agent_pool list \<Rightarrow> fx_world agent_pool_client" where
  "fx_pools pools =
     \<lparr>apc_CreateOrUpdate = (\<lambda>rg cl n p w. (Inr (p\<lparr>ap_ID := Some ''id''\<rparr>), w)),
      apc_Get = (\<lambda>rg cl n w. (Inl (new_error ''not found''), w)),
      apc_Delete = (\<lambda>rg cl n w. (None, w)),
      apc_List = (\<lambda>rg cl w. (Inr pools, w))\<rparr>"

definition fx_node_pool :: node_pool where
  "fx_node_pool =
     \<lparr>np_Name = ''workers'', np_Version = [], np_Replicas = 3, np_MachineClass = ''Standard_D2s_v5'',
      np_Autoscaling = \<lparr>as_Enabled = False, as_MinReplicas = 0, as_MaxReplicas = 0\<rparr>,
      np_Taint = [], np_Labels = [(''compute'', ''yes''), (''memory'', ''high'')]\<rparr>"

definition fx_usage :: resource_usage where
  "fx_usage = \<lparr>ru_Capacity = 0, ru_Used = 0, ru_Percentage = 0\<rparr>"

definition fx_status :: cluster_status where
  "fx_status =
     \<lparr>st_Phase = [], st_Conditions = [],
      st_State =
        \<lparr>ss_Created = 0, ss_LastUpdated = 0, ss_LastUpdatedBy = [], ss_Endpoints = None,
         ss_Versions = None, ss_EgressIP = [], ss_ExternalId = [],
         ss_Resources = \<lparr>rs_CPU = fx_usage, rs_Memory = fx_usage, rs_Disk = fx_usage, rs_GPU = fx_usage\<rparr>,
         ss_ControlPlaneResources = \<lparr>rs_CPU = fx_usage, rs_Memory = fx_usage, rs_Disk = fx_usage, rs_GPU = fx_usage\<rparr>,
         ss_ControlPlaneNodes = None, ss_NodePools = None\<rparr>\<rparr>"

definition fx_cluster :: kubernetes_cluster where
  "fx_cluster =
     \<lparr>kc_Name = ''demo'', kc_Namespace = ''team'', kc_ResourceVersion = ''1'', kc_Annotations = None,
      kc_Finalizers = [''kubernetescluster.vitistack.io/finalizer''], kc_DeletionTimestamp = None,
      kc_Cluster =
        \<lparr>cd_ClusterId = ''c1'', cd_Provider = ''aks'', cd_Region = ''norwayeast'', cd_Project = [],
         cd_Workspace = [], cd_Environment = ''test''\<rparr>,
      kc_Topology =
        \<lparr>tp_Version = ''1.30'',
         tp_ControlPlane = \<lparr>cp_Replicas = 3, cp_Version = [], cp_MachineClass = ''Standard_D2s_v5''\<rparr>,
         tp_NodePools = [fx_node_pool]\<rparr>,
      kc_Status = fx_status\<rparr>"

definition fx_not_found :: go_error where
  "fx_not_found = \<lparr>err_text = ''not found'', err_reason = NotFoundReason\<rparr>"

definition fx_stored :: "fx_world \<Rightarrow> string \<times> string \<rightharpoonup> secret" where
  "fx_stored w k =
     (case w k of None \<Rightarrow> None | Some x \<Rightarrow> if (sec_Name x, sec_Namespace x) = k then Some x else None)"

definition fx_kube :: "fx_world kube_client" where
  "fx_kube =
     \<lparr>kube_Get = (\<lambda>n ns w. (Inr fx_cluster, w)),
      kube_Update = (\<lambda>kc w. ((None, kc), w)),
      kube_StatusUpdate = (\<lambda>kc w. ((None, kc), w)),
      kube_ListMachineClasses = (\<lambda>w. (Inr [fx_class 2], w)),
      kube_GetSecret = (\<lambda>n ns w. (case fx_stored w (n, ns) of None \<Rightarrow> Inl fx_not_found | Some x \<Rightarrow> Inr x, w)),
      kube_CreateSecret = (\<lambda>x w. (None, w((sec_Name x, sec_Namespace x) \<mapsto> x))),
      kube_UpdateSecret = (\<lambda>x w. (None, w((sec_Name x, sec_Namespace x) \<mapsto> x))),
      kube_DeleteSecret = (\<lambda>x w. (None, w((sec_Name x, sec_Namespace x) := None))),
      kube_SetControllerReference = (\<lambda>kc x. (None, x\<lparr>sec_Owner := Some (kc_Name kc)\<rparr>)),
      kube_ContainsFinalizer = (\<lambda>kc f. f \<in> set (kc_Finalizers kc)),
      kube_AddFinalizer =
        (\<lambda>kc f. if f \<in> set (kc_Finalizers kc) then kc else kc\<lparr>kc_Finalizers := kc_Finalizers kc @ [f]\<rparr>),
      kube_RemoveFinalizer =
        (\<lambda>kc f. kc\<lparr>kc_Finalizers := filter (\<lambda>g. g \<noteq> f) (kc_Finalizers kc)\<rparr>)\<rparr>"

definition fx_managed :: "string option \<Rightarrow> managed_cluster" where
  "fx_managed provisioningState =
     \<lparr>mc_ID = Some ''/aks/c1'', mc_Location = Some ''norwayeast'', mc_Tags = None, mc_IdentityType = None,
      mc_Properties = Some
        \<lparr>mp_DNSPrefix = None, mp_KubernetesVersion = Some ''1.29'', mp_AgentPoolProfiles = None,
         mp_EnableRBAC = None, mp_NetworkProfile = None, mp_ProvisioningState = provisioningState,
         mp_Fqdn = Some ''c1.azmk8s.io''\<rparr>\<rparr>"

definition fx_azure ::
  "go_error + managed_cluster \<Rightarrow> go_error + managed_cluster \<Rightarrow> go_error option \<Rightarrow> fx_world managed_cluster_client" where
  "fx_azure answer updated deleted =
     \<lparr>mcc_CreateOrUpdate = (\<lambda>rg cl c w. (updated, w)),
      mcc_Get = (\<lambda>rg cl w. (answer, w)),
      mcc_Delete = (\<lambda>rg cl w. (deleted, w)),
      mcc_GetAccessProfile = (\<lambda>rg cl role w. (Inr \<lparr>acp_KubeConfig = None\<rparr>, w)),
      mcc_ListClusterAdminCredentials = (\<lambda>rg cl w. (Inr \<lparr>cr_Kubeconfigs = [Some ''config'']\<rparr>, w)),
      mcc_ListClusterUserCredentials = (\<lambda>rg cl w. (Inr \<lparr>cr_Kubeconfigs = []\<rparr>, w))\<rparr>"

lemma fx_finalizer_laws: "finalizer_laws fx_kube"
  by (simp add: finalizer_laws_def fx_kube_def)

lemma fx_range_permutes: "range_permutes fx_runtime"
  by (simp add: range_permutes_def fx_runtime_def)

end
