(* ===== verification/ManagerConstants.thy ===== *)
theory ManagerConstants
  imports Prelude
begin

text \<open>
  \<open>internal/managers/constants.go\<close>: the names of the machine classes and of the VM sizes the
  static tables of the three managers refer to.
\<close>

section \<open>Machine classes\<close>

abbreviation machineClassSmall :: string where "machineClassSmall \<equiv> ''small''"
abbreviation machineClassMedium :: string where "machineClassMedium \<equiv> ''medium''"
abbreviation machineClassLarge :: string where "machineClassLarge \<equiv> ''large''"
abbreviation machineClassXLarge :: string where "machineClassXLarge \<equiv> ''xlarge''"
abbreviation machineClassLargeCPU :: string where "machineClassLargeCPU \<equiv> ''largecpu''"
abbreviation machineClassLargeMemory :: string where "machineClassLargeMemory \<equiv> ''largememory''"

section \<open>VM sizes\<close>

abbreviation vmSizeStandardD2sV5 :: string where "vmSizeStandardD2sV5 \<equiv> ''Standard_D2s_v5''"
abbreviation vmSizeStandardD4sV5 :: string where "vmSizeStandardD4sV5 \<equiv> ''Standard_D4s_v5''"
abbreviation vmSizeStandardD8sV5 :: string where "vmSizeStandardD8sV5 \<equiv> ''Standard_D8s_v5''"
abbreviation vmSizeStandardD16sV5 :: string where "vmSizeStandardD16sV5 \<equiv> ''Standard_D16s_v5''"
abbreviation vmSizeStandardF2sV2 :: string where "vmSizeStandardF2sV2 \<equiv> ''Standard_F2s_v2''"
abbreviation vmSizeStandardF4sV2 :: string where "vmSizeStandardF4sV2 \<equiv> ''Standard_F4s_v2''"
abbreviation vmSizeStandardF8sV2 :: string where "vmSizeStandardF8sV2 \<equiv> ''Standard_F8s_v2''"
abbreviation vmSizeStandardF16sV2 :: string where "vmSizeStandardF16sV2 \<equiv> ''Standard_F16s_v2''"
abbreviation vmSizeStandardE2sV5 :: string where "vmSizeStandardE2sV5 \<equiv> ''Standard_E2s_v5''"
abbreviation vmSizeStandardE4sV5 :: string where "vmSizeStandardE4sV5 \<equiv> ''Standard_E4s_v5''"
abbreviation vmSizeStandardE8sV5 :: string where "vmSizeStandardE8sV5 \<equiv> ''Standard_E8s_v5''"
abbreviation vmSizeStandardE16sV5 :: string where "vmSizeStandardE16sV5 \<equiv> ''Standard_E16s_v5''"
abbreviation vmSizeStandardNC6sV3 :: string where "vmSizeStandardNC6sV3 \<equiv> ''Standard_NC6s_v3''"
abbreviation vmSizeStandardNC4asT4V3 :: string where "vmSizeStandardNC4asT4V3 \<equiv> ''Standard_NC4as_T4_v3''"
abbreviation vmSizeStandardNC8asT4V3 :: string where "vmSizeStandardNC8asT4V3 \<equiv> ''Standard_NC8as_T4_v3''"
abbreviation vmSizeStandardNC16asT4V3 :: string where "vmSizeStandardNC16asT4V3 \<equiv> ''Standard_NC16as_T4_v3''"
abbreviation vmSizeStandardNC64asT4V3 :: string where "vmSizeStandardNC64asT4V3 \<equiv> ''Standard_NC64as_T4_v3''"

end
