(* ===== verification/VMSize.thy ===== *)
theory VMSize
  imports TtlCache Fixtures ManagerConstants
begin

text \<open>
  \<open>internal/managers/vm_size_manager.go\<close>: the VM sizes of a location, fetched from Azure and
  cached for 30 minutes, lookup by name, validation and recommendations.
\<close>

section \<open>The cache\<close>

definition newVMSizeCache :: "time \<Rightarrow> vm_size_cache" where
  "newVMSizeCache ttl = \<lparr>vmc_data = Map.empty, vmc_expiry = Map.empty, vmc_ttl = ttl\<rparr>"

definition vmSizeCache_lookup :: "vm_size_cache \<Rightarrow> time \<Rightarrow> string \<Rightarrow> vm_size list option" where
  "vmSizeCache_lookup c now location =
     (case vmc_expiry c location of
        None \<Rightarrow> None
      | Some expiry \<Rightarrow>
          if now < expiry
          then Some (case vmc_data c location of None \<Rightarrow> [] | Some sizes \<Rightarrow> sizes)
          else None)"

definition vmSizeCache_store :: "vm_size_cache \<Rightarrow> time \<Rightarrow> string \<Rightarrow> vm_size list \<Rightarrow> vm_size_cache" where
  "vmSizeCache_store c now location sizes =
     c\<lparr>vmc_data := (vmc_data c)(location \<mapsto> sizes),
       vmc_expiry := (vmc_expiry c)(location \<mapsto> now + vmc_ttl c)\<rparr>"

interpretation vm_ttl: ttl_cache vmSizeCache_lookup vmSizeCache_store vmc_ttl "\<lambda>sizes. sizes"
  by unfold_locales
    (auto simp: vmSizeCache_lookup_def vmSizeCache_store_def split: option.splits if_splits)

definition vmSizeCache_get :: "'w runtime \<Rightarrow> string \<Rightarrow> ('w, vm_size list option) go" where
  "vmSizeCache_get R location =
     do {
       c \<leftarrow> gets vm_cache;
       (case vmc_expiry c location of
          None \<Rightarrow> ret None
        | Some expiry \<Rightarrow>
            do {
              now \<leftarrow> time_Now R;
              ret (vmSizeCache_lookup c now location)
            })
     }"

definition vmSizeCache_set :: "'w runtime \<Rightarrow> string \<Rightarrow> vm_size list \<Rightarrow> ('w, unit) go" where
  "vmSizeCache_set R location sizes =
     do {
       now \<leftarrow> time_Now R;
       c \<leftarrow> gets vm_cache;
       put_vm_cache (vmSizeCache_store c now location sizes)
     }"

section \<open>The manager\<close>

definition ListVMSizes ::
  "'w runtime \<Rightarrow> 'w vm_size_client \<Rightarrow> string \<Rightarrow> ('w, go_error + vm_size list) go" where
  "ListVMSizes R C location =
     do {
       cached \<leftarrow> vmSizeCache_get R location;
       (case cached of
          Some sizes \<Rightarrow> ret (Inr sizes)
        | None \<Rightarrow>
            do {
              r \<leftarrow> call (\<lambda>r. AzVMSizeList location (sum_error r)) (vsc_List C location);
              (case r of
                 Inl err \<Rightarrow> ret (Inl (wrap_error ''failed to list VM sizes'' err))
               | Inr sizes \<Rightarrow>
                   do {
                     vmSizeCache_set R location sizes;
                     ret (Inr sizes)
                   })
            })
     }"

definition vm_size_not_found :: "string \<Rightarrow> string \<Rightarrow> go_error" where
  "vm_size_not_found vmSizeName location =
     new_error (''VM size '' @ vmSizeName @ '' not found in location '' @ location)"

fun find_vm_size :: "vm_size list \<Rightarrow> string \<Rightarrow> vm_size option" where
  "find_vm_size [] vmSizeName = None"
| "find_vm_size (sz # sizes) vmSizeName =
     (case vs_Name sz of
        Some name \<Rightarrow> if EqualFold name vmSizeName then Some sz else find_vm_size sizes vmSizeName
      | None \<Rightarrow> find_vm_size sizes vmSizeName)"

definition GetVMSize ::
  "'w runtime \<Rightarrow> 'w vm_size_client \<Rightarrow> string \<Rightarrow> string \<Rightarrow> ('w, go_error + vm_size) go" where
  "GetVMSize R C location vmSizeName =
     do {
       r \<leftarrow> ListVMSizes R C location;
       ret (case r of
              Inl err \<Rightarrow> Inl err
            | Inr sizes \<Rightarrow>
                (case find_vm_size sizes vmSizeName of
                   Some sz \<Rightarrow> Inr sz
                 | None \<Rightarrow> Inl (vm_size_not_found vmSizeName location)))
     }"

definition ValidateVMSize ::
  "'w runtime \<Rightarrow> 'w vm_size_client \<Rightarrow> string \<Rightarrow> string \<Rightarrow> ('w, go_error + bool) go" where
  "ValidateVMSize R C location vmSizeName =
     do {
       r \<leftarrow> GetVMSize R C location vmSizeName;
       ret (case r of
              Inl err \<Rightarrow> if Contains (err_text err) ''not found'' then Inr False else Inl err
            | Inr sz \<Rightarrow> Inr True)
     }"

definition recommends :: "string \<Rightarrow> string \<Rightarrow> bool" where
  "recommends workloadType name =
     (let w = ToLower workloadType in
      if w = ''general'' \<or> w = ''general-purpose''
      then HasPrefix name ''Standard_D'' \<or> HasPrefix name ''Standard_DS''
      else if w = ''compute'' \<or> w = ''compute-optimized'' then HasPrefix name ''Standard_F''
      else if w = ''memory'' \<or> w = ''memory-optimized'' then HasPrefix name ''Standard_E''
      else if w = ''gpu'' then HasPrefix name ''Standard_N''
      else if w = ''burstable'' then HasPrefix name ''Standard_B''
      else if w = ''storage'' \<or> w = ''storage-optimized'' then HasPrefix name ''Standard_L''
      else HasPrefix name ''Standard_DS'' \<and> Contains name ''_v2'')"

definition GetRecommendedVMSizes ::
  "'w runtime \<Rightarrow> 'w vm_size_client \<Rightarrow> string \<Rightarrow> string \<Rightarrow> ('w, go_error + vm_size list) go" where
  "GetRecommendedVMSizes R C location workloadType =
     do {
       r \<leftarrow> ListVMSizes R C location;
       ret (case r of
              Inl err \<Rightarrow> Inl err
            | Inr sizes \<Rightarrow>
                Inr (filter (\<lambda>sz. case vs_Name sz of
                                       None \<Rightarrow> False
                                     | Some name \<Rightarrow> recommends workloadType name) sizes))
     }"

record vm_size_specs =
  spec_Name :: string
  spec_Cores :: int
  spec_MemoryMB :: int
  spec_MaxDataDisks :: int
  spec_OSDiskSizeMB :: int
  spec_ResourceDiskSizeMB :: int

definition int32_or_zero :: "go_int32 option \<Rightarrow> int" where
  "int32_or_zero x = (case x of None \<Rightarrow> 0 | Some v \<Rightarrow> sint v)"

definition GetVMSizeSpecs ::
  "'w runtime \<Rightarrow> 'w vm_size_client \<Rightarrow> string \<Rightarrow> string \<Rightarrow> ('w, go_error + vm_size_specs) go" where
  "GetVMSizeSpecs R C location vmSizeName =
     do {
       r \<leftarrow> GetVMSize R C location vmSizeName;
       ret (case r of
              Inl err \<Rightarrow> Inl err
            | Inr sz \<Rightarrow>
                Inr \<lparr>spec_Name = vmSizeName,
                     spec_Cores = int32_or_zero (vs_NumberOfCores sz),
                     spec_MemoryMB = int32_or_zero (vs_MemoryInMB sz),
                     spec_MaxDataDisks = int32_or_zero (vs_MaxDataDiskCount sz),
                     spec_OSDiskSizeMB = int32_or_zero (vs_OSDiskSizeInMB sz),
                     spec_ResourceDiskSizeMB = int32_or_zero (vs_ResourceDiskSizeInMB sz)\<rparr>)
     }"


text \<open>The interface \<open>VMSizeManager\<close>, and the manager as its implementation.\<close>

record 'w vm_size_manager =
  vsm_ListVMSizes :: "string \<Rightarrow> ('w, go_error + vm_size list) go"
  vsm_GetVMSize :: "string \<Rightarrow> string \<Rightarrow> ('w, go_error + vm_size) go"
  vsm_ValidateVMSize :: "string \<Rightarrow> string \<Rightarrow> ('w, go_error + bool) go"
  vsm_GetRecommendedVMSizes :: "string \<Rightarrow> string \<Rightarrow> ('w, go_error + vm_size list) go"

definition NewVMSizeManager :: "'w runtime \<Rightarrow> 'w vm_size_client \<Rightarrow> 'w vm_size_manager" where
  "NewVMSizeManager R C =
     \<lparr>vsm_ListVMSizes = ListVMSizes R C, vsm_GetVMSize = GetVMSize R C,
      vsm_ValidateVMSize = ValidateVMSize R C, vsm_GetRecommendedVMSizes = GetRecommendedVMSizes R C\<rparr>"

section \<open>What the manager guarantees\<close>

lemma emits_vmSizeCache [emits_intros]:
  "emits P (vmSizeCache_get R location)" "emits P (vmSizeCache_set R location sizes)"
  unfolding vmSizeCache_get_def vmSizeCache_set_def by (intro emits_intros)+

lemma emits_ListVMSizes: "emits is_vm_event (ListVMSizes R C location)"
  unfolding ListVMSizes_def by (intro emits_intros) simp

lemma emits_GetVMSize: "emits is_vm_event (GetVMSize R C location name)"
  unfolding GetVMSize_def by (intro emits_intros emits_ListVMSizes)

lemma emits_ValidateVMSize: "emits is_vm_event (ValidateVMSize R C location name)"
  unfolding ValidateVMSize_def by (intro emits_intros emits_GetVMSize)

lemma find_vm_size_Some:
  "find_vm_size sizes name = Some sz \<Longrightarrow>
     sz \<in> set sizes \<and> (\<exists>n. vs_Name sz = Some n \<and> EqualFold n name)"
  by (induction sizes) (auto split: option.splits if_splits)

lemma find_vm_size_None:
  "find_vm_size sizes name = None \<longleftrightarrow>
     (\<forall>sz\<in>set sizes. \<forall>n. vs_Name sz = Some n \<longrightarrow> \<not> EqualFold n name)"
  by (induction sizes) (auto split: option.splits)

lemma vm_size_not_found_text [simp]:
  "Contains (err_text (vm_size_not_found name location)) ''not found''"
proof -
  have "err_text (vm_size_not_found name location) =
      (''VM size '' @ name @ '' '') @ ''not found'' @ '' in location '' @ location"
    by (simp add: vm_size_not_found_def)
  then show ?thesis unfolding Contains_iff by blast
qed

lemma ListVMSizes_hit:
  assumes "vmc_expiry (vm_cache s) location = Some x" and "fst (rt_now R (world s)) < x"
  shows "run_state (ListVMSizes R C location) s =
     (Inr (case vmc_data (vm_cache s) location of None \<Rightarrow> [] | Some sizes \<Rightarrow> sizes),
      s\<lparr>world := snd (rt_now R (world s))\<rparr>)"
  using assms by (simp add: ListVMSizes_def vmSizeCache_get_def vmSizeCache_lookup_def)

lemma ListVMSizes_served:
  assumes "run_state (ListVMSizes R C location) s = (Inr sizes, s')"
  shows "vmc_expiry (vm_cache s') location \<noteq> None"
    and "(case vmc_data (vm_cache s') location of None \<Rightarrow> [] | Some sizes \<Rightarrow> sizes) = sizes"
  using assms
  by (auto simp: ListVMSizes_def vmSizeCache_get_def vmSizeCache_set_def vmSizeCache_lookup_def
      vmSizeCache_store_def split: error_splits)

text \<open>
  What the clients of \<open>VMSizeManager\<close> rely on: its operations only talk to the VM-size API.
\<close>

locale vm_size_service =
  fixes V :: "'w vm_size_manager"
  assumes emits_list: "emits is_vm_event (vsm_ListVMSizes V location)"
    and emits_validate: "emits is_vm_event (vsm_ValidateVMSize V location name)"
begin

lemma emits_list_sizing: "emits is_sizing_event (vsm_ListVMSizes V location)"
  by (rule emits_mono [OF emits_list]) (simp add: is_sizing_event_def)

lemma emits_validate_sizing: "emits is_sizing_event (vsm_ValidateVMSize V location name)"
  by (rule emits_mono [OF emits_validate]) (simp add: is_sizing_event_def)

end

interpretation vm_size_impl: vm_size_service "NewVMSizeManager R C"
  by unfold_locales (simp_all add: NewVMSizeManager_def emits_ListVMSizes emits_ValidateVMSize)

text \<open>Once \<open>ListVMSizes\<close> has answered for a location, every later call made while the
  cache entry is fresh answers with the same list and makes no Azure request.\<close>

theorem list_vm_sizes_fresh:
  assumes "run_state (ListVMSizes R C location) s = (Inr sizes, s1)"
    and "vm_cache s2 = vm_cache s1"
    and "fst (rt_now R (world s2)) < the (vmc_expiry (vm_cache s1) location)"
  shows "run_state (ListVMSizes R C location) s2 = (Inr sizes, s2\<lparr>world := snd (rt_now R (world s2))\<rparr>)"
proof -
  from ListVMSizes_served(1) [OF assms(1)] obtain x
    where x: "vmc_expiry (vm_cache s1) location = Some x" by blast
  show ?thesis
    using ListVMSizes_hit [of s2 location x R C] assms(2,3) x ListVMSizes_served(2) [OF assms(1)]
    by simp
qed

text \<open>C36. \<open>ValidateVMSize\<close> decides, case-insensitively, whether the location lists the size; an
  error of the listing is passed on, except that one whose text contains \<open>not found\<close> counts
  as "not available".\<close>

theorem validate_vm_size_decides:
  assumes "run_state (ListVMSizes R C location) s = (r, s')"
  shows "run_state (ValidateVMSize R C location name) s =
     (case r of
        Inr sizes \<Rightarrow> Inr (\<exists>sz\<in>set sizes. \<exists>n. vs_Name sz = Some n \<and> EqualFold n name)
      | Inl e \<Rightarrow> (if Contains (err_text e) ''not found'' then Inr False else Inl e), s')"
proof (cases r)
  case (Inr sizes)
  then show ?thesis
    using assms find_vm_size_None [of sizes name] find_vm_size_Some [of sizes name]
    by (cases "find_vm_size sizes name")
      (auto simp: ValidateVMSize_def GetVMSize_def)
qed (use assms in \<open>simp add: ValidateVMSize_def GetVMSize_def\<close>)

lemmas vm_cache_defs = vmSizeCache_get_def vmSizeCache_set_def vmSizeCache_lookup_def vmSizeCache_store_def

theorem list_vm_sizes_fresh_witness:
  "fst (run_state (ListVMSizes fx_runtime fx_sizes ''norwayeast'')
     (snd (run_state (ListVMSizes fx_runtime fx_sizes ''norwayeast'') fx_state))) = Inr [fx_d4, fx_d2]"
proof -
  have "run_state (ListVMSizes fx_runtime fx_sizes ''norwayeast'') fx_state =
      (Inr [fx_d4, fx_d2], snd (run_state (ListVMSizes fx_runtime fx_sizes ''norwayeast'') fx_state))"
    by (simp add: ListVMSizes_def vm_cache_defs fx_runtime_def fx_sizes_def fx_state_def)
  from list_vm_sizes_fresh [OF this refl]
  show ?thesis
    by (simp add: ListVMSizes_def vm_cache_defs fx_runtime_def fx_sizes_def fx_state_def)
qed

theorem validate_vm_size_decides_witness:
  "fst (run_state (ValidateVMSize fx_runtime fx_sizes ''norwayeast'' ''standard_d2S_V5'') fx_state) = Inr True"
proof -
  have "run_state (ListVMSizes fx_runtime fx_sizes ''norwayeast'') fx_state =
      (Inr [fx_d4, fx_d2], snd (run_state (ListVMSizes fx_runtime fx_sizes ''norwayeast'') fx_state))"
    by (simp add: ListVMSizes_def vm_cache_defs fx_runtime_def fx_sizes_def fx_state_def)
  from validate_vm_size_decides [OF this, of "''standard_d2S_V5''"]
  show ?thesis by (simp add: fx_d4_def fx_d2_def string_eval)
qed

end
