(* ===== verification/Float64.thy ===== *)
theory Float64
  imports Complex_Main "HOL-Library.Log_Nat" Convert
begin

text \<open>
  IEEE 754 double precision, the type \<open>float64\<close> of the VM-size scores. A finite value is the
  rational it denotes; each operation computes the exact result and rounds it to 53 significant
  bits, ties to even, with gradual underflow below \<open>2^-1022\<close> and overflow to an infinity;
  no operation is fused with another (the compiler's default on amd64).
  The two zeros are identified: only a division by zero could tell them apart, and every divisor
  in the operator is a conversion of an integer (never \<open>-0\<close>) divided by a positive constant.
\<close>

datatype f64 = NaN | PInf | NInf | Fin rat

definition pow2 :: "int \<Rightarrow> rat" where
  "pow2 e = (if 0 \<le> e then 2 ^ nat e else 1 / 2 ^ nat (- e))"

definition ilog2 :: "rat \<Rightarrow> int" where
  "ilog2 q = (if 1 \<le> q then bitlen \<lfloor>q\<rfloor> - 1 else - bitlen (\<lceil>1 / q\<rceil> - 1))"

definition round_half_even :: "rat \<Rightarrow> int" where
  "round_half_even x =
     (let f = \<lfloor>x\<rfloor>; r = x - of_int f
      in if r < 1 / 2 then f else if 1 / 2 < r then f + 1 else if even f then f else f + 1)"

definition round_pos :: "rat \<Rightarrow> rat" where
  "round_pos a =
     (let e = max (- 1074) (ilog2 a - 52) in of_int (round_half_even (a / pow2 e)) * pow2 e)"

definition round_f64 :: "rat \<Rightarrow> f64" where
  "round_f64 q =
     (if q = 0 then Fin 0
      else if 0 < q then (let v = round_pos q in if v < pow2 1024 then Fin v else PInf)
      else (let v = round_pos (- q) in if v < pow2 1024 then Fin (- v) else NInf))"

fun f_add :: "f64 \<Rightarrow> f64 \<Rightarrow> f64" where
  "f_add (Fin x) (Fin y) = round_f64 (x + y)"
| "f_add NaN b = NaN"
| "f_add a NaN = NaN"
| "f_add PInf NInf = NaN"
| "f_add NInf PInf = NaN"
| "f_add PInf b = PInf"
| "f_add a PInf = PInf"
| "f_add NInf b = NInf"
| "f_add a NInf = NInf"

fun f_neg :: "f64 \<Rightarrow> f64" where
  "f_neg (Fin x) = Fin (- x)"
| "f_neg PInf = NInf"
| "f_neg NInf = PInf"
| "f_neg NaN = NaN"

definition f_sub :: "f64 \<Rightarrow> f64 \<Rightarrow> f64" where
  "f_sub a b = f_add a (f_neg b)"

fun f_sign :: "f64 \<Rightarrow> int" where
  "f_sign (Fin x) = (if x < 0 then -1 else if x = 0 then 0 else 1)"
| "f_sign PInf = 1"
| "f_sign NInf = -1"
| "f_sign NaN = 0"

definition signed_inf :: "int \<Rightarrow> f64" where
  "signed_inf s = (if s < 0 then NInf else if s = 0 then NaN else PInf)"

fun f_mul :: "f64 \<Rightarrow> f64 \<Rightarrow> f64" where
  "f_mul (Fin x) (Fin y) = round_f64 (x * y)"
| "f_mul a b = (if a = NaN \<or> b = NaN then NaN else signed_inf (f_sign a * f_sign b))"

fun f_div :: "f64 \<Rightarrow> f64 \<Rightarrow> f64" where
  "f_div (Fin x) (Fin y) = (if y = 0 then signed_inf (f_sign (Fin x)) else round_f64 (x / y))"
| "f_div NaN b = NaN"
| "f_div a NaN = NaN"
| "f_div (Fin x) b = Fin 0"
| "f_div a (Fin y) = (if y < 0 then signed_inf (- f_sign a) else signed_inf (f_sign a))"
| "f_div a b = NaN"

text \<open>Comparison of floats: false as soon as one side is not a number.\<close>

fun f_lt :: "f64 \<Rightarrow> f64 \<Rightarrow> bool" where
  "f_lt NaN b = False"
| "f_lt a NaN = False"
| "f_lt a NInf = False"
| "f_lt PInf b = False"
| "f_lt (Fin x) (Fin y) = (x < y)"
| "f_lt a b = True"

text \<open>\<open>math.Max\<close>: \<open>+Inf\<close> dominates, then not-a-number.\<close>

definition f_max :: "f64 \<Rightarrow> f64 \<Rightarrow> f64" where
  "f_max a b =
     (if a = PInf \<or> b = PInf then PInf
      else if a = NaN \<or> b = NaN then NaN
      else if f_lt b a then a else b)"

definition f64_of_int :: "int \<Rightarrow> f64" where
  "f64_of_int i = round_f64 (of_int i)"

section \<open>Rounding: range, bounds and monotonicity\<close>

lemma pow2_powi: "pow2 e = 2 powi e"
  by (simp add: pow2_def power_int_def field_simps)

lemma pow2_pos [simp]: "0 < pow2 e"
  and pow2_nonneg [simp]: "0 \<le> pow2 e"
  and pow2_nonzero [simp]: "pow2 e \<noteq> 0"
  by (simp_all add: pow2_def)

lemma pow2_add: "pow2 (a + b) = pow2 a * pow2 b"
  by (simp add: pow2_powi power_int_add)

lemma pow2_mono: "a \<le> b \<Longrightarrow> pow2 a \<le> pow2 b"
  by (simp add: pow2_powi power_int_increasing)

lemma pow2_less_iff: "pow2 a < pow2 b \<longleftrightarrow> a < b"
  by (metis linorder_not_less pow2_mono pow2_powi power_int_strict_increasing one_less_numeral_iff
      semiring_norm(76))

lemma of_int_two_power_le: "2 ^ k \<le> n \<Longrightarrow> (2::rat) ^ k \<le> of_int n"
  using of_int_le_iff [of "2 ^ k" n, where 'a = rat] by simp

lemma of_int_less_two_power: "n < 2 ^ k \<Longrightarrow> of_int n + 1 \<le> (2::rat) ^ k"
  using of_int_le_iff [of "n + 1" "2 ^ k", where 'a = rat] by simp

lemma ilog2_bounds:
  assumes "0 < q"
  shows "pow2 (ilog2 q) \<le> q" and "q < pow2 (ilog2 q + 1)"
proof -
  have *: "pow2 (ilog2 q) \<le> q \<and> q < pow2 (ilog2 q + 1)"
  proof (cases "1 \<le> q")
    case True
    define n where "n = \<lfloor>q\<rfloor>"
    have n: "0 < n" "of_int n \<le> q" "q < of_int n + 1"
      using True by (simp_all add: n_def) linarith
    then have b: "2 ^ nat (bitlen n - 1) \<le> n" "n < 2 ^ nat (bitlen n)"
      using bitlen_bounds [of n] by simp_all
    have "1 \<le> bitlen n"
      using n(1) bitlen_nonneg [of n] bitlen_eq_zero_iff [of n] by linarith
    moreover have "(2::rat) ^ nat (bitlen n - 1) \<le> q"
      using of_int_two_power_le [OF b(1)] n(2) by (rule order_trans)
    moreover have "q < (2::rat) ^ nat (bitlen n)"
      using n(3) of_int_less_two_power [OF b(2)] by (rule less_le_trans)
    ultimately show ?thesis
      using True by (simp add: ilog2_def pow2_def n_def [symmetric])
  next
    case False
    define c where "c = \<lceil>1 / q\<rceil> - 1"
    have r: "1 < 1 / q" using False assms by simp
    have c: "0 < c" "of_int c < 1 / q" "1 / q \<le> of_int c + 1"
      using r by (simp_all add: c_def) linarith+
    then have b: "2 ^ nat (bitlen c - 1) \<le> c" "c < 2 ^ nat (bitlen c)"
      using bitlen_bounds [of c] by simp_all
    have l: "1 \<le> bitlen c"
      using c(1) bitlen_nonneg [of c] bitlen_eq_zero_iff [of c] by linarith
    have u: "(2::rat) ^ nat (bitlen c - 1) < 1 / q"
      using of_int_two_power_le [OF b(1)] c(2) by (rule le_less_trans)
    have v: "1 / q \<le> (2::rat) ^ nat (bitlen c)"
      using c(3) of_int_less_two_power [OF b(2)] by (rule order_trans)
    have p1: "pow2 (- bitlen c) = 1 / 2 ^ nat (bitlen c)"
      using l by (simp add: pow2_def)
    have p2: "pow2 (- bitlen c + 1) = 1 / 2 ^ nat (bitlen c - 1)"
      using l by (cases "bitlen c = 1") (simp_all add: pow2_def)
    note p2' = p2 [unfolded add.commute [of "- bitlen c" 1], simplified]
    show ?thesis
      using False assms u v by (simp add: ilog2_def p1 p2' field_simps flip: c_def)
  qed
  then show "pow2 (ilog2 q) \<le> q" and "q < pow2 (ilog2 q + 1)" by simp_all
qed

lemma ilog2_mono: "0 < a \<Longrightarrow> a \<le> b \<Longrightarrow> ilog2 a \<le> ilog2 b"
  using ilog2_bounds [of a] ilog2_bounds [of b] pow2_less_iff [of "ilog2 a" "ilog2 b + 1"]
  by linarith

lemma round_half_even_bounds:
  "x - 1 / 2 \<le> of_int (round_half_even x)" "of_int (round_half_even x) \<le> x + 1 / 2"
proof -
  define f where "f = \<lfloor>x\<rfloor>"
  then have f: "\<lfloor>x\<rfloor> = f" "of_int f \<le> x" "x < of_int f + 1"
    using floor_correct [of x] by simp_all
  have "x - 1 / 2 \<le> of_int (round_half_even x) \<and> of_int (round_half_even x) \<le> x + 1 / 2"
    unfolding round_half_even_def Let_def f(1) using f(2,3) by (auto simp: field_simps)
  then show "x - 1 / 2 \<le> of_int (round_half_even x)"
    and "of_int (round_half_even x) \<le> x + 1 / 2" by simp_all
qed

lemma round_half_even_int [simp]: "round_half_even (of_int n) = n"
  by (simp add: round_half_even_def)

lemma round_half_even_mono: "x \<le> y \<Longrightarrow> round_half_even x \<le> round_half_even y"
proof (cases "\<lfloor>x\<rfloor> = \<lfloor>y\<rfloor>")
  case True
  assume "x \<le> y"
  with True show ?thesis by (auto simp: round_half_even_def Let_def)
next
  case False
  assume "x \<le> y"
  then have "\<lfloor>x\<rfloor> + 1 \<le> \<lfloor>y\<rfloor>" using False floor_mono [of x y] by linarith
  then show ?thesis by (auto simp: round_half_even_def Let_def)
qed

lemma round_half_even_le: "x \<le> of_int n \<Longrightarrow> round_half_even x \<le> n"
  and round_half_even_ge: "of_int n \<le> x \<Longrightarrow> n \<le> round_half_even x"
  using round_half_even_mono [of x "of_int n"] round_half_even_mono [of "of_int n" x] by simp_all

text \<open>The exponent of the last kept bit.\<close>

definition ulp_exp :: "rat \<Rightarrow> int" where
  "ulp_exp a = max (- 1074) (ilog2 a - 52)"

lemma round_pos_alt: "round_pos a = of_int (round_half_even (a / pow2 (ulp_exp a))) * pow2 (ulp_exp a)"
  by (simp add: round_pos_def ulp_exp_def Let_def)

lemma ulp_exp_mono: "0 < a \<Longrightarrow> a \<le> b \<Longrightarrow> ulp_exp a \<le> ulp_exp b"
  using ilog2_mono [of a b] by (simp add: ulp_exp_def)

lemma round_pos_le_pow2:
  assumes "0 < a"
  shows "round_pos a \<le> pow2 (ulp_exp a + 53)"
proof -
  have "a < pow2 (ilog2 a + 1)" using assms by (rule ilog2_bounds)
  also have "\<dots> \<le> pow2 (ulp_exp a + 53)" by (rule pow2_mono) (simp add: ulp_exp_def)
  finally have "a / pow2 (ulp_exp a) \<le> of_int (2 ^ 53)"
    by (simp add: pow2_add field_simps) (simp add: pow2_def)
  then have "of_int (round_half_even (a / pow2 (ulp_exp a))) \<le> (of_int (2 ^ 53) :: rat)"
    unfolding of_int_le_iff by (rule round_half_even_le)
  then have "of_int (round_half_even (a / pow2 (ulp_exp a))) * pow2 (ulp_exp a)
      \<le> of_int (2 ^ 53) * pow2 (ulp_exp a)"
    by (rule mult_right_mono) simp
  then show ?thesis
    by (simp add: round_pos_alt pow2_add) (simp add: pow2_def mult.commute)
qed

lemma round_pos_ge_pow2:
  assumes "0 < a" and "ulp_exp a = ilog2 a - 52"
  shows "pow2 (ilog2 a) \<le> round_pos a"
proof -
  have i: "pow2 (ilog2 a) = of_int (2 ^ 52) * pow2 (ulp_exp a)"
    using pow2_add [of 52 "ulp_exp a"] assms(2) by (simp add: pow2_def [of 52])
  have "of_int (2 ^ 52) \<le> a / pow2 (ulp_exp a)"
    using ilog2_bounds(1) [OF assms(1)] by (simp add: i field_simps)
  then have "of_int (2 ^ 52) \<le> (of_int (round_half_even (a / pow2 (ulp_exp a))) :: rat)"
    unfolding of_int_le_iff by (rule round_half_even_ge)
  then show ?thesis
    unfolding i round_pos_alt by (rule mult_right_mono) simp
qed

lemma round_pos_mono:
  assumes "0 < a" and "a \<le> b"
  shows "round_pos a \<le> round_pos b"
proof (cases "ulp_exp a = ulp_exp b")
  case True
  have "a / pow2 (ulp_exp b) \<le> b / pow2 (ulp_exp b)"
    using assms(2) by (simp add: divide_right_mono)
  then have "round_half_even (a / pow2 (ulp_exp b)) \<le> round_half_even (b / pow2 (ulp_exp b))"
    by (rule round_half_even_mono)
  then show ?thesis
    unfolding round_pos_alt True by (intro mult_right_mono) simp_all
next
  case False
  then have e: "ulp_exp a + 1 \<le> ulp_exp b"
    using ulp_exp_mono [OF assms] by linarith
  then have eb: "ulp_exp b = ilog2 b - 52"
    by (auto simp: ulp_exp_def)
  have "round_pos a \<le> pow2 (ulp_exp a + 53)" using assms(1) by (rule round_pos_le_pow2)
  also have "\<dots> \<le> pow2 (ilog2 b)" using e eb by (intro pow2_mono) linarith
  also have "\<dots> \<le> round_pos b" using assms eb by (intro round_pos_ge_pow2) auto
  finally show ?thesis .
qed

lemma round_pos_nonneg: "0 \<le> a \<Longrightarrow> 0 \<le> round_pos a"
  unfolding round_pos_alt
  by (intro mult_nonneg_nonneg) (simp_all add: round_half_even_ge [where n = 0, simplified])


lemma round_pos_le_double:
  assumes "0 < a"
  shows "round_pos a \<le> 2 * a"
proof -
  define x where "x = a / pow2 (ulp_exp a)"
  have x: "0 < x" "a = x * pow2 (ulp_exp a)"
    using assms by (simp_all add: x_def)
  have "of_int (round_half_even x) \<le> 2 * x"
  proof (cases "x \<le> 1 / 2")
    case True
    then have "\<lfloor>x\<rfloor> = 0" using x(1) by (simp add: floor_eq_iff)
    then have "round_half_even x = 0"
      using True by (simp add: round_half_even_def)
    then show ?thesis using x(1) by simp
  next
    case False
    then show ?thesis using round_half_even_bounds(2) [of x] by linarith
  qed
  then have "of_int (round_half_even x) * pow2 (ulp_exp a) \<le> 2 * x * pow2 (ulp_exp a)"
    by (rule mult_right_mono) simp
  then show ?thesis unfolding round_pos_alt x_def [symmetric] x(2) [symmetric]
    by (simp only: mult.assoc flip: x(2))
qed

lemma round_pos_ge_half:
  assumes "pow2 (- 1074) \<le> a"
  shows "a / 2 \<le> round_pos a"
proof -
  define x where "x = a / pow2 (ulp_exp a)"
  have a: "0 < a" using assms pow2_pos [of "- 1074"] by linarith
  have "- 1074 < ilog2 a + 1"
    using assms ilog2_bounds(2) [OF a] pow2_less_iff by (metis le_less_trans)
  then have "pow2 (ulp_exp a) \<le> a"
    using ilog2_bounds(1) [OF a] pow2_mono [of "ulp_exp a" "ilog2 a"] by (simp add: ulp_exp_def)
  then have "1 \<le> x" by (simp add: x_def)
  then have "x / 2 \<le> of_int (round_half_even x)"
    using round_half_even_bounds(1) [of x] by linarith
  then have "x / 2 * pow2 (ulp_exp a) \<le> of_int (round_half_even x) * pow2 (ulp_exp a)"
    by (rule mult_right_mono) simp
  then show ?thesis by (simp add: round_pos_alt x_def)
qed

lemma round_f64_finite:
  assumes "0 \<le> q" and "q \<le> pow2 1000"
  obtains r where "round_f64 q = Fin r" and "0 \<le> r" and "r \<le> 2 * q"
    and "pow2 (- 1000) \<le> q \<Longrightarrow> q / 2 \<le> r"
proof (cases "q = 0")
  case True
  then show ?thesis using that [of 0] by (simp add: round_f64_def)
next
  case False
  with assms(1) have q: "0 < q" by simp
  have "round_pos q \<le> 2 * pow2 1000"
    using round_pos_le_double [OF q] assms(2) by linarith
  also have "2 * pow2 1000 = pow2 1001"
    using pow2_add [of 1 1000] by (simp add: pow2_def [of 1])
  also have "\<dots> < pow2 1024"
    by (simp add: pow2_less_iff)
  finally have r: "round_f64 q = Fin (round_pos q)"
    using q by (simp add: round_f64_def Let_def)
  have "q / 2 \<le> round_pos q" if "pow2 (- 1000) \<le> q"
    by (rule round_pos_ge_half, rule order_trans [OF pow2_mono that]) simp
  then show ?thesis
    using that [OF r] round_pos_nonneg [OF assms(1)] round_pos_le_double [OF q] by simp
qed

text \<open>Away from not-a-number, \<open><\<close> is a strict weak order.\<close>

lemma f_lt_irrefl [simp]: "\<not> f_lt a a"
  by (cases a) auto

lemma f_lt_trans: "f_lt a b \<Longrightarrow> f_lt b c \<Longrightarrow> f_lt a c"
  by (cases a; cases b; cases c) auto

lemma f_lt_negtrans: "f_lt a c \<Longrightarrow> b \<noteq> NaN \<Longrightarrow> f_lt a b \<or> f_lt b c"
  by (cases a; cases b; cases c) auto

lemma f_lt_strict_weak: "\<forall>x\<in>A. f x \<noteq> NaN \<Longrightarrow> strict_weak_on (\<lambda>x y. f_lt (f x) (f y)) A"
  unfolding strict_weak_on_def by (simp, blast intro: f_lt_trans dest: f_lt_negtrans)

section \<open>Exactly representable values\<close>

lemma round_pos_exact:
  assumes "0 < m" and "m < 2 ^ 53" and "- 1074 \<le> k"
  shows "round_pos (of_int m * pow2 k) = of_int m * pow2 k"
proof -
  define a where "a = of_int m * pow2 k"
  have a: "0 < a" using assms(1) by (simp add: a_def)
  have "of_int m < (2 :: rat) ^ 53"
    using of_int_less_two_power [OF assms(2)] by linarith
  then have "a < pow2 (53 + k)"
    unfolding a_def pow2_add by (intro mult_strict_right_mono) (simp_all add: pow2_def)
  then have "ilog2 a < 53 + k"
    using ilog2_bounds(1) [OF a] by (meson le_less_trans pow2_less_iff)
  then have e: "ulp_exp a \<le> k" using assms(3) by (simp add: ulp_exp_def)
  define j where "j = nat (k - ulp_exp a)"
  have "pow2 k = pow2 (int j) * pow2 (ulp_exp a)"
    using e by (simp add: j_def flip: pow2_add)
  then have "a = of_int (m * 2 ^ j) * pow2 (ulp_exp a)"
    by (metis a_def mult.assoc of_int_mult of_int_numeral of_int_power of_nat_0_le_iff nat_int pow2_def)
  then have "a / pow2 (ulp_exp a) = of_int (m * 2 ^ j)"
    by (metis nonzero_mult_div_cancel_right pow2_nonzero)
  then have "round_half_even (a / pow2 (ulp_exp a)) = m * 2 ^ j"
    by (metis round_half_even_int)
  then show ?thesis
    using \<open>a / pow2 (ulp_exp a) = of_int (m * 2 ^ j)\<close>
    unfolding a_def [symmetric] round_pos_alt by (metis nonzero_divide_eq_eq pow2_nonzero)
qed

lemma round_f64_exact:
  assumes "\<bar>m\<bar> < 2 ^ 53" and "- 1074 \<le> k" and "k \<le> 900"
  shows "round_f64 (of_int m * pow2 k) = Fin (of_int m * pow2 k)"
proof -
  have small: "of_int n * pow2 k < pow2 1024" if "n < 2 ^ 53" for n
  proof -
    have "of_int n * pow2 k < pow2 53 * pow2 k"
      using of_int_less_two_power [OF that] by (intro mult_strict_right_mono) (simp_all add: pow2_def)
    also have "\<dots> = pow2 (53 + k)" by (simp only: pow2_add)
    also have "\<dots> \<le> pow2 1024" using assms(3) by (intro pow2_mono) simp
    finally show ?thesis .
  qed
  consider "m = 0" | "0 < m" | "m < 0" by linarith
  then show ?thesis
  proof cases
    case 1 then show ?thesis by (simp add: round_f64_def)
  next
    case 2
    then show ?thesis
      using assms small [of m] round_pos_exact [of m k] by (simp add: round_f64_def)
  next
    case 3
    have "round_pos (- (of_int m * pow2 k)) = - (of_int m * pow2 k)"
      using round_pos_exact [of "- m" k] assms 3 by simp
    moreover have "- (of_int m * pow2 k) < pow2 1024"
      using small [of "- m"] assms(1) by simp
    moreover have "of_int m * pow2 k < (0::rat)" using 3 by (simp add: mult_neg_pos)
    ultimately show ?thesis by (simp add: round_f64_def)
  qed
qed

lemma f64_of_int_exact: "\<bar>n\<bar> < 2 ^ 53 \<Longrightarrow> f64_of_int n = Fin (of_int n)"
  using round_f64_exact [of n 0] by (simp add: f64_of_int_def pow2_def)

section \<open>Rounded operations are monotone\<close>

text \<open>\<open>f_le\<close> is \<open>\<le>\<close> on the values that are numbers.\<close>

definition f_le :: "f64 \<Rightarrow> f64 \<Rightarrow> bool" where
  "f_le a b \<longleftrightarrow> a \<noteq> NaN \<and> b \<noteq> NaN \<and> \<not> f_lt b a"

lemma f_le_Fin [simp]: "f_le (Fin x) (Fin y) \<longleftrightarrow> x \<le> y"
  by (auto simp: f_le_def)

lemma f_le_NaN [simp]: "\<not> f_le NaN a" "\<not> f_le a NaN"
  by (simp_all add: f_le_def)

lemma f_le_refl [simp]: "f_le a a \<longleftrightarrow> a \<noteq> NaN"
  by (simp add: f_le_def)

lemma f_le_trans: "f_le a b \<Longrightarrow> f_le b c \<Longrightarrow> f_le a c"
  unfolding f_le_def using f_lt_negtrans by blast

lemma f_le_inf: "f_le NInf a \<longleftrightarrow> a \<noteq> NaN" "f_le a PInf \<longleftrightarrow> a \<noteq> NaN"
  by (cases a; simp add: f_le_def)+

lemma round_f64_not_NaN [simp]: "round_f64 q \<noteq> NaN"
  by (simp add: round_f64_def Let_def)

lemma round_f64_mono:
  assumes "x \<le> y"
  shows "f_le (round_f64 x) (round_f64 y)"
proof -
  have pos: "f_le (Fin 0) (round_f64 q)" if "0 < q" for q
    using that round_pos_nonneg [of q] by (auto simp: round_f64_def Let_def f_le_def)
  have neg: "f_le (round_f64 q) (Fin 0)" if "q < 0" for q
    using that round_pos_nonneg [of "- q"] by (auto simp: round_f64_def Let_def f_le_def)
  consider "0 < x" | "y < 0" | "x \<le> 0" "0 \<le> y" using assms by linarith
  then show ?thesis
  proof cases
    case 1
    then show ?thesis using assms round_pos_mono [of x y]
      by (auto simp: round_f64_def Let_def f_le_def)
  next
    case 2
    then show ?thesis using assms round_pos_mono [of "- y" "- x"]
      by (auto simp: round_f64_def Let_def f_le_def)
  next
    case 3
    have "f_le (round_f64 x) (Fin 0)" using neg [of x] 3 by (cases "x = 0") (auto simp: round_f64_def)
    moreover have "f_le (Fin 0) (round_f64 y)" using pos [of y] 3 by (cases "y = 0") (auto simp: round_f64_def)
    ultimately show ?thesis by (rule f_le_trans)
  qed
qed

lemma f_add_mono:
  assumes "f_le a b" and "f_le c d" and "f_add a c \<noteq> NaN" and "f_add b d \<noteq> NaN"
  shows "f_le (f_add a c) (f_add b d)"
  using assms
  by (cases a; cases b; cases c; cases d)
    (auto simp: f_le_inf f_le_def [of PInf] f_le_def [of "Fin _" NInf] round_f64_mono)

lemma f_add_Fin_not_NaN: "a \<noteq> NaN \<Longrightarrow> f_add a (Fin c) \<noteq> NaN"
  by (cases a) auto

lemma f_add_Fin_mono: "f_le a b \<Longrightarrow> f_le (f_add a (Fin c)) (f_add b (Fin c))"
  by (rule f_add_mono) (auto simp: f_le_def f_add_Fin_not_NaN)

lemma f_sub_Fin_mono: "f_le a b \<Longrightarrow> f_le (f_sub a (Fin c)) (f_sub b (Fin c))"
  by (simp add: f_sub_def f_add_Fin_mono)

lemma f_mul_Fin_mono: "f_le a b \<Longrightarrow> 0 < c \<Longrightarrow> f_le (f_mul a (Fin c)) (f_mul b (Fin c))"
  by (cases a; cases b)
    (auto simp: f_le_inf f_le_def [of PInf] f_le_def [of "Fin _" NInf] signed_inf_def
      intro!: round_f64_mono mult_right_mono)

lemma f_div_Fin_mono: "f_le a b \<Longrightarrow> 0 < c \<Longrightarrow> f_le (f_div a (Fin c)) (f_div b (Fin c))"
  by (cases a; cases b)
    (auto simp: f_le_inf f_le_def [of PInf] f_le_def [of "Fin _" NInf] signed_inf_def
      intro!: round_f64_mono divide_right_mono)

lemma f_max_mono: "f_le a b \<Longrightarrow> f_le (f_max a (Fin c)) (f_max b (Fin c))"
  by (cases a; cases b) (auto simp: f_max_def f_le_def)

lemma round_const_Fin:
  assumes "0 \<le> q" and "q \<le> 1"
  shows "\<exists>r. round_f64 q = Fin r \<and> 0 \<le> r \<and> r \<le> 2 \<and> (1 / 1000 \<le> q \<longrightarrow> 0 < r)"
proof -
  have "(1::rat) \<le> pow2 1000" using pow2_mono [of 0 1000] by (simp add: pow2_def [of 0])
  then have q: "q \<le> pow2 1000" using assms(2) by linarith
  have "pow2 (- 1000) \<le> pow2 (- 10)" by (rule pow2_mono) simp
  then have t: "pow2 (- 1000) \<le> (1 / 1000 :: rat)" by (simp add: pow2_def [of "- 10"])
  obtain r where "round_f64 q = Fin r" "0 \<le> r" "r \<le> 2 * q" "pow2 (- 1000) \<le> q \<Longrightarrow> q / 2 \<le> r"
    using round_f64_finite [OF assms(1) q] by metis
  then show ?thesis using assms t by (intro exI [of _ r]) auto
qed

section \<open>Values of bounded magnitude\<close>

definition f_bounded :: "nat \<Rightarrow> f64 \<Rightarrow> bool" where
  "f_bounded n a \<longleftrightarrow> (\<exists>r. a = Fin r \<and> \<bar>r\<bar> \<le> 2 ^ n)"

lemma f_bounded_Fin [simp]: "f_bounded n (Fin r) \<longleftrightarrow> \<bar>r\<bar> \<le> 2 ^ n"
  by (simp add: f_bounded_def)

lemma f_bounded_mono: "f_bounded n a \<Longrightarrow> n \<le> m \<Longrightarrow> f_bounded m a"
  unfolding f_bounded_def
  using order_trans [OF _ power_increasing [of n m "2 :: rat"]] by fastforce

lemma round_f64_bounded:
  assumes "\<bar>q\<bar> \<le> 2 ^ n" and "n \<le> 1000"
  shows "f_bounded (Suc n) (round_f64 q)"
proof -
  have "(2::rat) ^ n \<le> pow2 1000"
    using pow2_mono [of "int n" 1000] assms(2) by (simp add: pow2_def [of "int n"])
  then have q: "\<bar>q\<bar> \<le> pow2 1000" using assms(1) by linarith
  obtain r where r: "round_f64 \<bar>q\<bar> = Fin r" "0 \<le> r" "r \<le> 2 * \<bar>q\<bar>"
    using round_f64_finite [OF abs_ge_zero q] by metis
  have "round_f64 q = Fin (if q < 0 then - r else r)"
    using r(1) by (auto simp: round_f64_def Let_def split: if_splits)
  then show ?thesis using r(2,3) assms(1) by auto
qed

lemma f_add_bounded:
  assumes "f_bounded n a" and "f_bounded n b" and "n < 1000"
  shows "f_bounded (n + 2) (f_add a b)"
proof -
  obtain x y where ab: "a = Fin x" "b = Fin y" "\<bar>x\<bar> \<le> 2 ^ n" "\<bar>y\<bar> \<le> 2 ^ n"
    using assms(1,2) unfolding f_bounded_def by blast
  then have "\<bar>x + y\<bar> \<le> 2 ^ Suc n" by simp
  then show ?thesis using round_f64_bounded [of "x + y" "Suc n"] ab assms(3) by simp
qed

lemma f_neg_bounded [simp]: "f_bounded n (f_neg a) = f_bounded n a"
  by (cases a) (auto simp: f_bounded_def)

lemma f_sub_bounded:
  "f_bounded n a \<Longrightarrow> f_bounded n b \<Longrightarrow> n < 1000 \<Longrightarrow> f_bounded (n + 2) (f_sub a b)"
  unfolding f_sub_def by (rule f_add_bounded) simp_all

lemma f_mul_bounded:
  assumes "f_bounded n a" and "f_bounded m b" and "n + m \<le> 1000"
  shows "f_bounded (n + m + 1) (f_mul a b)"
proof -
  obtain x y where ab: "a = Fin x" "b = Fin y" "\<bar>x\<bar> \<le> 2 ^ n" "\<bar>y\<bar> \<le> 2 ^ m"
    using assms(1,2) unfolding f_bounded_def by blast
  then have "\<bar>x * y\<bar> \<le> 2 ^ (n + m)"
    by (simp add: abs_mult power_add mult_mono)
  then show ?thesis using round_f64_bounded [of "x * y" "n + m"] ab assms(3) by simp
qed

lemma f_div_bounded:
  assumes "f_bounded n a" and "1 / 2 ^ m \<le> y" and "n + m \<le> 1000"
  shows "f_bounded (n + m + 1) (f_div a (Fin y))"
proof -
  obtain x where a: "a = Fin x" "\<bar>x\<bar> \<le> 2 ^ n"
    using assms(1) unfolding f_bounded_def by blast
  have y: "0 < y" by (rule less_le_trans [OF _ assms(2)]) simp
  have "\<bar>x / y\<bar> \<le> 2 ^ n / (1 / 2 ^ m)"
    unfolding abs_divide using a(2) y assms(2) by (intro frac_le) auto
  then have "\<bar>x / y\<bar> \<le> 2 ^ (n + m)" by (simp add: power_add)
  then show ?thesis using round_f64_bounded [of "x / y" "n + m"] a y assms(3) by simp
qed

lemma f_max_zero_bounded: "f_bounded n a \<Longrightarrow> \<exists>r. f_max a (Fin 0) = Fin r \<and> 0 \<le> r"
  by (cases a) (auto simp: f_max_def f_bounded_def)

lemma round_const_bounded: "0 \<le> q \<Longrightarrow> q \<le> 1 \<Longrightarrow> f_bounded 1 (round_f64 q)"
  using round_f64_bounded [of q 0] by simp

end
