(* ===== verification/MachineClass.thy ===== *)
theory MachineClass
  imports VMSize Float64
begin

text \<open>
  \<open>internal/managers/machineclass_mapper.go\<close>: the cache of MachineClass resources, the ranking
  of VM sizes for a MachineClass, and the static fallback table.
\<close>

section \<open>The cache\<close>

definition newMachineClassCache :: "time \<Rightarrow> machine_class_cache" where
  "newMachineClassCache ttl = \<lparr>clc_data = [], clc_expiry = 0, clc_ttl = ttl\<rparr>"

definition classes_by_name :: "machine_class list \<Rightarrow> (string \<times> machine_class) list" where
  "classes_by_name classes =
     fold (\<lambda>(name, mc). AList.update name mc) (map (\<lambda>mc. (mcl_Name mc, mc)) classes) []"

definition machineClassCache_lookup ::
  "machine_class_cache \<Rightarrow> time \<Rightarrow> unit \<Rightarrow> (string \<times> machine_class) list option" where
  "machineClassCache_lookup c now u = (if clc_expiry c < now then None else Some (clc_data c))"

definition machineClassCache_store ::
  "machine_class_cache \<Rightarrow> time \<Rightarrow> unit \<Rightarrow> machine_class list \<Rightarrow> machine_class_cache" where
  "machineClassCache_store c now u classes =
     c\<lparr>clc_data := classes_by_name classes, clc_expiry := now + clc_ttl c\<rparr>"

interpretation class_ttl: ttl_cache machineClassCache_lookup machineClassCache_store clc_ttl classes_by_name
  by unfold_locales
    (auto simp: machineClassCache_lookup_def machineClassCache_store_def split: if_splits)

definition machineClassCache_get :: "'w runtime \<Rightarrow> string \<Rightarrow> ('w, machine_class option) go" where
  "machineClassCache_get R name =
     do {
       now \<leftarrow> time_Now R;
       c \<leftarrow> gets class_cache;
       ret (case machineClassCache_lookup c now () of
              None \<Rightarrow> None
            | Some data \<Rightarrow> map_of data name)
     }"

definition machineClassCache_getAll ::
  "'w runtime \<Rightarrow> ('w, (string \<times> machine_class) list option) go" where
  "machineClassCache_getAll R =
     do {
       now \<leftarrow> time_Now R;
       c \<leftarrow> gets class_cache;
       ret (case machineClassCache_lookup c now () of
              None \<Rightarrow> None
            | Some data \<Rightarrow> if data = [] then None else Some data)
     }"

definition machineClassCache_set :: "'w runtime \<Rightarrow> machine_class list \<Rightarrow> ('w, unit) go" where
  "machineClassCache_set R classes =
     do {
       now \<leftarrow> time_Now R;
       c \<leftarrow> gets class_cache;
       put_class_cache (machineClassCache_store c now () classes)
     }"

section \<open>Listing and finding classes\<close>

definition ListMachineClasses ::
  "'w runtime \<Rightarrow> 'w kube_client \<Rightarrow> ('w, go_error + machine_class list) go" where
  "ListMachineClasses R K =
     do {
       cached \<leftarrow> machineClassCache_getAll R;
       (case cached of
          Some data \<Rightarrow>
            do {
              ks \<leftarrow> range_keys R (map fst data);
              ret (Inr (filter mcl_Enabled (List.map_filter (map_of data) ks)))
            }
        | None \<Rightarrow>
            do {
              r \<leftarrow> call (\<lambda>r. KubeListMachineClasses (sum_error r)) (kube_ListMachineClasses K);
              (case r of
                 Inl err \<Rightarrow> ret (Inl (wrap_error ''failed to list MachineClasses'' err))
               | Inr allClasses \<Rightarrow>
                   do {
                     machineClassCache_set R allClasses;
                     ret (Inr (filter mcl_Enabled allClasses))
                   })
            })
     }"

definition GetMachineClass ::
  "'w runtime \<Rightarrow> 'w kube_client \<Rightarrow> string \<Rightarrow> ('w, go_error + machine_class) go" where
  "GetMachineClass R K name =
     do {
       first \<leftarrow> machineClassCache_get R name;
       (case first of
          Some mc \<Rightarrow> ret (Inr mc)
        | None \<Rightarrow>
            do {
              r \<leftarrow> ListMachineClasses R K;
              (case r of
                 Inl err \<Rightarrow> ret (Inl err)
               | Inr _ \<Rightarrow>
                   do {
                     again \<leftarrow> machineClassCache_get R name;
                     ret (case again of
                            Some mc \<Rightarrow> Inr mc
                          | None \<Rightarrow> Inl (new_error (''MachineClass '' @ name @ '' not found'')))
                   })
            })
     }"

definition GetDefaultPurposeForCategory :: "string \<Rightarrow> vm_purpose" where
  "GetDefaultPurposeForCategory category =
     (let c = ToLower category in
      if c = ''cpu'' \<or> c = ''compute'' then VMPurposeComputeOptimized
      else if c = ''memory'' then VMPurposeMemoryOptimized
      else if c = ''gpu'' then VMPurposeGPU
      else if c = ''storage'' then VMPurposeStorageOptimized
      else if c = ''burstable'' then VMPurposeBurstable
      else if c = ''standard'' \<or> c = ''general'' then VMPurposeGeneralPurpose
      else VMPurposeGeneralPurpose)"

section \<open>Ranking VM sizes\<close>

definition vmSizeMatchesPurpose :: "string \<Rightarrow> vm_purpose \<Rightarrow> bool \<Rightarrow> bool" where
  "vmSizeMatchesPurpose vmSizeName purpose hasGPU =
     (let name = ToUpper vmSizeName in
      if hasGPU then Contains name ''STANDARD_N'' \<or> Contains name ''_GPU''
      else if purpose = VMPurposeGeneralPurpose
      then (HasPrefix name ''STANDARD_D'' \<and> \<not> Contains name ''_DC'' \<and> \<not> Contains name ''_ND'') \<or>
           HasPrefix name ''STANDARD_A''
      else if purpose = VMPurposeComputeOptimized then HasPrefix name ''STANDARD_F''
      else if purpose = VMPurposeMemoryOptimized
      then HasPrefix name ''STANDARD_E'' \<or> HasPrefix name ''STANDARD_M''
      else if purpose = VMPurposeGPU then HasPrefix name ''STANDARD_N''
      else if purpose = VMPurposeBurstable then HasPrefix name ''STANDARD_B''
      else if purpose = VMPurposeStorageOptimized then HasPrefix name ''STANDARD_L''
      else HasPrefix name ''STANDARD_D'' \<or> HasPrefix name ''STANDARD_A'')"

text \<open>The bonuses and penalties read off the VM size's name, in the order the code applies them.\<close>

definition name_adjustments :: "string \<Rightarrow> f64 \<Rightarrow> f64" where
  "name_adjustments vmSizeName score0 =
     (let score1 =
            (if Contains vmSizeName ''_v5'' then f_sub score0 (round_f64 (15 / 100))
             else if Contains vmSizeName ''_v4'' then f_sub score0 (round_f64 (10 / 100))
             else if Contains vmSizeName ''_v3'' then f_sub score0 (round_f64 (5 / 100))
             else if Contains vmSizeName ''_v2'' then f_sub score0 (round_f64 (2 / 100))
             else score0);
          score2 =
            (if Contains vmSizeName ''s_'' \<or> HasSuffix vmSizeName ''s''
             then f_sub score1 (round_f64 (5 / 100)) else score1);
          score3 =
            (if Contains (ToLower vmSizeName) ''promo''
             then f_add score2 (round_f64 (3 / 10)) else score2);
          score4 =
            (if HasPrefix vmSizeName ''Standard_A'' \<and> \<not> Contains vmSizeName ''_v''
             then f_add score3 (round_f64 (5 / 10)) else score3)
      in f_max score4 (Fin 0))"

definition calculateScore :: "go_int \<Rightarrow> f64 \<Rightarrow> go_int \<Rightarrow> f64 \<Rightarrow> string \<Rightarrow> f64" where
  "calculateScore requiredCores requiredMemoryGB vmCores vmMemoryGB vmSizeName =
     (let coreExcess = f_div (f64_of_int (sint (vmCores - requiredCores))) (f64_of_int (sint requiredCores));
          memExcess = f_div (f_sub vmMemoryGB requiredMemoryGB) requiredMemoryGB;
          score = f_add (f_mul coreExcess (round_f64 (4 / 10))) (f_mul memExcess (round_f64 (4 / 10)))
      in name_adjustments vmSizeName score)"

record scored_vm =
  sv_size :: vm_size
  sv_score :: f64

definition score_less :: "scored_vm \<Rightarrow> scored_vm \<Rightarrow> bool" where
  "score_less a b = f_lt (sv_score a) (sv_score b)"

text \<open>The loop body: \<open>None\<close> is \<open>continue\<close>.\<close>

definition vm_memory_gb :: "go_int32 \<Rightarrow> f64" where
  "vm_memory_gb mb = f_div (f64_of_int (sint mb)) (Fin 1024)"

definition score_candidate :: "go_int \<Rightarrow> f64 \<Rightarrow> vm_purpose \<Rightarrow> bool \<Rightarrow> vm_size \<Rightarrow> scored_vm option" where
  "score_candidate requiredCores requiredMemoryGB purpose hasGPU vm =
     (case (vs_Name vm, vs_NumberOfCores vm, vs_MemoryInMB vm) of
        (Some name, Some cores, Some mb) \<Rightarrow>
          if \<not> vmSizeMatchesPurpose name purpose hasGPU then None
          else
            (let vmCores = scast cores; vmMemoryGB = vm_memory_gb mb in
             if vmCores <s requiredCores \<or> f_lt vmMemoryGB requiredMemoryGB then None
             else Some \<lparr>sv_size = vm,
                        sv_score = calculateScore requiredCores requiredMemoryGB vmCores vmMemoryGB name\<rparr>)
      | _ \<Rightarrow> None)"

section \<open>The static fallback table\<close>

record static_def =
  sd_generalPurpose :: string
  sd_computeOptimized :: string
  sd_memoryOptimized :: string
  sd_cores :: go_int
  sd_memoryGB :: f64

definition static_medium :: static_def where
  "static_medium =
     \<lparr>sd_generalPurpose = vmSizeStandardD4sV5, sd_computeOptimized = vmSizeStandardF4sV2,
      sd_memoryOptimized = vmSizeStandardE4sV5, sd_cores = 4, sd_memoryGB = Fin 16\<rparr>"

definition staticMappings :: "(string \<times> static_def) list" where
  "staticMappings =
     [(machineClassSmall,
       \<lparr>sd_generalPurpose = vmSizeStandardD2sV5, sd_computeOptimized = vmSizeStandardF2sV2,
        sd_memoryOptimized = vmSizeStandardE2sV5, sd_cores = 2, sd_memoryGB = Fin 8\<rparr>),
      (machineClassMedium, static_medium),
      (machineClassLarge,
       \<lparr>sd_generalPurpose = vmSizeStandardD8sV5, sd_computeOptimized = vmSizeStandardF8sV2,
        sd_memoryOptimized = vmSizeStandardE8sV5, sd_cores = 8, sd_memoryGB = Fin 32\<rparr>),
      (machineClassXLarge,
       \<lparr>sd_generalPurpose = vmSizeStandardD16sV5, sd_computeOptimized = vmSizeStandardF16sV2,
        sd_memoryOptimized = vmSizeStandardE16sV5, sd_cores = 16, sd_memoryGB = Fin 64\<rparr>),
      (machineClassLargeCPU,
       \<lparr>sd_generalPurpose = vmSizeStandardF8sV2, sd_computeOptimized = vmSizeStandardF8sV2,
        sd_memoryOptimized = vmSizeStandardF8sV2, sd_cores = 8, sd_memoryGB = Fin 16\<rparr>),
      (machineClassLargeMemory,
       \<lparr>sd_generalPurpose = vmSizeStandardE8sV5, sd_computeOptimized = vmSizeStandardE8sV5,
        sd_memoryOptimized = vmSizeStandardE8sV5, sd_cores = 8, sd_memoryGB = Fin 64\<rparr>),
      (''gpu'',
       \<lparr>sd_generalPurpose = vmSizeStandardNC6sV3, sd_computeOptimized = vmSizeStandardNC6sV3,
        sd_memoryOptimized = vmSizeStandardNC6sV3, sd_cores = 6, sd_memoryGB = Fin 112\<rparr>)]"

text \<open>\<open>interfaces.MachineClassMapping\<close>.\<close>

record machine_class_mapping =
  mm_MachineClassName :: string
  mm_VMSize :: string
  mm_VMPurpose :: vm_purpose
  mm_Cores :: go_int
  mm_MemoryGB :: f64
  mm_GPUCores :: go_int
  mm_Score :: f64
  mm_Alternatives :: "string list"

definition staticMapping :: "string \<Rightarrow> vm_purpose \<Rightarrow> machine_class_mapping" where
  "staticMapping machineClassName purpose =
     (let name = ToLower machineClassName;
          d = (case map_of staticMappings name of Some d \<Rightarrow> d | None \<Rightarrow> static_medium);
          vmSize1 =
            (if purpose = VMPurposeComputeOptimized then sd_computeOptimized d
             else if purpose = VMPurposeMemoryOptimized then sd_memoryOptimized d
             else if purpose = VMPurposeGPU
             then (if name = ''gpu'' then sd_generalPurpose d else vmSizeStandardNC6sV3)
             else sd_generalPurpose d);
          vmSize2 = (if HasPrefix machineClassName ''Standard_'' then machineClassName else vmSize1)
      in \<lparr>mm_MachineClassName = machineClassName, mm_VMSize = vmSize2, mm_VMPurpose = purpose,
          mm_Cores = sd_cores d, mm_MemoryGB = sd_memoryGB d, mm_GPUCores = 0, mm_Score = Fin 0,
          mm_Alternatives = []\<rparr>)"

section \<open>Mapping a class to a size\<close>

text \<open>
  \<open>MachineClassMapperImpl\<close>: the Kubernetes client, the VM-size manager and, standing for
  \<open>sort.Slice\<close> at the one type it is used at, the sorting function.
\<close>

record 'w mapper_impl =
  mpr_client :: "'w kube_client"
  mpr_vmSizeManager :: "'w vm_size_manager"
  mpr_sort :: "scored_vm list \<Rightarrow> scored_vm list"

definition the_name :: "vm_size \<Rightarrow> string" where
  "the_name vm = (case vs_Name vm of Some n \<Rightarrow> n | None \<Rightarrow> [])"

definition the_int32 :: "go_int32 option \<Rightarrow> go_int32" where
  "the_int32 x = (case x of Some v \<Rightarrow> v | None \<Rightarrow> 0)"

definition candidate_mapping ::
  "machine_class \<Rightarrow> vm_purpose \<Rightarrow> scored_vm list \<Rightarrow> machine_class_mapping" where
  "candidate_mapping machineClass purpose ranked =
     (case ranked of
        [] \<Rightarrow> staticMapping (mcl_Name machineClass) purpose
      | best # others \<Rightarrow>
          \<lparr>mm_MachineClassName = mcl_Name machineClass,
           mm_VMSize = the_name (sv_size best),
           mm_VMPurpose = purpose,
           mm_Cores = scast (the_int32 (vs_NumberOfCores (sv_size best))),
           mm_MemoryGB = vm_memory_gb (the_int32 (vs_MemoryInMB (sv_size best))),
           mm_GPUCores = (if 0 < mcl_GPUCores machineClass then safeUintToInt (mcl_GPUCores machineClass) else 0),
           mm_Score = sv_score best,
           mm_Alternatives = map (\<lambda>c. the_name (sv_size c)) (take 3 others)\<rparr>)"

definition required_cores :: "machine_class \<Rightarrow> go_int" where
  "required_cores machineClass = safeUintToInt (mcl_CPUCores machineClass)"

definition required_memory_gb :: "machine_class \<Rightarrow> f64" where
  "required_memory_gb machineClass =
     f_div (f64_of_int (sint (mcl_MemoryValue machineClass))) (Fin (1024 * 1024 * 1024))"

definition chosen_purpose :: "machine_class \<Rightarrow> vm_purpose \<Rightarrow> vm_purpose" where
  "chosen_purpose machineClass preferredPurpose =
     (if preferredPurpose = [] then GetDefaultPurposeForCategory (mcl_Category machineClass)
      else preferredPurpose)"

text \<open>The slice of candidates before it is sorted.\<close>

definition vm_candidates :: "machine_class \<Rightarrow> vm_purpose \<Rightarrow> vm_size list \<Rightarrow> scored_vm list" where
  "vm_candidates machineClass purpose vmSizes =
     List.map_filter
       (score_candidate (required_cores machineClass) (required_memory_gb machineClass) purpose
          (0 < mcl_GPUCores machineClass)) vmSizes"

definition MapMachineClassSpecToVMSize ::
  "'w mapper_impl \<Rightarrow> machine_class \<Rightarrow> string \<Rightarrow> vm_purpose \<Rightarrow> ('w, go_error + machine_class_mapping) go" where
  "MapMachineClassSpecToVMSize M machineClass location preferredPurpose =
     do {
       r \<leftarrow> vsm_ListVMSizes (mpr_vmSizeManager M) location;
       (case r of
          Inl err \<Rightarrow> ret (Inl (wrap_error ''failed to list VM sizes'' err))
        | Inr vmSizes \<Rightarrow>
            (let purpose = chosen_purpose machineClass preferredPurpose;
                 candidates = vm_candidates machineClass purpose vmSizes
             in if candidates = [] then ret (Inr (staticMapping (mcl_Name machineClass) purpose))
                else ret (Inr (candidate_mapping machineClass purpose (mpr_sort M candidates)))))
     }"

definition MapMachineClassToVMSize ::
  "'w runtime \<Rightarrow> 'w mapper_impl \<Rightarrow> string \<Rightarrow> string \<Rightarrow> vm_purpose \<Rightarrow> ('w, go_error + machine_class_mapping) go" where
  "MapMachineClassToVMSize R M machineClassName location preferredPurpose =
     do {
       r \<leftarrow> GetMachineClass R (mpr_client M) machineClassName;
       (case r of
          Inl _ \<Rightarrow> ret (Inr (staticMapping machineClassName preferredPurpose))
        | Inr machineClass \<Rightarrow> MapMachineClassSpecToVMSize M machineClass location preferredPurpose)
     }"

definition ValidateMapping ::
  "'w runtime \<Rightarrow> 'w mapper_impl \<Rightarrow> string \<Rightarrow> string \<Rightarrow> ('w, go_error + bool) go" where
  "ValidateMapping R M machineClassName location =
     do {
       r \<leftarrow> MapMachineClassToVMSize R M machineClassName location [];
       (case r of
          Inl err \<Rightarrow> ret (Inl err)
        | Inr mapping \<Rightarrow> vsm_ValidateVMSize (mpr_vmSizeManager M) location (mm_VMSize mapping))
     }"

text \<open>The interface \<open>MachineClassMapper\<close>, and the mapper as its implementation.\<close>

record 'w machine_class_mapper =
  mcm_MapMachineClassToVMSize ::
    "string \<Rightarrow> string \<Rightarrow> vm_purpose \<Rightarrow> ('w, go_error + machine_class_mapping) go"
  mcm_MapMachineClassSpecToVMSize ::
    "machine_class \<Rightarrow> string \<Rightarrow> vm_purpose \<Rightarrow> ('w, go_error + machine_class_mapping) go"
  mcm_GetMachineClass :: "string \<Rightarrow> ('w, go_error + machine_class) go"
  mcm_ListMachineClasses :: "('w, go_error + machine_class list) go"
  mcm_GetDefaultPurposeForCategory :: "string \<Rightarrow> vm_purpose"
  mcm_ValidateMapping :: "string \<Rightarrow> string \<Rightarrow> ('w, go_error + bool) go"

definition NewMachineClassMapper :: "'w runtime \<Rightarrow> 'w mapper_impl \<Rightarrow> 'w machine_class_mapper" where
  "NewMachineClassMapper R M =
     \<lparr>mcm_MapMachineClassToVMSize = MapMachineClassToVMSize R M,
      mcm_MapMachineClassSpecToVMSize = MapMachineClassSpecToVMSize M,
      mcm_GetMachineClass = GetMachineClass R (mpr_client M),
      mcm_ListMachineClasses = ListMachineClasses R (mpr_client M),
      mcm_GetDefaultPurposeForCategory = GetDefaultPurposeForCategory,
      mcm_ValidateMapping = ValidateMapping R M\<rparr>"

section \<open>The ranking\<close>

text \<open>
  The specification of the filter, on integers: the size has a name, cores and memory, its name
  matches the purpose, and it has at least the cores and the bytes the class asks for.
\<close>

definition vm_fits :: "machine_class \<Rightarrow> vm_purpose \<Rightarrow> vm_size \<Rightarrow> bool" where
  "vm_fits machineClass purpose vm \<longleftrightarrow>
     (case (vs_Name vm, vs_NumberOfCores vm, vs_MemoryInMB vm) of
        (Some name, Some cores, Some mb) \<Rightarrow>
          vmSizeMatchesPurpose name purpose (0 < mcl_GPUCores machineClass) \<and>
          uint (mcl_CPUCores machineClass) \<le> sint cores \<and>
          sint (mcl_MemoryValue machineClass) \<le> sint mb * 2 ^ 20
      | _ \<Rightarrow> False)"

definition vm_score :: "machine_class \<Rightarrow> vm_size \<Rightarrow> f64" where
  "vm_score machineClass vm =
     calculateScore (required_cores machineClass) (required_memory_gb machineClass)
       (scast (the_int32 (vs_NumberOfCores vm))) (vm_memory_gb (the_int32 (vs_MemoryInMB vm)))
       (the_name vm)"

lemma sint32_bounds: "- (2 ^ 31) \<le> sint (x :: go_int32)" "sint (x :: go_int32) < 2 ^ 31"
  using sint_ge [of x] sint_lt [of x] by simp_all

lemma sint_scast_64 [simp]: "sint (scast (x :: go_int32) :: go_int) = sint x"
  by (simp add: sint_up_scast is_up)

lemma vm_memory_gb_exact: "vm_memory_gb mb = Fin (of_int (sint mb) / 1024)"
proof -
  have m: "\<bar>sint mb\<bar> < 2 ^ 53" using sint32_bounds [of mb] by simp
  then show ?thesis
    using round_f64_exact [of "sint mb" "- 10"]
    by (simp add: vm_memory_gb_def f64_of_int_exact pow2_def)
qed

text \<open>
  The floating-point memory comparison is exact: the rounding of the required bytes never moves
  them across a VM size's memory.
\<close>

lemma gb_exact: "\<bar>n\<bar> < 2 ^ 53 \<Longrightarrow> f_div (f64_of_int n) (Fin 1073741824) = Fin (of_int n / 1073741824)"
  using round_f64_exact [of n "- 30"] by (simp add: f64_of_int_exact pow2_def)

lemma gb_mono:
  "m \<le> n \<Longrightarrow> f_le (f_div (f64_of_int m) (Fin 1073741824)) (f_div (f64_of_int n) (Fin 1073741824))"
  by (intro f_div_Fin_mono) (simp_all add: f64_of_int_def round_f64_mono)

lemma memory_test_exact:
  "f_lt (vm_memory_gb mb) (required_memory_gb mc) \<longleftrightarrow> sint mb * 2 ^ 20 < sint (mcl_MemoryValue mc)"
    (is "?lt \<longleftrightarrow> ?n < ?v")
proof -
  have n: "\<bar>?n\<bar> < 2 ^ 53" "\<bar>?n + 1\<bar> < 2 ^ 53" using sint32_bounds [of mb] by simp_all
  have g: "vm_memory_gb mb = f_div (f64_of_int ?n) (Fin 1073741824)"
    unfolding gb_exact [OF n(1)] by (simp add: vm_memory_gb_exact)
  have r: "required_memory_gb mc = f_div (f64_of_int ?v) (Fin 1073741824)"
    by (simp add: required_memory_gb_def)
  show ?thesis
  proof
    assume ?lt
    then show "?n < ?v" using gb_mono [of ?v ?n] g r by (force simp: f_le_def)
  next
    assume "?n < ?v"
    then have "f_le (Fin (of_int (?n + 1) / 1073741824)) (required_memory_gb mc)"
      using gb_mono [of "?n + 1" ?v] unfolding r gb_exact [OF n(2), symmetric] by simp
    then have "f_le (Fin (of_int (?n + 1) / 1073741824)) (required_memory_gb mc)" .
    moreover have "f_lt (vm_memory_gb mb) (Fin (of_int (?n + 1) / 1073741824))"
      unfolding g gb_exact [OF n(1)] by (simp add: divide_strict_right_mono)
    ultimately show ?lt
      using f_lt_negtrans unfolding f_le_def by blast
  qed
qed

lemma core_test_exact:
  "scast cores <s required_cores mc \<longleftrightarrow> sint cores < uint (mcl_CPUCores mc)" for cores :: go_int32
  using sint32_bounds [of cores]
  by (auto simp: word_sless_alt required_cores_def sint_safeUintToInt)

lemma score_candidate_eq:
  "score_candidate (required_cores mc) (required_memory_gb mc) purpose (0 < mcl_GPUCores mc) vm =
     (if vm_fits mc purpose vm then Some \<lparr>sv_size = vm, sv_score = vm_score mc vm\<rparr> else None)"
  by (auto simp: score_candidate_def vm_fits_def vm_score_def the_name_def the_int32_def Let_def
      memory_test_exact core_test_exact split: option.splits)

lemma vm_candidates_eq:
  "vm_candidates mc purpose vmSizes =
     map (\<lambda>vm. \<lparr>sv_size = vm, sv_score = vm_score mc vm\<rparr>) (filter (vm_fits mc purpose) vmSizes)"
  unfolding vm_candidates_def score_candidate_eq
  by (induction vmSizes) (simp_all add: map_filter_simps)

lemma required_memory_bounds:
  assumes "0 < sint (mcl_MemoryValue mc)"
    and "sint (mcl_MemoryValue mc) \<le> sint (mb :: go_int32) * 2 ^ 20"
  shows "\<exists>w. required_memory_gb mc = Fin w \<and> 1 / 2 ^ 30 \<le> w \<and> w \<le> of_int (sint mb) / 1024"
proof -
  let ?v = "sint (mcl_MemoryValue mc)" and ?n = "sint mb * 2 ^ 20"
  have n: "\<bar>?n\<bar> < 2 ^ 53" "\<bar>1 :: int\<bar> < 2 ^ 53" using sint32_bounds [of mb] by simp_all
  have r: "required_memory_gb mc = f_div (f64_of_int ?v) (Fin 1073741824)"
    by (simp add: required_memory_gb_def)
  have lo: "f_le (Fin (1 / 1073741824)) (required_memory_gb mc)"
    using gb_mono [of 1 ?v] gb_exact [OF n(2)] assms(1) unfolding r by simp
  have hi: "f_le (required_memory_gb mc) (Fin (of_int ?n / 1073741824))"
    using gb_mono [of ?v ?n] assms(2) unfolding gb_exact [OF n(1)] r by simp
  show ?thesis
    using lo hi by (cases "required_memory_gb mc") (auto simp: f_le_def)
qed

lemma core_excess_exact:
  assumes "uint (mcl_CPUCores mc) \<le> sint (cores :: go_int32)"
  shows "f64_of_int (sint (required_cores mc)) = Fin (of_int (uint (mcl_CPUCores mc)))"
    and "f64_of_int (sint (scast cores - required_cores mc)) =
           Fin (of_int (sint cores - uint (mcl_CPUCores mc)))"
proof -
  define r where "r = uint (mcl_CPUCores mc)"
  have b: "0 \<le> r" "r \<le> sint cores" "sint cores < 2 ^ 31"
    using assms sint32_bounds [of cores] by (simp_all add: r_def)
  then have s: "sint (required_cores mc) = r"
    by (simp add: required_cores_def sint_safeUintToInt r_def)
  show "f64_of_int (sint (required_cores mc)) = Fin (of_int (uint (mcl_CPUCores mc)))"
    unfolding s r_def [symmetric] using b by (intro f64_of_int_exact) (simp add: abs_less_iff)
  have "sint (scast cores - required_cores mc) =
      signed_take_bit 63 (sint (scast cores :: go_int) - sint (required_cores mc))"
    by (simp add: sint_word_ariths(2))
  also have "\<dots> = sint cores - r"
    unfolding s using b by (simp add: signed_take_bit_int_eq_self_iff)
  finally have d: "sint (scast cores - required_cores mc) = sint cores - r" .
  show "f64_of_int (sint (scast cores - required_cores mc)) =
      Fin (of_int (sint cores - uint (mcl_CPUCores mc)))"
    unfolding d r_def [symmetric] using b by (intro f64_of_int_exact) (simp add: abs_less_iff)
qed

lemma name_adjustments_bounded:
  assumes "f_bounded n a" and "1 \<le> n" and "n < 900"
  shows "\<exists>r. name_adjustments name a = Fin r \<and> 0 \<le> r"
proof -
  have c: "f_bounded k (round_f64 q)" if "0 \<le> q" "q \<le> 1" "1 \<le> k" for q k
    by (rule f_bounded_mono [OF round_const_bounded [OF that(1,2)] that(3)])
  have sub: "f_bounded (k + 2) (f_sub b (round_f64 q))"
    if "f_bounded k b" "0 \<le> q" "q \<le> 1" "1 \<le> k" "k < 1000" for k q b
    using that c by (intro f_sub_bounded) simp_all
  have add: "f_bounded (k + 2) (f_add b (round_f64 q))"
    if "f_bounded k b" "0 \<le> q" "q \<le> 1" "1 \<le> k" "k < 1000" for k q b
    using that c by (intro f_add_bounded) simp_all
  have up: "f_bounded (k + 2) b" if "f_bounded k b" for k b
    using that by (rule f_bounded_mono) simp
  have s1: "f_bounded (n + 2)
      (if p1 then f_sub a (round_f64 (15 / 100)) else if p2 then f_sub a (round_f64 (10 / 100))
       else if p3 then f_sub a (round_f64 (5 / 100)) else if p4 then f_sub a (round_f64 (2 / 100)) else a)"
    for p1 p2 p3 p4
    using assms sub [OF assms(1), of "15 / 100"] sub [OF assms(1), of "10 / 100"]
      sub [OF assms(1), of "5 / 100"] sub [OF assms(1), of "2 / 100"] up [OF assms(1)] by simp
  have s2: "f_bounded (n + 2 + 2) (if p then f_sub b (round_f64 (5 / 100)) else b)"
    if "f_bounded (n + 2) b" for p b
    using assms that sub [OF that, of "5 / 100"] up [OF that] by simp
  have s3: "f_bounded (n + 2 + 2 + 2) (if p then f_add b (round_f64 (3 / 10)) else b)"
    if "f_bounded (n + 2 + 2) b" for p b
    using assms that add [OF that, of "3 / 10"] up [OF that] by simp
  have s4: "f_bounded (n + 2 + 2 + 2 + 2) (if p then f_add b (round_f64 (5 / 10)) else b)"
    if "f_bounded (n + 2 + 2 + 2) b" for p b
    using assms that add [OF that, of "5 / 10"] up [OF that] by simp
  show ?thesis
    unfolding name_adjustments_def Let_def
    by (rule f_max_zero_bounded, rule s4, rule s3, rule s2, rule s1)
qed

definition core_term :: "machine_class \<Rightarrow> vm_size \<Rightarrow> f64" where
  "core_term mc vm =
     f_mul (f_div (f64_of_int (sint (scast (the_int32 (vs_NumberOfCores vm)) - required_cores mc)))
              (f64_of_int (sint (required_cores mc))))
       (round_f64 (4 / 10))"

definition mem_term :: "machine_class \<Rightarrow> vm_size \<Rightarrow> f64" where
  "mem_term mc vm =
     f_mul (f_div (f_sub (vm_memory_gb (the_int32 (vs_MemoryInMB vm))) (required_memory_gb mc))
              (required_memory_gb mc))
       (round_f64 (4 / 10))"

lemma vm_score_terms:
  "vm_score mc vm = name_adjustments (the_name vm) (f_add (core_term mc vm) (mem_term mc vm))"
  by (simp add: vm_score_def calculateScore_def core_term_def mem_term_def Let_def)

lemma vm_fits_resources:
  assumes "vm_fits mc purpose vm"
  shows "uint (mcl_CPUCores mc) \<le> sint (the_int32 (vs_NumberOfCores vm))"
    and "sint (mcl_MemoryValue mc) \<le> sint (the_int32 (vs_MemoryInMB vm)) * 2 ^ 20"
    and "vs_Name vm = Some (the_name vm)"
  using assms by (auto simp: vm_fits_def the_int32_def the_name_def split: option.splits)

lemma four_tenths_bounded: "f_bounded 1 (round_f64 (4 / 10))"
  by (rule round_const_bounded) simp_all

lemma core_term_bounded:
  assumes "vm_fits mc purpose vm" and "0 < uint (mcl_CPUCores mc)"
  shows "f_bounded 66 (core_term mc vm)"
proof -
  define c where "c = uint (mcl_CPUCores mc)"
  define k where "k = sint (the_int32 (vs_NumberOfCores vm))"
  have ck: "0 < c" "c \<le> k" "k < 2 ^ 31"
    using vm_fits_resources(1) [OF assms(1)] assms(2) sint32_bounds [of "the_int32 (vs_NumberOfCores vm)"]
    by (simp_all add: c_def k_def)
  have cores: "f_bounded 31 (Fin (of_int (k - c)))"
    using ck of_int_less_two_power [of "k - c" 31] by simp
  have "(1::rat) \<le> of_int c" using ck(1) by simp
  then have core: "f_bounded 32 (f_div (Fin (of_int (k - c))) (Fin (of_int c)))"
    using f_div_bounded [OF cores, of 0 "of_int c"] by simp
  show ?thesis
    unfolding core_term_def core_excess_exact [OF vm_fits_resources(1) [OF assms(1)], folded c_def k_def]
    by (rule f_bounded_mono [OF f_mul_bounded [OF core four_tenths_bounded]]) simp_all
qed

lemma mem_term_bounded:
  assumes "vm_fits mc purpose vm" and "0 < sint (mcl_MemoryValue mc)"
  shows "f_bounded 66 (mem_term mc vm)"
proof -
  let ?mb = "the_int32 (vs_MemoryInMB vm)"
  obtain w where w: "required_memory_gb mc = Fin w" "1 / 2 ^ 30 \<le> w" "w \<le> of_int (sint ?mb) / 1024"
    using required_memory_bounds [OF assms(2) vm_fits_resources(2) [OF assms(1)]] by blast
  have m: "(of_int (sint ?mb) :: rat) \<le> 2 ^ 31"
    using of_int_less_two_power [of "sint ?mb" 31] sint32_bounds [of ?mb] by simp
  have w0: "0 < w" using w(2) by (rule less_le_trans [rotated]) simp
  have mems: "f_bounded 33 (f_sub (vm_memory_gb ?mb) (required_memory_gb mc))"
    using w w0 m f_sub_bounded [of 31 "vm_memory_gb ?mb" "required_memory_gb mc"]
    by (simp add: vm_memory_gb_exact)
  have "f_bounded 64 (f_div (f_sub (vm_memory_gb ?mb) (required_memory_gb mc)) (required_memory_gb mc))"
    using f_div_bounded [OF mems w(2)] by (simp add: w(1))
  then show ?thesis
    unfolding mem_term_def using f_mul_bounded [OF _ four_tenths_bounded] by fastforce
qed

lemma score_sum_bounded:
  assumes "vm_fits mc purpose vm"
    and "0 < uint (mcl_CPUCores mc)" and "0 < sint (mcl_MemoryValue mc)"
  shows "f_bounded 68 (f_add (core_term mc vm) (mem_term mc vm))"
  using f_add_bounded [OF core_term_bounded [OF assms(1,2)] mem_term_bounded [OF assms(1,3)]] by simp

lemma vm_score_finite:
  assumes "vm_fits mc purpose vm"
    and "0 < uint (mcl_CPUCores mc)" and "0 < sint (mcl_MemoryValue mc)"
  shows "\<exists>r. vm_score mc vm = Fin r \<and> 0 \<le> r"
  unfolding vm_score_terms using name_adjustments_bounded [OF score_sum_bounded [OF assms]] by simp

section \<open>The mapper's guarantees\<close>

lemma emits_machineClassCache [emits_intros]:
  "emits P (machineClassCache_get R name)" "emits P (machineClassCache_getAll R)"
  "emits P (machineClassCache_set R classes)"
  unfolding machineClassCache_get_def machineClassCache_getAll_def machineClassCache_set_def
  by (intro emits_intros)+

lemma emits_ListMachineClasses: "emits is_sizing_event (ListMachineClasses R K)"
  unfolding ListMachineClasses_def by (intro emits_intros) simp

lemma emits_GetMachineClass: "emits is_sizing_event (GetMachineClass R K name)"
  unfolding GetMachineClass_def by (intro emits_intros emits_ListMachineClasses)

text \<open>
  What the pool and cluster managers rely on: a mapping request only reads the VM-size and
  MachineClass APIs.
\<close>

locale machine_class_service =
  fixes P :: "'w machine_class_mapper"
  assumes emits_map: "emits is_sizing_event (mcm_MapMachineClassToVMSize P name location purpose)"

context vm_size_service
begin

lemma emits_map_spec:
  "mpr_vmSizeManager M = V \<Longrightarrow>
     emits is_sizing_event (MapMachineClassSpecToVMSize M machineClass location purpose)"
  unfolding MapMachineClassSpecToVMSize_def
  by (intro emits_intros emits_list_sizing) (simp_all add: emits_list_sizing)

lemma mapper_is_service:
  "mpr_vmSizeManager M = V \<Longrightarrow> machine_class_service (NewMachineClassMapper R M)"
  by unfold_locales
    (simp add: NewMachineClassMapper_def MapMachineClassToVMSize_def emits_intros
      emits_GetMachineClass emits_map_spec)

end

interpretation mapper_impl: machine_class_service
  "NewMachineClassMapper R \<lparr>mpr_client = K, mpr_vmSizeManager = NewVMSizeManager R' C, mpr_sort = srt\<rparr>"
  by (rule vm_size_impl.mapper_is_service) simp

text \<open>C5. For a class that asks for at least one core and one byte, the mapper picks, among the
  sizes Azure lists for the location, one that matches the purpose and has the cores and the
  memory, and no fitting size has a lower score; when none fits it answers with the static
  mapping. The answer is never an error once the sizes are listed.\<close>

theorem map_spec_chooses_best:
  assumes srt: "slice_sort score_less (mpr_sort M)"
    and listed: "run_state (vsm_ListVMSizes (mpr_vmSizeManager M) location) s = (Inr vmSizes, s')"
    and req: "0 < uint (mcl_CPUCores mc)" "0 < sint (mcl_MemoryValue mc)"
    and p: "p = chosen_purpose mc preferredPurpose"
  shows "\<exists>m. run_state (MapMachineClassSpecToVMSize M mc location preferredPurpose) s = (Inr m, s') \<and>
     (if \<exists>vm\<in>set vmSizes. vm_fits mc p vm
      then (\<exists>vm\<in>set vmSizes. vm_fits mc p vm \<and> vs_Name vm = Some (mm_VMSize m) \<and>
             mm_Score m = vm_score mc vm \<and> length (mm_Alternatives m) \<le> 3 \<and>
             (\<forall>vm'\<in>set vmSizes. vm_fits mc p vm' \<longrightarrow> \<not> f_lt (vm_score mc vm') (mm_Score m)))
      else m = staticMapping (mcl_Name mc) p)"
proof -
  define cs where "cs = vm_candidates mc p vmSizes"
  have cs: "cs = map (\<lambda>vm. \<lparr>sv_size = vm, sv_score = vm_score mc vm\<rparr>) (filter (vm_fits mc p) vmSizes)"
    by (simp add: cs_def vm_candidates_eq)
  have run: "run_state (MapMachineClassSpecToVMSize M mc location preferredPurpose) s =
      (Inr (if cs = [] then staticMapping (mcl_Name mc) p else candidate_mapping mc p (mpr_sort M cs)), s')"
    by (simp add: MapMachineClassSpecToVMSize_def listed p cs_def Let_def)
  show ?thesis
  proof (cases "cs = []")
    case True
    then show ?thesis using run by (auto simp: cs filter_empty_conv)
  next
    case False
    obtain b bs where bs: "mpr_sort M cs = b # bs"
      using slice_sort.sort_Nil_iff [OF srt] False by (metis list.exhaust)
    then have "b \<in> set cs" using slice_sort.sort_hd_in [OF srt False] by simp
    then obtain vm where vm: "vm \<in> set vmSizes" "vm_fits mc p vm"
      and b: "b = \<lparr>sv_size = vm, sv_score = vm_score mc vm\<rparr>" by (auto simp: cs)
    have "\<forall>c\<in>set cs. sv_score c \<noteq> NaN"
      using vm_score_finite [OF _ req] by (fastforce simp: cs)
    then have "strict_weak_on score_less (set cs)"
      using f_lt_strict_weak [of "set cs" sv_score] by (simp add: score_less_def [abs_def])
    then have "\<forall>c\<in>set cs. \<not> f_lt (sv_score c) (vm_score mc vm)"
      using slice_sort.sort_hd_minimal [OF srt] bs b by (fastforce simp: score_less_def)
    then have best: "\<forall>vm'\<in>set vmSizes. vm_fits mc p vm' \<longrightarrow> \<not> f_lt (vm_score mc vm') (vm_score mc vm)"
      by (auto simp: cs)
    obtain name where "vs_Name vm = Some name"
      using vm(2) by (auto simp: vm_fits_def split: option.splits)
    then show ?thesis
      using run False vm best bs b
      by (auto simp: candidate_mapping_def the_name_def intro!: bexI [of _ vm])
  qed
qed

lemma round_const: "0 \<le> q \<Longrightarrow> q \<le> 1 \<Longrightarrow> \<exists>r. round_f64 q = Fin r"
  using round_const_Fin by blast

lemma adjustment_consts:
  obtains r15 r10 r5 r2 r3 rh where
    "round_f64 (15 / 100) = Fin r15" "round_f64 (10 / 100) = Fin r10" "round_f64 (5 / 100) = Fin r5"
    "round_f64 (2 / 100) = Fin r2" "round_f64 (3 / 10) = Fin r3" "round_f64 (5 / 10) = Fin rh"
  using round_const [of "15 / 100"] round_const [of "10 / 100"] round_const [of "5 / 100"]
    round_const [of "2 / 100"] round_const [of "3 / 10"] round_const [of "5 / 10"]
  by auto

lemma name_adjustments_mono:
  assumes "f_le a b"
  shows "f_le (name_adjustments name a) (name_adjustments name b)"
proof -
  obtain r15 r10 r5 r2 r3 rh where c:
    "round_f64 (15 / 100) = Fin r15" "round_f64 (10 / 100) = Fin r10" "round_f64 (5 / 100) = Fin r5"
    "round_f64 (2 / 100) = Fin r2" "round_f64 (3 / 10) = Fin r3" "round_f64 (5 / 10) = Fin rh"
    by (rule adjustment_consts)
  have s: "f_le (if p then f_sub x (Fin q) else x) (if p then f_sub y (Fin q) else y)"
    "f_le (if p then f_add x (Fin q) else x) (if p then f_add y (Fin q) else y)"
    if "f_le x y" for p x y q
    using that by (simp_all add: f_sub_Fin_mono f_add_Fin_mono)
  have t: "f_le (if p then f_sub x (Fin q) else x') (if p then f_sub y (Fin q) else y')"
    if "f_le x y" "f_le x' y'" for p x y x' y' q
    using that by (simp add: f_sub_Fin_mono)
  show ?thesis
    unfolding name_adjustments_def Let_def c
    by (rule f_max_mono, rule s(2), rule s(2), rule s(1), intro t assms)
qed

text \<open>C27. Between two fitting sizes whose names earn the same bonuses, the one with no more cores
  and no more memory never scores worse: rounding cannot make the mapper prefer the bigger
  machine.\<close>

theorem tighter_fit_scores_no_worse:
  assumes fits: "vm_fits mc purpose vm" "vm_fits mc purpose vm'"
    and req: "0 < uint (mcl_CPUCores mc)" "0 < sint (mcl_MemoryValue mc)"
    and le: "sint (the_int32 (vs_NumberOfCores vm)) \<le> sint (the_int32 (vs_NumberOfCores vm'))"
      "sint (the_int32 (vs_MemoryInMB vm)) \<le> sint (the_int32 (vs_MemoryInMB vm'))"
    and names: "name_adjustments (the_name vm) = name_adjustments (the_name vm')"
  shows "f_le (vm_score mc vm) (vm_score mc vm')"
proof -
  have core: "f_le (core_term mc vm) (core_term mc vm')"
  proof -
    define c where "c = uint (mcl_CPUCores mc)"
    have "0 < c" unfolding c_def by (rule req(1))
    then have "(0::rat) < of_int c" by simp
    moreover have cores: "of_int (sint (the_int32 (vs_NumberOfCores vm))) \<le>
        (of_int (sint (the_int32 (vs_NumberOfCores vm'))) :: rat)"
      using le(1) by (simp only: of_int_le_iff)
    moreover obtain q where "round_f64 (4 / 10) = Fin q" "0 < q"
      using round_const_Fin [of "4 / 10"] by auto
    ultimately show ?thesis
      unfolding core_term_def
        core_excess_exact [OF vm_fits_resources(1) [OF fits(1)], folded c_def]
        core_excess_exact(2) [OF vm_fits_resources(1) [OF fits(2)], folded c_def]
      using cores by (simp only:) (intro f_mul_Fin_mono f_div_Fin_mono, simp_all)
  qed
  moreover have mem: "f_le (mem_term mc vm) (mem_term mc vm')"
  proof -
    obtain w where w: "required_memory_gb mc = Fin w" "1 / 2 ^ 30 \<le> w"
      using required_memory_bounds [OF req(2) vm_fits_resources(2) [OF fits(1)]] by blast
    have "0 < w" by (rule less_le_trans [OF _ w(2)]) simp
    moreover obtain q where "round_f64 (4 / 10) = Fin q" "0 < q"
      using round_const_Fin [of "4 / 10"] by auto
    moreover have "f_le (vm_memory_gb (the_int32 (vs_MemoryInMB vm))) (vm_memory_gb (the_int32 (vs_MemoryInMB vm')))"
      unfolding vm_memory_gb_exact f_le_Fin
      by (rule divide_right_mono, subst of_int_le_iff, rule le(2)) simp
    ultimately show ?thesis
      unfolding mem_term_def w(1)
      by (simp only:) (intro f_mul_Fin_mono f_div_Fin_mono f_sub_Fin_mono, simp_all)
  qed
  moreover have "f_add (core_term mc v) (mem_term mc v) \<noteq> NaN" if "v \<in> {vm, vm'}" for v
    using that score_sum_bounded [OF fits(1) req] score_sum_bounded [OF fits(2) req]
    by (auto simp: f_bounded_def)
  ultimately have "f_le (f_add (core_term mc vm) (mem_term mc vm)) (f_add (core_term mc vm') (mem_term mc vm'))"
    by (intro f_add_mono) simp_all
  then show ?thesis
    unfolding vm_score_terms names by (rule name_adjustments_mono)
qed

section \<open>Classes without cores\<close>

lemma adjusted_PInf: "name_adjustments name PInf = PInf"
proof -
  obtain r15 r10 r5 r2 r3 rh where c:
    "round_f64 (15 / 100) = Fin r15" "round_f64 (10 / 100) = Fin r10" "round_f64 (5 / 100) = Fin r5"
    "round_f64 (2 / 100) = Fin r2" "round_f64 (3 / 10) = Fin r3" "round_f64 (5 / 10) = Fin rh"
    by (rule adjustment_consts)
  show ?thesis unfolding name_adjustments_def Let_def c by (simp add: f_sub_def f_max_def)
qed

lemma zero_core_score:
  assumes "vm_fits mc purpose vm" and "mcl_CPUCores mc = 0" and "0 < sint (mcl_MemoryValue mc)"
    and "0 < sint (the_int32 (vs_NumberOfCores vm))"
  shows "vm_score mc vm = PInf"
proof -
  define k where "k = sint (the_int32 (vs_NumberOfCores vm))"
  have k: "0 < k" using assms(4) by (simp add: k_def)
  have z: "of_int (uint (mcl_CPUCores mc)) = (0::rat)"
    "of_int (k - uint (mcl_CPUCores mc)) = (of_int k :: rat)"
    unfolding assms(2) by simp_all
  obtain q where q: "round_f64 (4 / 10) = Fin q" "0 < q"
    using round_const_Fin [of "4 / 10"] by auto
  have "core_term mc vm = PInf"
    unfolding core_term_def core_excess_exact [OF vm_fits_resources(1) [OF assms(1)], folded k_def] z q(1)
    using k q(2) by (simp add: signed_inf_def)
  moreover obtain r where "mem_term mc vm = Fin r"
    using mem_term_bounded [OF assms(1,3)] by (auto simp: f_bounded_def)
  ultimately show ?thesis by (simp add: vm_score_terms adjusted_PInf)
qed

text \<open>A sort that prefers \<open>c\<close> among candidates it need not order: as good a \<open>sort.Slice\<close> as any.\<close>

definition preferring :: "scored_vm \<Rightarrow> scored_vm list \<Rightarrow> scored_vm list" where
  "preferring c xs =
     (if c \<in> set xs \<and> (\<forall>x\<in>set xs. \<forall>y\<in>set xs. \<not> score_less x y) then c # remove1 c xs
      else insertion_sort score_less xs)"

interpretation preferring: slice_sort score_less "preferring c"
proof
  show "mset (preferring c xs) = mset xs" for xs
    by (simp add: preferring_def go_sort.sort_mset)
  show "sorted_wrt (\<lambda>a b. \<not> score_less b a) (preferring c xs)" if "strict_weak_on score_less (set xs)" for xs
  proof (cases "c \<in> set xs \<and> (\<forall>x\<in>set xs. \<forall>y\<in>set xs. \<not> score_less x y)")
    case True
    then have "sorted_wrt (\<lambda>a b. \<not> score_less b a) ys" if "set ys \<subseteq> set xs" for ys
      using that by (induction ys) auto
    from this [of "c # remove1 c xs"] True show ?thesis
      using set_remove1_subset [of c xs] by (simp add: preferring_def)
  next
    case False
    with go_sort.sort_sorted [OF that] show ?thesis by (simp only: preferring_def if_False)
  qed
qed

text \<open>C32. A class that asks for no cores, and for some memory, is not ranked at all when the fitting
  sizes Azure lists have cores: each of them scores plus infinity. So whatever fitting size one
  takes, however large, a sort that keeps the contract of \<open>sort.Slice\<close> makes the mapper choose it;
  nothing in the code prefers the smaller machine.\<close>

theorem zero_core_class_unranked:
  assumes listed: "run_state (vsm_ListVMSizes (mpr_vmSizeManager M) location) s = (Inr vmSizes, s')"
    and req: "mcl_CPUCores mc = 0" "0 < sint (mcl_MemoryValue mc)"
    and p: "p = chosen_purpose mc preferredPurpose"
    and cores: "\<forall>vm\<in>set vmSizes. vm_fits mc p vm \<longrightarrow> 0 < sint (the_int32 (vs_NumberOfCores vm))"
    and vm: "vm \<in> set vmSizes" "vm_fits mc p vm"
  shows "(\<forall>v\<in>set vmSizes. vm_fits mc p v \<longrightarrow> vm_score mc v = PInf) \<and>
     (\<exists>sorter m. slice_sort score_less sorter \<and>
        run_state (MapMachineClassSpecToVMSize (M\<lparr>mpr_sort := sorter\<rparr>) mc location preferredPurpose) s = (Inr m, s') \<and>
        vs_Name vm = Some (mm_VMSize m) \<and> mm_Score m = PInf)"
proof -
  have score: "vm_score mc v = PInf" if "v \<in> set vmSizes" "vm_fits mc p v" for v
    using zero_core_score [OF that(2) req] that cores by blast
  let ?cs = "vm_candidates mc p vmSizes" and ?c = "\<lparr>sv_size = vm, sv_score = PInf\<rparr>"
  have cs: "?cs = map (\<lambda>v. \<lparr>sv_size = v, sv_score = vm_score mc v\<rparr>) (filter (vm_fits mc p) vmSizes)"
    by (rule vm_candidates_eq)
  then have "\<forall>a\<in>set ?cs. sv_score a = PInf" using score by auto
  then have tie: "\<forall>x\<in>set ?cs. \<forall>y\<in>set ?cs. \<not> score_less x y" by (simp add: score_less_def)
  have c: "?c \<in> set ?cs" using vm score [OF vm] unfolding cs by force
  with tie have best: "preferring ?c ?cs = ?c # remove1 ?c ?cs" by (simp add: preferring_def)
  have "?cs \<noteq> []" using c by auto
  then have "run_state (MapMachineClassSpecToVMSize (M\<lparr>mpr_sort := preferring ?c\<rparr>) mc location preferredPurpose) s =
      (Inr (candidate_mapping mc p (?c # remove1 ?c ?cs)), s')"
    by (simp add: MapMachineClassSpecToVMSize_def listed p [symmetric] best [symmetric] Let_def)
  then show ?thesis
    using score vm_fits_resources(3) [OF vm(2)] preferring.slice_sort_axioms
    by (intro conjI exI [of _ "preferring ?c"] exI [of _ "candidate_mapping mc p (?c # remove1 ?c ?cs)"])
      (simp_all add: candidate_mapping_def)
qed

section \<open>The static table and the class lookup\<close>

text \<open>The static mapping is total and always names a \<open>Standard_\<close> size; a class name that
  is already such a size is taken as it is.\<close>

theorem static_mapping_standard:
  "HasPrefix (mm_VMSize (staticMapping name purpose)) ''Standard_'' \<and>
   (HasPrefix name ''Standard_'' \<longrightarrow> mm_VMSize (staticMapping name purpose) = name)"
proof -
  have "\<forall>d\<in>set (map snd staticMappings). HasPrefix (sd_generalPurpose d) ''Standard_'' \<and>
     HasPrefix (sd_computeOptimized d) ''Standard_'' \<and> HasPrefix (sd_memoryOptimized d) ''Standard_''"
    by (simp add: staticMappings_def static_medium_def)
  then have "HasPrefix (sd_generalPurpose d) ''Standard_'' \<and> HasPrefix (sd_computeOptimized d) ''Standard_'' \<and>
      HasPrefix (sd_memoryOptimized d) ''Standard_''"
    if "map_of staticMappings n = Some d" for n d
    using map_of_SomeD [OF that] by (force simp: image_iff)
  then show ?thesis
    by (auto simp: staticMapping_def Let_def static_medium_def split: option.splits)
qed

lemma map_of_classes_by_name:
  "map_of (classes_by_name cs) name = map_of (rev (map (\<lambda>mc. (mcl_Name mc, mc)) cs)) name"
  by (simp add: classes_by_name_def map_of_fold_update)

text \<open>C35. When the two readings of the clock before the listing find the cache expired,
  \<open>GetMachineClass\<close> lists once and answers with the last listed class of that name, whether or
  not it is enabled; an error of the listing is passed on wrapped. It answers that there is no such
  class when none is listed, and also when more than one TTL goes by between the reading of the
  clock that dates the stored classes and the one of the lookup that follows.\<close>

theorem get_machine_class_lists_once:
  assumes now: "rt_now R (world s) = (now1, w1)" "rt_now R w1 = (now2, w2)"
    and expired: "clc_expiry (class_cache s) < now1" "clc_expiry (class_cache s) < now2"
    and listing: "kube_ListMachineClasses K w2 = (listed, w3)"
    and later: "rt_now R w3 = (stored, w4)" "rt_now R w4 = (looked_up, w5)"
    and run: "run_state (GetMachineClass R K name) s = (r, s')"
  shows "trace s' = trace s @ [KubeListMachineClasses (sum_error listed)] \<and>
    r = (case listed of
           Inl e \<Rightarrow> Inl (wrap_error ''failed to list MachineClasses'' e)
         | Inr cs \<Rightarrow>
             (case map_of (rev (map (\<lambda>mc. (mcl_Name mc, mc)) cs)) name of
                Some mc \<Rightarrow>
                  if looked_up \<le> stored + clc_ttl (class_cache s) then Inr mc
                  else Inl (new_error (''MachineClass '' @ name @ '' not found''))
              | None \<Rightarrow> Inl (new_error (''MachineClass '' @ name @ '' not found''))))"
  using run now expired listing later
  by (auto simp: GetMachineClass_def ListMachineClasses_def machineClassCache_get_def
      machineClassCache_getAll_def machineClassCache_set_def machineClassCache_lookup_def
      machineClassCache_store_def map_of_classes_by_name split: error_splits)

section \<open>Witnesses\<close>

definition fx_mapper :: "fx_world mapper_impl" where
  "fx_mapper =
     \<lparr>mpr_client = fx_kube, mpr_vmSizeManager = NewVMSizeManager fx_runtime fx_sizes,
      mpr_sort = insertion_sort score_less\<rparr>"

lemma fx_lists:
  "run_state (vsm_ListVMSizes (mpr_vmSizeManager fx_mapper) ''norwayeast'') fx_state =
     (Inr [fx_d4, fx_d2], snd (run_state (ListVMSizes fx_runtime fx_sizes ''norwayeast'') fx_state))"
  by (simp add: fx_mapper_def NewVMSizeManager_def ListVMSizes_def vm_cache_defs fx_runtime_def
      fx_sizes_def fx_state_def)

lemma fx_fits:
  "vm_fits (fx_class n) VMPurposeGeneralPurpose fx_d4 \<longleftrightarrow> uint (of_nat n :: go_uint) \<le> 4"
  "vm_fits (fx_class n) VMPurposeGeneralPurpose fx_d2 \<longleftrightarrow> uint (of_nat n :: go_uint) \<le> 2"
  by (simp_all add: vm_fits_def fx_class_def fx_d4_def fx_d2_def vmSizeMatchesPurpose_def
      purpose_defs string_eval)

theorem map_spec_chooses_best_witness:
  "\<exists>m s'. run_state (MapMachineClassSpecToVMSize fx_mapper (fx_class 2) ''norwayeast'' VMPurposeGeneralPurpose)
       fx_state = (Inr m, s') \<and>
     (\<exists>vm\<in>set [fx_d4, fx_d2]. vs_Name vm = Some (mm_VMSize m) \<and> mm_Score m = vm_score (fx_class 2) vm \<and>
        \<not> f_lt (vm_score (fx_class 2) fx_d2) (mm_Score m))"
proof -
  have s: "slice_sort score_less (mpr_sort fx_mapper)"
    by (simp add: fx_mapper_def insertion_sort_slice_sort)
  have r: "0 < uint (mcl_CPUCores (fx_class 2))" "0 < sint (mcl_MemoryValue (fx_class 2))"
    by (simp_all add: fx_class_def)
  have p: "VMPurposeGeneralPurpose = chosen_purpose (fx_class 2) VMPurposeGeneralPurpose"
    by (simp add: chosen_purpose_def VMPurposeGeneralPurpose_def)
  show ?thesis
    using map_spec_chooses_best [OF s fx_lists r p] fx_fits [of 2] by auto
qed

theorem tighter_fit_scores_no_worse_witness:
  "f_le (vm_score (fx_class 2) fx_d2) (vm_score (fx_class 2) (fx_d4\<lparr>vs_Name := Some ''Standard_D2s_v5''\<rparr>))"
  by (rule tighter_fit_scores_no_worse [where purpose = VMPurposeGeneralPurpose])
    (simp_all add: vm_fits_def fx_class_def fx_d4_def fx_d2_def vmSizeMatchesPurpose_def
      purpose_defs string_eval the_int32_def the_name_def)

text \<open>Two and four cores are listed; with either one the mapper may answer.\<close>

theorem zero_core_class_unranked_witness:
  "(\<exists>sorter m s'. run_state (MapMachineClassSpecToVMSize (fx_mapper\<lparr>mpr_sort := sorter\<rparr>) (fx_class 0)
        ''norwayeast'' VMPurposeGeneralPurpose) fx_state = (Inr m, s') \<and>
      slice_sort score_less sorter \<and> mm_VMSize m = ''Standard_D4s_v5'') \<and>
   (\<exists>sorter m s'. run_state (MapMachineClassSpecToVMSize (fx_mapper\<lparr>mpr_sort := sorter\<rparr>) (fx_class 0)
        ''norwayeast'' VMPurposeGeneralPurpose) fx_state = (Inr m, s') \<and>
      slice_sort score_less sorter \<and> mm_VMSize m = ''Standard_D2s_v5'')"
proof -
  have r: "mcl_CPUCores (fx_class 0) = 0" "0 < sint (mcl_MemoryValue (fx_class 0))"
    by (simp_all add: fx_class_def)
  have c: "\<forall>vm\<in>set [fx_d4, fx_d2]. vm_fits (fx_class 0) VMPurposeGeneralPurpose vm \<longrightarrow>
      0 < sint (the_int32 (vs_NumberOfCores vm))"
    by (simp add: fx_d4_def fx_d2_def the_int32_def)
  have p: "VMPurposeGeneralPurpose = chosen_purpose (fx_class 0) VMPurposeGeneralPurpose"
    by (simp add: chosen_purpose_def VMPurposeGeneralPurpose_def)
  have fits: "vm_fits (fx_class 0) VMPurposeGeneralPurpose fx_d4" "vm_fits (fx_class 0) VMPurposeGeneralPurpose fx_d2"
    using fx_fits [of 0] by simp_all
  note chosen = conjunct2 [OF zero_core_class_unranked [OF fx_lists r p c]]
  have names: "vs_Name fx_d4 = Some ''Standard_D4s_v5''" "vs_Name fx_d2 = Some ''Standard_D2s_v5''"
    by (simp_all add: fx_d4_def fx_d2_def)
  from chosen [OF _ fits(1)] chosen [OF _ fits(2)] show ?thesis
    unfolding names by (simp only: option.inject) fastforce
qed

theorem get_machine_class_lists_once_witness:
  "fst (run_state (GetMachineClass fx_runtime fx_kube ''small'') fx_state) = Inr (fx_class 2)"
proof -
  let ?run = "run_state (GetMachineClass fx_runtime fx_kube ''small'') fx_state"
  have e: "clc_expiry (class_cache fx_state) < 100" by (simp add: fx_state_def)
  have t: "rt_now fx_runtime w = (100, w)" for w by (simp add: fx_runtime_def)
  have l: "kube_ListMachineClasses fx_kube w = (Inr [fx_class 2], w)" for w by (simp add: fx_kube_def)
  have run: "?run = (fst ?run, snd ?run)" by simp
  show ?thesis
    using get_machine_class_lists_once [OF t t e e l t t run]
    by (simp add: fx_class_def fx_state_def)
qed

theorem static_mapping_standard_witness:
  "mm_VMSize (staticMapping ''Standard_B2ms'' VMPurposeGPU) = ''Standard_B2ms''"
  using static_mapping_standard [of "''Standard_B2ms''" VMPurposeGPU] by simp

end
