(* ===== verification/AgentPool.thy ===== *)
theory AgentPool
  imports MachineClass
begin

text \<open>
  \<open>internal/managers/agent_pool_manager.go\<close>: worker node pools. A node pool of the
  \<open>KubernetesCluster\<close> becomes an AKS agent pool of mode User; \<open>ReconcileAgentPools\<close>
  creates or updates every desired pool and deletes every other one except \<open>system\<close>.
\<close>

section \<open>Names\<close>

definition pool_getResourceGroupName :: "kubernetes_cluster \<Rightarrow> string" where
  "pool_getResourceGroupName kc =
     (if cd_Project (kc_Cluster kc) \<noteq> [] then cd_Project (kc_Cluster kc) else kc_Namespace kc)"

definition pool_getClusterName :: "kubernetes_cluster \<Rightarrow> string" where
  "pool_getClusterName kc = cd_ClusterId (kc_Cluster kc)"

section \<open>The purpose of a node pool\<close>

fun taint_hints_gpu :: "taint list \<Rightarrow> bool" where
  "taint_hints_gpu [] = False"
| "taint_hints_gpu (t # ts) =
     (if Contains (ToLower (taint_Key t)) ''gpu'' \<or> Contains (ToLower (taint_Value t)) ''gpu''
      then True else taint_hints_gpu ts)"

text \<open>The body of the loop over the labels: the purpose one label hints at, if any.\<close>

definition label_hint :: "string \<times> string \<Rightarrow> vm_purpose option" where
  "label_hint kv =
     (let keyLower = ToLower (fst kv); valueLower = ToLower (snd kv) in
      if Contains keyLower ''gpu'' \<or> Contains valueLower ''gpu'' then Some VMPurposeGPU
      else if Contains keyLower ''compute'' \<or> Contains valueLower ''compute''
      then Some VMPurposeComputeOptimized
      else if Contains keyLower ''memory'' \<or> Contains valueLower ''memory''
      then Some VMPurposeMemoryOptimized
      else None)"

fun first_label_hint :: "(string \<times> string) list \<Rightarrow> vm_purpose option" where
  "first_label_hint [] = None"
| "first_label_hint (kv # kvs) =
     (case label_hint kv of Some p \<Rightarrow> Some p | None \<Rightarrow> first_label_hint kvs)"

definition class_hint :: "string \<Rightarrow> vm_purpose" where
  "class_hint machineClass =
     (let m = ToLower machineClass in
      if Contains m ''gpu'' then VMPurposeGPU
      else if Contains m ''cpu'' \<or> Contains m ''compute'' then VMPurposeComputeOptimized
      else if Contains m ''memory'' \<or> Contains m ''mem'' then VMPurposeMemoryOptimized
      else VMPurposeGeneralPurpose)"

text \<open>The entries of a map in the order a \<open>range\<close> loop visits its keys.\<close>

definition entries_in_order :: "(string \<times> 'a) list \<Rightarrow> string list \<Rightarrow> (string \<times> 'a) list" where
  "entries_in_order m ks = List.map_filter (\<lambda>k. map_option (Pair k) (map_of m k)) ks"

definition pool_determineNodePoolPurpose :: "'w runtime \<Rightarrow> node_pool \<Rightarrow> ('w, vm_purpose) go" where
  "pool_determineNodePoolPurpose R np =
     (if taint_hints_gpu (np_Taint np) then ret VMPurposeGPU
      else do {
        ks \<leftarrow> range_keys R (map fst (np_Labels np));
        ret (case first_label_hint (entries_in_order (np_Labels np) ks) of
               Some p \<Rightarrow> p
             | None \<Rightarrow> class_hint (np_MachineClass np))
      })"

section \<open>VM sizes\<close>

record vm_sizes =
  vz_generalPurpose :: string
  vz_computeOptimized :: string
  vz_memoryOptimized :: string
  vz_gpu :: string

definition sizes_medium :: vm_sizes where
  "sizes_medium =
     \<lparr>vz_generalPurpose = vmSizeStandardD4sV5, vz_computeOptimized = vmSizeStandardF4sV2,
      vz_memoryOptimized = vmSizeStandardE4sV5, vz_gpu = vmSizeStandardNC8asT4V3\<rparr>"

definition pool_staticMappings :: "(string \<times> vm_sizes) list" where
  "pool_staticMappings =
     [(machineClassSmall,
       \<lparr>vz_generalPurpose = vmSizeStandardD2sV5, vz_computeOptimized = vmSizeStandardF2sV2,
        vz_memoryOptimized = vmSizeStandardE2sV5, vz_gpu = vmSizeStandardNC4asT4V3\<rparr>),
      (machineClassMedium, sizes_medium),
      (machineClassLarge,
       \<lparr>vz_generalPurpose = vmSizeStandardD8sV5, vz_computeOptimized = vmSizeStandardF8sV2,
        vz_memoryOptimized = vmSizeStandardE8sV5, vz_gpu = vmSizeStandardNC16asT4V3\<rparr>),
      (machineClassXLarge,
       \<lparr>vz_generalPurpose = vmSizeStandardD16sV5, vz_computeOptimized = vmSizeStandardF16sV2,
        vz_memoryOptimized = vmSizeStandardE16sV5, vz_gpu = vmSizeStandardNC64asT4V3\<rparr>),
      (machineClassLargeCPU,
       \<lparr>vz_generalPurpose = vmSizeStandardF8sV2, vz_computeOptimized = vmSizeStandardF8sV2,
        vz_memoryOptimized = vmSizeStandardF8sV2, vz_gpu = vmSizeStandardNC6sV3\<rparr>),
      (machineClassLargeMemory,
       \<lparr>vz_generalPurpose = vmSizeStandardE8sV5, vz_computeOptimized = vmSizeStandardE8sV5,
        vz_memoryOptimized = vmSizeStandardE8sV5, vz_gpu = vmSizeStandardNC6sV3\<rparr>),
      (''gpu'',
       \<lparr>vz_generalPurpose = vmSizeStandardNC6sV3, vz_computeOptimized = vmSizeStandardNC6sV3,
        vz_memoryOptimized = vmSizeStandardNC6sV3, vz_gpu = vmSizeStandardNC6sV3\<rparr>)]"

definition pool_staticFallbackVMSize :: "string \<Rightarrow> vm_purpose \<Rightarrow> string" where
  "pool_staticFallbackVMSize machineClass purpose =
     (let sizes = (case map_of pool_staticMappings (ToLower machineClass) of
                     Some d \<Rightarrow> d
                   | None \<Rightarrow> sizes_medium)
      in if purpose = VMPurposeComputeOptimized then vz_computeOptimized sizes
         else if purpose = VMPurposeMemoryOptimized then vz_memoryOptimized sizes
         else if purpose = VMPurposeGPU then vz_gpu sizes
         else vz_generalPurpose sizes)"

section \<open>The manager\<close>

record 'w agent_pool_manager_impl =
  api_client :: "'w agent_pool_client"
  api_vmSizeManager :: "'w vm_size_manager option"
  api_mapper :: "'w machine_class_mapper option"

definition NewAgentPoolManager ::
  "'w agent_pool_client \<Rightarrow> 'w vm_size_manager option \<Rightarrow> 'w machine_class_mapper option \<Rightarrow>
     'w agent_pool_manager_impl" where
  "NewAgentPoolManager client sizes mapper =
     \<lparr>api_client = client, api_vmSizeManager = sizes, api_mapper = mapper\<rparr>"

definition pool_resolveVMSize ::
  "'w runtime \<Rightarrow> 'w agent_pool_manager_impl \<Rightarrow> node_pool \<Rightarrow> string \<Rightarrow> ('w, string) go" where
  "pool_resolveVMSize R M np location =
     (let machineClass = np_MachineClass np in
      if HasPrefix machineClass ''Standard_'' then ret machineClass
      else do {
        purpose \<leftarrow> pool_determineNodePoolPurpose R np;
        (case api_mapper M of
           None \<Rightarrow> ret (pool_staticFallbackVMSize machineClass purpose)
         | Some mapper \<Rightarrow>
             do {
               r \<leftarrow> mcm_MapMachineClassToVMSize mapper machineClass location purpose;
               ret (case r of
                      Inl _ \<Rightarrow> pool_staticFallbackVMSize machineClass purpose
                    | Inr mapping \<Rightarrow> mm_VMSize mapping)
             })
      })"

definition taint_string :: "taint \<Rightarrow> string" where
  "taint_string t = taint_Key t @ ''='' @ taint_Value t @ '':'' @ taint_Effect t"

definition buildAgentPool :: "node_pool \<Rightarrow> string \<Rightarrow> agent_pool" where
  "buildAgentPool np vmSize =
     (let p0 = empty_pool_properties
                 \<lparr>pp_Count := Some (safeIntToInt32 (np_Replicas np)), pp_VMSize := Some vmSize,
                  pp_Mode := Some ''User'', pp_OSType := Some ''Linux'',
                  pp_Type := Some ''VirtualMachineScaleSets''\<rparr>;
          p1 = (if as_Enabled (np_Autoscaling np)
                then p0\<lparr>pp_EnableAutoScaling := Some True,
                        pp_MinCount := Some (safeIntToInt32 (as_MinReplicas (np_Autoscaling np))),
                        pp_MaxCount := Some (safeIntToInt32 (as_MaxReplicas (np_Autoscaling np)))\<rparr>
                else p0\<lparr>pp_EnableAutoScaling := Some False\<rparr>);
          p2 = (if np_Version np \<noteq> [] then p1\<lparr>pp_OrchestratorVersion := Some (np_Version np)\<rparr> else p1);
          p3 = (if np_Taint np \<noteq> [] then p2\<lparr>pp_NodeTaints := Some (map taint_string (np_Taint np))\<rparr> else p2);
          p4 = (if np_Labels np \<noteq> [] then p3\<lparr>pp_NodeLabels := Some (map_of (np_Labels np))\<rparr> else p3);
          p5 = p4\<lparr>pp_AvailabilityZones := Some [''1'', ''2'', ''3'']\<rparr>
      in \<lparr>ap_ID = None, ap_Name = None, ap_Properties = Some p5\<rparr>)"

definition CreateAgentPool ::
  "'w runtime \<Rightarrow> 'w agent_pool_manager_impl \<Rightarrow> kubernetes_cluster \<Rightarrow> node_pool \<Rightarrow>
     ('w, (go_error + agent_pool) outcome) go" where
  "CreateAgentPool R M kc np =
     (let resourceGroupName = pool_getResourceGroupName kc;
          clusterName = pool_getClusterName kc;
          location = cd_Region (kc_Cluster kc)
      in do {
        vmSize \<leftarrow> pool_resolveVMSize R M np location;
        unavailable \<leftarrow>
          (case api_vmSizeManager M of
             None \<Rightarrow> ret False
           | Some sizes \<Rightarrow>
               do {
                 r \<leftarrow> vsm_ValidateVMSize sizes location vmSize;
                 ret (case r of Inl _ \<Rightarrow> False | Inr valid \<Rightarrow> \<not> valid)
               });
        (if unavailable
         then ret (Returned (Inl (new_error
                (''VM size '' @ vmSize @ '' is not available in location '' @ location))))
         else (let agentPool = buildAgentPool np vmSize in
           do {
             r \<leftarrow> call (\<lambda>r. AzPoolCreateOrUpdate resourceGroupName clusterName (np_Name np) agentPool (sum_error r))
                    (apc_CreateOrUpdate (api_client M) resourceGroupName clusterName (np_Name np) agentPool);
             ret (case r of
                    Inl err \<Rightarrow> Returned (Inl (wrap_error ''failed to create agent pool'' err))
                  | Inr result \<Rightarrow>
                      (case ap_ID result of None \<Rightarrow> Panicked | Some _ \<Rightarrow> Returned (Inr result)))
           }))
      })"

definition UpdateAgentPool ::
  "'w runtime \<Rightarrow> 'w agent_pool_manager_impl \<Rightarrow> kubernetes_cluster \<Rightarrow> node_pool \<Rightarrow>
     ('w, go_error + agent_pool) go" where
  "UpdateAgentPool R M kc np =
     (let resourceGroupName = pool_getResourceGroupName kc;
          clusterName = pool_getClusterName kc;
          location = cd_Region (kc_Cluster kc)
      in do {
        vmSize \<leftarrow> pool_resolveVMSize R M np location;
        (let agentPool = buildAgentPool np vmSize in
           do {
             r \<leftarrow> call (\<lambda>r. AzPoolCreateOrUpdate resourceGroupName clusterName (np_Name np) agentPool (sum_error r))
                    (apc_CreateOrUpdate (api_client M) resourceGroupName clusterName (np_Name np) agentPool);
             ret (case r of
                    Inl err \<Rightarrow> Inl (wrap_error ''failed to update agent pool'' err)
                  | Inr result \<Rightarrow> Inr result)
           })
      })"

definition DeleteAgentPool ::
  "'w agent_pool_manager_impl \<Rightarrow> kubernetes_cluster \<Rightarrow> string \<Rightarrow> ('w, go_error option) go" where
  "DeleteAgentPool M kc nodePoolName =
     (let resourceGroupName = pool_getResourceGroupName kc; clusterName = pool_getClusterName kc
      in do {
        e \<leftarrow> call (AzPoolDelete resourceGroupName clusterName nodePoolName)
               (apc_Delete (api_client M) resourceGroupName clusterName nodePoolName);
        ret (map_option (wrap_error ''failed to delete agent pool'') e)
      })"

definition GetAgentPool ::
  "'w agent_pool_manager_impl \<Rightarrow> kubernetes_cluster \<Rightarrow> string \<Rightarrow> ('w, go_error + agent_pool) go" where
  "GetAgentPool M kc nodePoolName =
     (let resourceGroupName = pool_getResourceGroupName kc; clusterName = pool_getClusterName kc
      in do {
        r \<leftarrow> call (\<lambda>r. AzPoolGet resourceGroupName clusterName nodePoolName (sum_error r))
               (apc_Get (api_client M) resourceGroupName clusterName nodePoolName);
        ret (case r of Inl err \<Rightarrow> Inl (wrap_error ''failed to get agent pool'' err) | Inr p \<Rightarrow> Inr p)
      })"

definition ListAgentPools ::
  "'w agent_pool_manager_impl \<Rightarrow> kubernetes_cluster \<Rightarrow> ('w, go_error + agent_pool list) go" where
  "ListAgentPools M kc =
     (let resourceGroupName = pool_getResourceGroupName kc; clusterName = pool_getClusterName kc
      in do {
        r \<leftarrow> call (\<lambda>r. AzPoolList resourceGroupName clusterName (sum_error r))
               (apc_List (api_client M) resourceGroupName clusterName);
        ret (case r of Inl err \<Rightarrow> Inl (wrap_error ''failed to list agent pools'' err) | Inr ps \<Rightarrow> Inr ps)
      })"

section \<open>Reconciliation\<close>

definition existing_pool_map :: "agent_pool list \<Rightarrow> (string \<times> agent_pool) list" where
  "existing_pool_map pools =
     fold (\<lambda>(name, pool). AList.update name pool)
       (List.map_filter (\<lambda>pool. map_option (\<lambda>name. (name, pool)) (ap_Name pool)) pools) []"

text \<open>The loop over the desired pools: an error is logged and the loop goes on; a panic ends it.\<close>

fun reconcile_desired ::
  "'w runtime \<Rightarrow> 'w agent_pool_manager_impl \<Rightarrow> kubernetes_cluster \<Rightarrow> (string \<times> agent_pool) list \<Rightarrow>
     node_pool list \<Rightarrow> ('w, unit outcome) go" where
  "reconcile_desired R M kc existing [] = ret (Returned ())"
| "reconcile_desired R M kc existing (np # nps) =
     (if map_of existing (np_Name np) \<noteq> None
      then do {
        _ \<leftarrow> UpdateAgentPool R M kc np;
        reconcile_desired R M kc existing nps
      }
      else do {
        r \<leftarrow> CreateAgentPool R M kc np;
        (case r of
           Panicked \<Rightarrow> ret Panicked
         | Returned _ \<Rightarrow> reconcile_desired R M kc existing nps)
      })"

fun delete_undesired ::
  "'w agent_pool_manager_impl \<Rightarrow> kubernetes_cluster \<Rightarrow> string list \<Rightarrow> string list \<Rightarrow> ('w, unit) go" where
  "delete_undesired M kc desired [] = ret ()"
| "delete_undesired M kc desired (poolName # poolNames) =
     (if poolName \<notin> set desired \<and> poolName \<noteq> ''system''
      then do {
        _ \<leftarrow> DeleteAgentPool M kc poolName;
        delete_undesired M kc desired poolNames
      }
      else delete_undesired M kc desired poolNames)"

definition ReconcileAgentPools ::
  "'w runtime \<Rightarrow> 'w agent_pool_manager_impl \<Rightarrow> kubernetes_cluster \<Rightarrow> ('w, go_error option outcome) go" where
  "ReconcileAgentPools R M kc =
     do {
       l \<leftarrow> ListAgentPools M kc;
       (case l of
          Inl err \<Rightarrow>
            if Contains (err_text err) ''not found'' \<or> Contains (err_text err) ''ResourceNotFound''
            then ret (Returned None) else ret (Returned (Some err))
        | Inr existingPools \<Rightarrow>
            (let existing = existing_pool_map existingPools;
                 desired = tp_NodePools (kc_Topology kc)
             in do {
               r \<leftarrow> reconcile_desired R M kc existing desired;
               (case r of
                  Panicked \<Rightarrow> ret Panicked
                | Returned _ \<Rightarrow>
                    do {
                      ks \<leftarrow> range_keys R (map fst existing);
                      delete_undesired M kc (map np_Name desired) ks;
                      ret (Returned None)
                    })
             }))
     }"

text \<open>The interface \<open>AgentPoolManager\<close>, and the manager as its implementation.\<close>

record 'w agent_pool_manager =
  apm_CreateAgentPool :: "kubernetes_cluster \<Rightarrow> node_pool \<Rightarrow> ('w, (go_error + agent_pool) outcome) go"
  apm_UpdateAgentPool :: "kubernetes_cluster \<Rightarrow> node_pool \<Rightarrow> ('w, go_error + agent_pool) go"
  apm_DeleteAgentPool :: "kubernetes_cluster \<Rightarrow> string \<Rightarrow> ('w, go_error option) go"
  apm_GetAgentPool :: "kubernetes_cluster \<Rightarrow> string \<Rightarrow> ('w, go_error + agent_pool) go"
  apm_ListAgentPools :: "kubernetes_cluster \<Rightarrow> ('w, go_error + agent_pool list) go"
  apm_ReconcileAgentPools :: "kubernetes_cluster \<Rightarrow> ('w, go_error option outcome) go"

definition agent_pool_manager_of :: "'w runtime \<Rightarrow> 'w agent_pool_manager_impl \<Rightarrow> 'w agent_pool_manager" where
  "agent_pool_manager_of R M =
     \<lparr>apm_CreateAgentPool = CreateAgentPool R M, apm_UpdateAgentPool = UpdateAgentPool R M,
      apm_DeleteAgentPool = DeleteAgentPool M, apm_GetAgentPool = GetAgentPool M,
      apm_ListAgentPools = ListAgentPools M, apm_ReconcileAgentPools = ReconcileAgentPools R M\<rparr>"

section \<open>The purpose and the size of a pool\<close>


lemma set_map_filter: "set (List.map_filter f xs) = {y. \<exists>x\<in>set xs. f x = Some y}"
  by (force simp: List.map_filter_def)

lemma set_entries_in_order:
  assumes "is_go_map m" and "mset ks = mset (map fst m)"
  shows "set (entries_in_order m ks) = set m"
proof -
  have "set ks = fst ` set m" using assms(2) by (metis list.set_map set_mset_mset)
  then show ?thesis
    using assms(1)
    by (auto simp: entries_in_order_def set_map_filter is_go_map_def dest: map_of_SomeD)
      (metis fst_conv map_of_is_SomeI)
qed

lemma first_label_hint_None: "first_label_hint kvs = None \<longleftrightarrow> (\<forall>kv\<in>set kvs. label_hint kv = None)"
  by (induction kvs) (auto split: option.splits)

lemma first_label_hint_Some: "first_label_hint kvs = Some p \<Longrightarrow> \<exists>kv\<in>set kvs. label_hint kv = Some p"
  by (induction kvs) (auto split: option.splits)

text \<open>C30. When all the labels that hint at a purpose hint at the same one, the purpose of a node
  pool does not depend on the order in which Go visits the label map: it is GPU if a taint says so,
  else the purpose the labels hint at, else the one the class name hints at.\<close>

theorem pool_purpose_unambiguous:
  assumes "range_permutes R" and "is_go_map (np_Labels np)"
    and agree: "\<And>kv q. kv \<in> set (np_Labels np) \<Longrightarrow> label_hint kv = Some q \<Longrightarrow> q = p"
  shows "fst (run_state (pool_determineNodePoolPurpose R np) s) =
     (if taint_hints_gpu (np_Taint np) then VMPurposeGPU
      else if \<exists>kv\<in>set (np_Labels np). label_hint kv \<noteq> None then p
      else class_hint (np_MachineClass np))"
proof -
  define kvs where "kvs = entries_in_order (np_Labels np) (fst (rt_range R (map fst (np_Labels np)) (world s)))"
  have kvs: "set kvs = set (np_Labels np)"
    unfolding kvs_def using assms(1,2) by (intro set_entries_in_order) (simp_all add: range_permutes_def)
  have "first_label_hint kvs = (if \<exists>kv\<in>set (np_Labels np). label_hint kv \<noteq> None then Some p else None)"
  proof (cases "first_label_hint kvs")
    case None
    then show ?thesis using first_label_hint_None [of kvs] kvs by auto
  next
    case (Some q)
    then show ?thesis using first_label_hint_Some [OF Some] agree kvs by force
  qed
  then show ?thesis
    by (auto simp: pool_determineNodePoolPurpose_def kvs_def split: option.splits)
qed

text \<open>The order of \<open>range\<close> in which the key \<open>k\<close> comes first.\<close>

definition visit_first :: "string \<Rightarrow> string list \<Rightarrow> 'w \<Rightarrow> string list \<times> 'w" where
  "visit_first k ks w = (filter (\<lambda>x. x = k) ks @ filter (\<lambda>x. x \<noteq> k) ks, w)"

lemma range_permutes_visit_first: "range_permutes (R\<lparr>rt_range := visit_first k\<rparr>)"
  by (simp add: range_permutes_def visit_first_def)

lemma purpose_visit_first:
  assumes "is_go_map (np_Labels np)" "\<not> taint_hints_gpu (np_Taint np)"
    and "kv \<in> set (np_Labels np)" "label_hint kv = Some p"
  shows "fst (run_state (pool_determineNodePoolPurpose (R\<lparr>rt_range := visit_first (fst kv)\<rparr>) np) s) = p"
proof -
  have "distinct ks \<Longrightarrow> k \<in> set ks \<Longrightarrow> filter (\<lambda>x. x = k) ks = [k]" for k :: string and ks
    by (induction ks) (auto simp: filter_empty_conv)
  then have "filter (\<lambda>x. x = fst kv) (map fst (np_Labels np)) = [fst kv]"
    using assms(1,3) by (simp add: is_go_map_def)
  moreover have "map_of (np_Labels np) (fst kv) = Some (snd kv)"
    using assms(1,3) by (simp add: is_go_map_def)
  ultimately show ?thesis
    using assms(2,4)
    by (simp add: pool_determineNodePoolPurpose_def visit_first_def entries_in_order_def map_filter_simps)
qed

lemma first_label_hint_split:
  assumes "first_label_hint (entries_in_order m ks) = Some p"
  shows "\<exists>pre k v post. ks = pre @ k # post \<and> map_of m k = Some v \<and> label_hint (k, v) = Some p \<and>
    (\<forall>x\<in>set pre. \<forall>y. map_of m x = Some y \<longrightarrow> label_hint (x, y) = None)"
  using assms
proof (induction ks)
  case (Cons k ks)
  show ?case
  proof (cases "\<exists>v. map_of m k = Some v \<and> label_hint (k, v) \<noteq> None")
    case True
    then obtain v where "map_of m k = Some v" "label_hint (k, v) = Some p"
      using Cons.prems by (auto simp: entries_in_order_def map_filter_simps)
    then show ?thesis
      by (intro exI [of _ "[]"] exI [of _ k] exI [of _ v] exI [of _ ks]) simp
  next
    case False
    then have "first_label_hint (entries_in_order m ks) = Some p"
      using Cons.prems
      by (cases "map_of m k") (auto simp: entries_in_order_def map_filter_simps)
    from Cons.IH [OF this] obtain pre x v post where "ks = pre @ x # post" "map_of m x = Some v"
      "label_hint (x, v) = Some p" "\<forall>x\<in>set pre. \<forall>y. map_of m x = Some y \<longrightarrow> label_hint (x, y) = None" by blast
    with False show ?thesis
      by (intro exI [of _ "k # pre"] exI [of _ x] exI [of _ v] exI [of _ post]) auto
  qed
qed (simp add: entries_in_order_def map_filter_simps)

text \<open>C31. When no taint hints at a GPU and two labels of a pool hint at different purposes, the pool
  gets the purpose of the first label Go visits that hints at any; so under one iteration order of
  Go's it gets the one purpose and under another one the other.\<close>

theorem pool_purpose_order_dependent:
  assumes R: "range_permutes R" and m: "is_go_map (np_Labels np)" and taint: "\<not> taint_hints_gpu (np_Taint np)"
    and kv1: "kv1 \<in> set (np_Labels np)" "label_hint kv1 = Some p"
    and kv2: "kv2 \<in> set (np_Labels np)" "label_hint kv2 = Some q" and "p \<noteq> q"
  shows "(\<exists>pre k v post. fst (rt_range R (map fst (np_Labels np)) (world s)) = pre @ k # post \<and>
       map_of (np_Labels np) k = Some v \<and>
       label_hint (k, v) = Some (fst (run_state (pool_determineNodePoolPurpose R np) s)) \<and>
       (\<forall>x\<in>set pre. \<forall>y. map_of (np_Labels np) x = Some y \<longrightarrow> label_hint (x, y) = None)) \<and>
     (\<exists>R1. range_permutes R1 \<and> R1 = R\<lparr>rt_range := rt_range R1\<rparr> \<and>
        fst (run_state (pool_determineNodePoolPurpose R1 np) s) = p) \<and>
     (\<exists>R2. range_permutes R2 \<and> R2 = R\<lparr>rt_range := rt_range R2\<rparr> \<and>
        fst (run_state (pool_determineNodePoolPurpose R2 np) s) = q)"
proof (intro conjI)
  let ?ks = "fst (rt_range R (map fst (np_Labels np)) (world s))"
  have "set (entries_in_order (np_Labels np) ?ks) = set (np_Labels np)"
    using R m by (intro set_entries_in_order) (simp_all add: range_permutes_def)
  then obtain h where h: "first_label_hint (entries_in_order (np_Labels np) ?ks) = Some h"
    using kv1 first_label_hint_None [of "entries_in_order (np_Labels np) ?ks"] by force
  have "fst (run_state (pool_determineNodePoolPurpose R np) s) = h"
    using taint h by (simp add: pool_determineNodePoolPurpose_def)
  with first_label_hint_split [OF h]
  show "\<exists>pre k v post. ?ks = pre @ k # post \<and> map_of (np_Labels np) k = Some v \<and>
       label_hint (k, v) = Some (fst (run_state (pool_determineNodePoolPurpose R np) s)) \<and>
       (\<forall>x\<in>set pre. \<forall>y. map_of (np_Labels np) x = Some y \<longrightarrow> label_hint (x, y) = None)" by simp
  show "\<exists>R1. range_permutes R1 \<and> R1 = R\<lparr>rt_range := rt_range R1\<rparr> \<and>
        fst (run_state (pool_determineNodePoolPurpose R1 np) s) = p"
    by (rule exI [of _ "R\<lparr>rt_range := visit_first (fst kv1)\<rparr>"])
      (simp add: range_permutes_visit_first purpose_visit_first [OF m taint kv1])
  show "\<exists>R2. range_permutes R2 \<and> R2 = R\<lparr>rt_range := rt_range R2\<rparr> \<and>
        fst (run_state (pool_determineNodePoolPurpose R2 np) s) = q"
    by (rule exI [of _ "R\<lparr>rt_range := visit_first (fst kv2)\<rparr>"])
      (simp add: range_permutes_visit_first purpose_visit_first [OF m taint kv2])
qed

section \<open>The calls of the manager\<close>

lemma emits_pool_determineNodePoolPurpose [emits_intros]: "emits P (pool_determineNodePoolPurpose R np)"
  unfolding pool_determineNodePoolPurpose_def by (intro emits_intros)

text \<open>The VM-size manager rejects the size \<open>sz\<close> in the state \<open>t\<close>.\<close>

definition size_rejected ::
  "'w agent_pool_manager_impl \<Rightarrow> kubernetes_cluster \<Rightarrow> string \<Rightarrow> 'w st \<Rightarrow> bool" where
  "size_rejected M kc sz t \<longleftrightarrow>
     (case api_vmSizeManager M of
        None \<Rightarrow> False
      | Some V \<Rightarrow> fst (run_state (vsm_ValidateVMSize V (cd_Region (kc_Cluster kc)) sz) t) = Inr False)"

text \<open>What the manager relies on: its two services only read the sizing APIs.\<close>

locale pool_sizing =
  fixes M :: "'w agent_pool_manager_impl"
  assumes mapper: "api_mapper M = Some P \<Longrightarrow> machine_class_service P"
    and sizes: "api_vmSizeManager M = Some V \<Longrightarrow> vm_size_service V"
begin

lemma emits_resolve: "emits is_sizing_event (pool_resolveVMSize R M np location)"
  unfolding pool_resolveVMSize_def
  by (intro emits_intros machine_class_service.emits_map mapper)

lemma emits_check:
  "emits is_sizing_event
     (case api_vmSizeManager M of
        None \<Rightarrow> ret False
      | Some sizes \<Rightarrow>
          do {
            r \<leftarrow> vsm_ValidateVMSize sizes location vmSize;
            ret (case r of Inl _ \<Rightarrow> False | Inr valid \<Rightarrow> \<not> valid)
          })"
  by (intro emits_intros vm_size_service.emits_validate_sizing sizes)

lemma update_writes:
  assumes "run_state (UpdateAgentPool R M kc np) s = (r, s')"
  shows "\<exists>es e. trace s' = trace s @ es \<and> (\<forall>x\<in>set es. is_sizing_event x \<or> is_pool_write x) \<and>
    filter is_pool_write es =
      [AzPoolCreateOrUpdate (pool_getResourceGroupName kc) (pool_getClusterName kc) (np_Name np)
         (buildAgentPool np (fst (run_state (pool_resolveVMSize R M np (cd_Region (kc_Cluster kc))) s))) e]"
proof -
  obtain sz s1 where s1: "run_state (pool_resolveVMSize R M np (cd_Region (kc_Cluster kc))) s = (sz, s1)"
    by fastforce
  obtain es where es: "trace s1 = trace s @ es" "\<forall>e\<in>set es. is_sizing_event e"
    using emitsD [OF emits_resolve s1] .
  have "filter is_pool_write es = []"
    using es(2) by (auto simp: filter_empty_conv sizing_not_write)
  with es s1 show ?thesis
    using assms by (auto simp: UpdateAgentPool_def Let_def)
qed

lemma create_writes:
  assumes "run_state (CreateAgentPool R M kc np) s = (r, s')"
    and size: "run_state (pool_resolveVMSize R M np (cd_Region (kc_Cluster kc))) s = (sz, t)"
  shows "\<exists>es. trace s' = trace s @ es \<and> (\<forall>x\<in>set es. is_sizing_event x \<or> is_pool_write x) \<and>
    (if size_rejected M kc sz t then filter is_pool_write es = []
     else \<exists>e. filter is_pool_write es =
        [AzPoolCreateOrUpdate (pool_getResourceGroupName kc) (pool_getClusterName kc) (np_Name np)
           (buildAgentPool np sz) e])"
proof -
  let ?loc = "cd_Region (kc_Cluster kc)"
  note s1 = size
  let ?check = "case api_vmSizeManager M of
        None \<Rightarrow> ret False
      | Some sizes \<Rightarrow>
          do {
            r \<leftarrow> vsm_ValidateVMSize sizes ?loc sz;
            ret (case r of Inl _ \<Rightarrow> False | Inr valid \<Rightarrow> \<not> valid)
          }"
  obtain b s2 where s2: "run_state ?check t = (b, s2)" by fastforce
  have b: "b \<longleftrightarrow> size_rejected M kc sz t"
    using s2 by (auto simp: size_rejected_def split: option.splits sum.splits prod.splits)
  obtain es1 where es1: "trace t = trace s @ es1" "\<forall>e\<in>set es1. is_sizing_event e"
    using emitsD [OF emits_resolve s1] .
  obtain es2 where es2: "trace s2 = trace t @ es2" "\<forall>e\<in>set es2. is_sizing_event e"
    using emitsD [OF emits_check s2] .
  define es where "es = es1 @ es2"
  have es: "trace s2 = trace s @ es" "\<forall>e\<in>set es. is_sizing_event e"
    using es1 es2 by (auto simp: es_def)
  have no: "filter is_pool_write es = []"
    using es(2) by (auto simp: filter_empty_conv sizing_not_write)
  show ?thesis
  proof (cases b)
    case True
    then have "s' = s2"
      using assms s1 s2 by (simp add: CreateAgentPool_def Let_def)
    then show ?thesis using es no b True by auto
  next
    case False
    then show ?thesis
      using assms s1 s2 es no b by (auto simp: CreateAgentPool_def Let_def)
  qed
qed

end

interpretation operator_pools: pool_sizing
  "NewAgentPoolManager C (Some (NewVMSizeManager R VC))
     (Some (NewMachineClassMapper R \<lparr>mpr_client = K, mpr_vmSizeManager = NewVMSizeManager R' VC', mpr_sort = srt\<rparr>))"
  by (rule pool_sizing.intro)
    (auto simp: NewAgentPoolManager_def intro: mapper_impl.machine_class_service_axioms
      vm_size_impl.vm_size_service_axioms)

section \<open>The calls of a reconciliation\<close>

text \<open>
  What one desired pool costs when the loop reaches it in the state \<open>s\<close>: one \<open>CreateOrUpdate\<close> of
  its own name with the pool built from it and from the VM size resolved for it; nothing exactly
  when it does not exist yet and the VM-size manager rejects that size.
\<close>

definition pool_calls ::
  "'w runtime \<Rightarrow> 'w agent_pool_manager_impl \<Rightarrow> kubernetes_cluster \<Rightarrow> string set \<Rightarrow> node_pool \<Rightarrow> 'w st \<Rightarrow>
     event list \<Rightarrow> bool" where
  "pool_calls R M kc existing np s es \<longleftrightarrow>
     (let (sz, t) = run_state (pool_resolveVMSize R M np (cd_Region (kc_Cluster kc))) s
      in if np_Name np \<notin> existing \<and> size_rejected M kc sz t then es = []
         else \<exists>e. es = [AzPoolCreateOrUpdate (pool_getResourceGroupName kc) (pool_getClusterName kc)
                         (np_Name np) (buildAgentPool np sz) e])"

text \<open>The calls of all the desired pools: each pool is handled in the state its predecessors left.\<close>

inductive desired_calls ::
  "'w runtime \<Rightarrow> 'w agent_pool_manager_impl \<Rightarrow> kubernetes_cluster \<Rightarrow> string set \<Rightarrow> 'w st \<Rightarrow> node_pool list \<Rightarrow>
     event list list \<Rightarrow> bool"
  for R M kc existing where
  no_pool: "desired_calls R M kc existing s [] []"
| next_pool: "desired_calls R M kc existing s (np # nps) (cs # css)"
    if "pool_calls R M kc existing np s cs"
    and "t = (if np_Name np \<in> existing then snd (run_state (UpdateAgentPool R M kc np) s)
              else snd (run_state (CreateAgentPool R M kc np) s))"
    and "desired_calls R M kc existing t nps css"

lemma delete_undesired_calls:
  assumes "run_state (delete_undesired M kc desired ks) s = (u, s')"
  shows "\<exists>ds. trace s' = trace s @ ds \<and>
    list_all2 (\<lambda>p d. \<exists>e. d = AzPoolDelete (pool_getResourceGroupName kc) (pool_getClusterName kc) p e)
      (filter (\<lambda>p. p \<notin> set desired \<and> p \<noteq> ''system'') ks) ds"
  using assms
proof (induction ks arbitrary: s)
  case (Cons k ks)
  show ?case
  proof (cases "k \<notin> set desired \<and> k \<noteq> ''system''")
    case True
    obtain r s1 where s1: "run_state (DeleteAgentPool M kc k) s = (r, s1)" by fastforce
    then obtain e where e: "trace s1 = trace s @
        [AzPoolDelete (pool_getResourceGroupName kc) (pool_getClusterName kc) k e]"
      by (auto simp: DeleteAgentPool_def Let_def)
    have "run_state (delete_undesired M kc desired ks) s1 = (u, s')"
      using Cons.prems True s1 by simp
    from Cons.IH [OF this] e True show ?thesis by auto
  next
    case False
    then have "run_state (delete_undesired M kc desired ks) s = (u, s')"
      using Cons.prems by auto
    have skip: "filter (\<lambda>p. p \<notin> set desired \<and> p \<noteq> ''system'') (k # ks) =
        filter (\<lambda>p. p \<notin> set desired \<and> p \<noteq> ''system'') ks"
      using False by simp
    show ?thesis unfolding skip by (rule Cons.IH) fact
  qed
qed simp

context pool_sizing
begin

lemma reconcile_desired_calls:
  assumes "run_state (reconcile_desired R M kc existing nps) s = (Returned (), s')"
  shows "\<exists>es css. trace s' = trace s @ es \<and> filter is_pool_write es = concat css \<and>
    desired_calls R M kc (set (map fst existing)) s nps css"
  using assms
proof (induction nps arbitrary: s)
  case (Cons np nps)
  let ?ex = "set (map fst existing)"
  obtain sz t where size: "run_state (pool_resolveVMSize R M np (cd_Region (kc_Cluster kc))) s = (sz, t)"
    by fastforce
  have "\<exists>s1 es cs. trace s1 = trace s @ es \<and> filter is_pool_write es = cs \<and>
     pool_calls R M kc ?ex np s cs \<and>
     s1 = (if np_Name np \<in> ?ex then snd (run_state (UpdateAgentPool R M kc np) s)
           else snd (run_state (CreateAgentPool R M kc np) s)) \<and>
     run_state (reconcile_desired R M kc existing nps) s1 = (Returned (), s')"
  proof (cases "map_of existing (np_Name np)")
    case None
    then obtain r s1 where s1: "run_state (CreateAgentPool R M kc np) s = (Returned r, s1)"
      and rest: "run_state (reconcile_desired R M kc existing nps) s1 = (Returned (), s')"
      using Cons.prems by (auto split: outcome.splits prod.splits)
    have new: "np_Name np \<notin> ?ex" using None by (simp add: map_of_eq_None_iff)
    obtain es where es: "trace s1 = trace s @ es" and
      "if size_rejected M kc sz t then filter is_pool_write es = []
       else \<exists>e. filter is_pool_write es =
        [AzPoolCreateOrUpdate (pool_getResourceGroupName kc) (pool_getClusterName kc) (np_Name np)
           (buildAgentPool np sz) e]"
      using create_writes [OF s1 size] by blast
    then have "pool_calls R M kc ?ex np s (filter is_pool_write es)"
      using new by (simp add: pool_calls_def size)
    then show ?thesis
      using es new s1 rest by (intro exI [of _ s1] exI [of _ es] exI [of _ "filter is_pool_write es"]) simp
  next
    case (Some p)
    obtain r s1 where s1: "run_state (UpdateAgentPool R M kc np) s = (r, s1)" by fastforce
    then have rest: "run_state (reconcile_desired R M kc existing nps) s1 = (Returned (), s')"
      using Cons.prems Some by simp
    have old: "np_Name np \<in> ?ex" using Some by (force dest: map_of_SomeD)
    obtain es e where es: "trace s1 = trace s @ es" and
      "filter is_pool_write es =
        [AzPoolCreateOrUpdate (pool_getResourceGroupName kc) (pool_getClusterName kc) (np_Name np)
           (buildAgentPool np sz) e]"
      using update_writes [OF s1] size by auto
    then have "pool_calls R M kc ?ex np s (filter is_pool_write es)"
      using old by (simp add: pool_calls_def size)
    then show ?thesis
      using es old s1 rest by (intro exI [of _ s1] exI [of _ es] exI [of _ "filter is_pool_write es"]) simp
  qed
  then obtain s1 es cs where first: "trace s1 = trace s @ es" "filter is_pool_write es = cs"
      "pool_calls R M kc ?ex np s cs"
      "s1 = (if np_Name np \<in> ?ex then snd (run_state (UpdateAgentPool R M kc np) s)
             else snd (run_state (CreateAgentPool R M kc np) s))"
    and rest: "run_state (reconcile_desired R M kc existing nps) s1 = (Returned (), s')" by blast
  obtain fs css where "trace s' = trace s1 @ fs" "filter is_pool_write fs = concat css"
    "desired_calls R M kc ?ex s1 nps css"
    using Cons.IH [OF rest] by blast
  with first show ?case
    using desired_calls.next_pool [OF first(3,4)]
    by (intro exI [of _ "es @ fs"] exI [of _ "cs # css"]) simp
next
  case Nil
  then show ?case
    using desired_calls.no_pool by (intro exI [of _ "[]"]) auto
qed

end

lemma existing_pool_map_keys:
  "is_go_map (existing_pool_map pools)"
  "fst ` set (existing_pool_map pools) = {n. \<exists>p\<in>set pools. ap_Name p = Some n}"
proof -
  show "is_go_map (existing_pool_map pools)"
    unfolding existing_pool_map_def by (rule is_go_map_fold_update) simp
  have "fst ` set (existing_pool_map pools) = dom (map_of (existing_pool_map pools))"
    by (simp add: dom_map_of_conv_image_fst)
  also have "\<dots> = fst ` set (List.map_filter (\<lambda>pool. map_option (\<lambda>name. (name, pool)) (ap_Name pool)) pools)"
    by (simp add: existing_pool_map_def map_of_fold_update dom_map_of_conv_image_fst)
  also have "\<dots> = {n. \<exists>p\<in>set pools. ap_Name p = Some n}"
    by (force simp: set_map_filter)
  finally show "fst ` set (existing_pool_map pools) = {n. \<exists>p\<in>set pools. ap_Name p = Some n}" .
qed

text \<open>C6. A reconciliation of the agent pools that returns, with the pools listed, has written to
  Azure exactly this: for every desired pool, in order and whatever failed before, one
  create-or-update of that pool, built with the VM size resolved for it in the state the loop has
  reached, and nothing exactly when the pool is new and the VM-size manager then rejects this very
  size; after them one delete of every existing pool that is neither desired nor \<open>system\<close>, each
  once, and no other.\<close>

theorem reconcile_agent_pools_writes:
  fixes R :: "'w runtime"
  assumes M: "pool_sizing M" and R: "range_permutes R"
    and listed: "fst (apc_List (api_client M) (pool_getResourceGroupName kc) (pool_getClusterName kc) (world s))
                   = Inr pools"
    and run: "run_state (ReconcileAgentPools R M kc) s = (Returned r, s')"
  shows "r = None \<and>
    (\<exists>es css ps ds. trace s' = trace s @ es \<and> filter is_pool_write es = concat css @ ds \<and>
       desired_calls R M kc {n. \<exists>p\<in>set pools. ap_Name p = Some n}
         (snd (run_state (ListAgentPools M kc) s)) (tp_NodePools (kc_Topology kc)) css \<and>
       list_all2 (\<lambda>p d. \<exists>e. d = AzPoolDelete (pool_getResourceGroupName kc) (pool_getClusterName kc) p e) ps ds \<and>
       distinct ps \<and>
       set ps = {n. \<exists>p\<in>set pools. ap_Name p = Some n} -
         set (map np_Name (tp_NodePools (kc_Topology kc))) - {''system''})"
proof -
  let ?ex = "existing_pool_map pools" and ?nps = "tp_NodePools (kc_Topology kc)"
  obtain s1 where s1: "run_state (ListAgentPools M kc) s = (Inr pools, s1)"
    and t1: "trace s1 = trace s @ [AzPoolList (pool_getResourceGroupName kc) (pool_getClusterName kc) None]"
    using listed by (simp add: ListAgentPools_def Let_def)
  obtain x s2 where s2: "run_state (reconcile_desired R M kc ?ex ?nps) s1 = (x, s2)" by fastforce
  then have x: "x = Returned ()" using run s1
    by (cases x) (auto simp: ReconcileAgentPools_def Let_def)
  define ks where "ks = fst (rt_range R (map fst ?ex) (world s2))"
  define s3 where "s3 = s2\<lparr>world := snd (rt_range R (map fst ?ex) (world s2))\<rparr>"
  have del: "r = None" "run_state (delete_undesired M kc (map np_Name ?nps) ks) s3 = ((), s')"
    using run s1 s2 x
    by (auto simp: ReconcileAgentPools_def Let_def ks_def s3_def split: prod.splits)
  obtain es css where es: "trace s2 = trace s1 @ es" "filter is_pool_write es = concat css"
    "desired_calls R M kc (set (map fst ?ex)) s1 ?nps css"
    using pool_sizing.reconcile_desired_calls [OF M] s2 x by blast
  obtain ds where ds: "trace s' = trace s3 @ ds"
    "list_all2 (\<lambda>p d. \<exists>e. d = AzPoolDelete (pool_getResourceGroupName kc) (pool_getClusterName kc) p e)
       (filter (\<lambda>p. p \<notin> set (map np_Name ?nps) \<and> p \<noteq> ''system'') ks) ds"
    using delete_undesired_calls del(2) by blast
  have perm: "mset ks = mset (map fst ?ex)" using R by (simp add: ks_def range_permutes_def)
  have keys: "set ks = {n. \<exists>p\<in>set pools. ap_Name p = Some n}" "distinct ks"
    using mset_eq_setD [OF perm] mset_eq_imp_distinct_iff [OF perm] existing_pool_map_keys [of pools]
    by (simp_all add: is_go_map_def)
  have writes: "\<forall>d\<in>set ds. is_pool_write d"
    using ds(2) by (force simp: list_all2_conv_all_nth in_set_conv_nth)
  show ?thesis
    using t1 es ds keys writes existing_pool_map_keys(2) [of pools] del(1) s1
    by (intro conjI exI [of _ "[AzPoolList (pool_getResourceGroupName kc) (pool_getClusterName kc) None] @ es @ ds"]
        exI [of _ css] exI [of _ "filter (\<lambda>p. p \<notin> set (map np_Name ?nps) \<and> p \<noteq> ''system'') ks"]
        exI [of _ ds])
      (auto simp: s3_def is_pool_write_def filter_id_conv)
qed

lemma reconcile_desired_returns:
  assumes ids: "\<And>rg cl n ap w p. fst (apc_CreateOrUpdate (api_client M) rg cl n ap w) = Inr p \<Longrightarrow> ap_ID p \<noteq> None"
  shows "fst (run_state (reconcile_desired R M kc ex nps) t) = Returned ()"
proof (induction nps arbitrary: t)
  case (Cons np nps)
  have "fst (run_state (CreateAgentPool R M kc np) t) \<noteq> Panicked"
    by (auto simp: CreateAgentPool_def Let_def split: error_splits dest: ids)
  then show ?case
    using Cons by (auto split: outcome.splits prod.splits)
qed simp

lemma ReconcileAgentPools_listed:
  assumes ids: "\<And>rg cl n ap w p. fst (apc_CreateOrUpdate (api_client M) rg cl n ap w) = Inr p \<Longrightarrow> ap_ID p \<noteq> None"
    and l: "run_state (ListAgentPools M kc) s = (Inr pools, s1)"
  shows "fst (run_state (ReconcileAgentPools R M kc) s) = Returned None"
proof -
  let ?loop = "run_state (reconcile_desired R M kc (existing_pool_map pools) (tp_NodePools (kc_Topology kc))) s1"
  have "fst ?loop = Returned ()" by (rule reconcile_desired_returns [OF ids])
  then obtain s2 where "?loop = (Returned (), s2)" by (cases ?loop) simp
  then show ?thesis using l by (auto simp: ReconcileAgentPools_def Let_def split: prod.splits)
qed

text \<open>C29. If Azure's answer to every create-or-update carries an ID, reconciling the agent pools
  never panics, and the only error it returns is the listing's, when that is not a "not found": the
  failures of single pools are never reported.\<close>

theorem reconcile_agent_pools_errors:
  assumes ids: "\<And>rg cl n ap w p. fst (apc_CreateOrUpdate (api_client M) rg cl n ap w) = Inr p \<Longrightarrow> ap_ID p \<noteq> None"
  shows "\<exists>r. fst (run_state (ReconcileAgentPools R M kc) s) = Returned r \<and>
     r = (case fst (run_state (ListAgentPools M kc) s) of
            Inr pools \<Rightarrow> None
          | Inl e \<Rightarrow> if Contains (err_text e) ''not found'' \<or> Contains (err_text e) ''ResourceNotFound''
                    then None else Some e)"
proof (cases "run_state (ListAgentPools M kc) s")
  case (Pair l s1)
  show ?thesis
  proof (cases l)
    case (Inr pools)
    then show ?thesis using Pair ReconcileAgentPools_listed [OF ids] by fastforce
  qed (use Pair in \<open>auto simp: ReconcileAgentPools_def\<close>)
qed

section \<open>The pool Azure is asked for\<close>

text \<open>The pool built from a node pool clamps its counts to 32 bits instead of wrapping them, asks
  for bounds exactly when autoscaling is on, and carries the node pool's size, labels and one taint
  string per taint.\<close>

theorem build_agent_pool_faithful:
  "\<exists>pp. ap_Properties (buildAgentPool np sz) = Some pp \<and>
     pp_VMSize pp = Some sz \<and> pp_Mode pp = Some ''User'' \<and>
     map_option sint (pp_Count pp) = Some (max (- (2 ^ 31)) (min (2 ^ 31 - 1) (sint (np_Replicas np)))) \<and>
     pp_EnableAutoScaling pp = Some (as_Enabled (np_Autoscaling np)) \<and>
     map_option sint (pp_MinCount pp) =
       (if as_Enabled (np_Autoscaling np)
        then Some (max (- (2 ^ 31)) (min (2 ^ 31 - 1) (sint (as_MinReplicas (np_Autoscaling np))))) else None) \<and>
     map_option sint (pp_MaxCount pp) =
       (if as_Enabled (np_Autoscaling np)
        then Some (max (- (2 ^ 31)) (min (2 ^ 31 - 1) (sint (as_MaxReplicas (np_Autoscaling np))))) else None) \<and>
     pp_NodeLabels pp = (if np_Labels np = [] then None else Some (map_of (np_Labels np))) \<and>
     map_option length (pp_NodeTaints pp) = (if np_Taint np = [] then None else Some (length (np_Taint np))) \<and>
     pp_OrchestratorVersion pp = (if np_Version np = [] then None else Some (np_Version np))"
  by (simp add: buildAgentPool_def Let_def empty_pool_properties_def sint_safeIntToInt32)

section \<open>Witnesses\<close>

text \<open>The order of the fixtures and the reverse one give the node pool of the fixtures the hints of
  its first and of its last label.\<close>

theorem pool_purpose_order_dependent_witness:
  "fst (run_state (pool_determineNodePoolPurpose fx_runtime fx_node_pool) fx_state) = VMPurposeComputeOptimized \<and>
   (\<exists>R. range_permutes R \<and>
      fst (run_state (pool_determineNodePoolPurpose R fx_node_pool) fx_state) = VMPurposeMemoryOptimized)"
proof -
  have labels: "np_Labels fx_node_pool = [(''compute'', ''yes''), (''memory'', ''high'')]"
    "is_go_map (np_Labels fx_node_pool)" "\<not> taint_hints_gpu (np_Taint fx_node_pool)"
    by (simp_all add: fx_node_pool_def is_go_map_def)
  have hints: "label_hint (''compute'', ''yes'') = Some VMPurposeComputeOptimized"
    "label_hint (''memory'', ''high'') = Some VMPurposeMemoryOptimized"
    by (simp_all add: label_hint_def string_eval)
  have "\<exists>R2. range_permutes R2 \<and> R2 = fx_runtime\<lparr>rt_range := rt_range R2\<rparr> \<and>
      fst (run_state (pool_determineNodePoolPurpose R2 fx_node_pool) fx_state) = VMPurposeMemoryOptimized"
    by (rule conjunct2 [OF conjunct2 [OF pool_purpose_order_dependent
          [OF fx_range_permutes labels(2,3) _ hints(1) _ hints(2)]]])
      (simp_all add: labels(1) purpose_defs)
  moreover have "fst (run_state (pool_determineNodePoolPurpose fx_runtime fx_node_pool) fx_state) =
      VMPurposeComputeOptimized"
    by (simp add: pool_determineNodePoolPurpose_def fx_runtime_def fx_node_pool_def entries_in_order_def
      map_filter_simps label_hint_def string_eval)
  ultimately show ?thesis by blast
qed

theorem pool_purpose_unambiguous_witness:
  "fst (run_state (pool_determineNodePoolPurpose fx_runtime
      (fx_node_pool\<lparr>np_Labels := [(''tier'', ''memory''), (''zone'', ''a'')]\<rparr>)) fx_state) = VMPurposeMemoryOptimized"
proof -
  let ?np = "fx_node_pool\<lparr>np_Labels := [(''tier'', ''memory''), (''zone'', ''a'')]\<rparr>"
  have m: "is_go_map (np_Labels ?np)" by (simp add: is_go_map_def)
  have hints: "map label_hint (np_Labels ?np) = [Some VMPurposeMemoryOptimized, None]"
    by (simp add: label_hint_def string_eval)
  have a: "q = VMPurposeMemoryOptimized" if "kv \<in> set (np_Labels ?np)" "label_hint kv = Some q" for kv q
    using that hints by auto
  show ?thesis
    using pool_purpose_unambiguous [OF fx_range_permutes m a] hints
    by (simp add: fx_node_pool_def)
qed

definition fx_pool :: "string \<Rightarrow> agent_pool" where
  "fx_pool name = \<lparr>ap_ID = Some ''id'', ap_Name = Some name, ap_Properties = None\<rparr>"

definition fx_pool_manager :: "fx_world agent_pool_manager_impl" where
  "fx_pool_manager = NewAgentPoolManager (fx_pools [fx_pool ''system'', fx_pool ''old'']) None None"

lemma fx_pool_sizing: "pool_sizing fx_pool_manager"
  by (rule pool_sizing.intro) (simp_all add: fx_pool_manager_def NewAgentPoolManager_def)

theorem reconcile_agent_pools_writes_witness:
  "\<exists>es cs d. trace (snd (run_state (ReconcileAgentPools fx_runtime fx_pool_manager fx_cluster) fx_state)) = es \<and>
     filter is_pool_write es = cs @ [d] \<and> (\<exists>e. d = AzPoolDelete ''team'' ''c1'' ''old'' e)"
proof -
  let ?run = "run_state (ReconcileAgentPools fx_runtime fx_pool_manager fx_cluster) fx_state"
  have l: "fst (apc_List (api_client fx_pool_manager) (pool_getResourceGroupName fx_cluster)
      (pool_getClusterName fx_cluster) (world fx_state)) = Inr [fx_pool ''system'', fx_pool ''old'']"
    by (simp add: fx_pool_manager_def NewAgentPoolManager_def fx_pools_def)
  have ids: "ap_ID p \<noteq> None" if "fst (apc_CreateOrUpdate (api_client fx_pool_manager) rg cl n ap w) = Inr p"
    for rg cl n ap w p
    using that by (auto simp: fx_pool_manager_def NewAgentPoolManager_def fx_pools_def)
  have "run_state (ListAgentPools fx_pool_manager fx_cluster) fx_state =
      (Inr [fx_pool ''system'', fx_pool ''old''], snd (run_state (ListAgentPools fx_pool_manager fx_cluster) fx_state))"
    using l by (simp add: ListAgentPools_def Let_def)
  from ReconcileAgentPools_listed [OF ids this] have "fst ?run = Returned None" .
  then have run: "?run = (Returned None, snd ?run)" by (simp add: prod_eq_iff)
  obtain es css ps ds where w: "trace (snd ?run) = trace fx_state @ es" "filter is_pool_write es = concat css @ ds"
    "list_all2 (\<lambda>p d. \<exists>e. d = AzPoolDelete (pool_getResourceGroupName fx_cluster) (pool_getClusterName fx_cluster) p e) ps ds"
    "distinct ps" "set ps = {n. \<exists>p\<in>set [fx_pool ''system'', fx_pool ''old'']. ap_Name p = Some n} -
         set (map np_Name (tp_NodePools (kc_Topology fx_cluster))) - {''system''}"
    using conjunct2 [OF reconcile_agent_pools_writes [OF fx_pool_sizing fx_range_permutes l run]]
    by (elim exE conjE) (rule that)
  have "set ps = {''old''}"
    unfolding w(5) by (auto simp: fx_pool_def fx_cluster_def fx_node_pool_def)
  then have "ps = [''old'']"
    using w(4) by (cases ps; cases "tl ps") auto
  then obtain d where "ds = [d]" "\<exists>e. d = AzPoolDelete ''team'' ''c1'' ''old'' e"
    using w(3) by (auto simp: list_all2_Cons1 pool_getResourceGroupName_def pool_getClusterName_def fx_cluster_def)
  then show ?thesis using w(1,2) by (auto simp: fx_state_def)
qed

theorem reconcile_agent_pools_errors_witness:
  "\<exists>r. fst (run_state (ReconcileAgentPools fx_runtime fx_pool_manager fx_cluster) fx_state) = Returned r \<and> r = None"
  using reconcile_agent_pools_errors [of fx_pool_manager fx_runtime fx_cluster fx_state]
  by (auto simp: fx_pool_manager_def NewAgentPoolManager_def fx_pools_def ListAgentPools_def Let_def)

section \<open>The service the cluster manager uses\<close>

definition is_pool_reconcile_event :: "event \<Rightarrow> bool" where
  "is_pool_reconcile_event e \<longleftrightarrow> is_pool_event e \<or> is_sizing_event e"

text \<open>A reconciliation of the agent pools calls the agent-pool and sizing APIs only.\<close>

locale agent_pool_service =
  fixes A :: "'w agent_pool_manager"
  assumes emits_reconcile: "emits is_pool_reconcile_event (apm_ReconcileAgentPools A kc)"

context pool_sizing
begin

lemma emits_resolve': "emits is_pool_reconcile_event (pool_resolveVMSize R M np location)"
  by (rule emits_mono [OF emits_resolve]) (simp add: is_pool_reconcile_event_def)

lemma emits_check':
  "api_vmSizeManager M = Some V \<Longrightarrow> emits is_pool_reconcile_event (vsm_ValidateVMSize V location vmSize)"
  by (rule emits_mono [OF vm_size_service.emits_validate_sizing [OF sizes]])
    (simp_all add: is_pool_reconcile_event_def)

lemma emits_pool_operations:
  "emits is_pool_reconcile_event (CreateAgentPool R M kc np)"
  "emits is_pool_reconcile_event (UpdateAgentPool R M kc np)"
  "emits is_pool_reconcile_event (DeleteAgentPool M kc name)"
  "emits is_pool_reconcile_event (ListAgentPools M kc)"
  unfolding CreateAgentPool_def UpdateAgentPool_def DeleteAgentPool_def ListAgentPools_def
  by (intro emits_intros emits_resolve' emits_check'; simp add: is_pool_reconcile_event_def)+

lemma emits_reconcile_desired: "emits is_pool_reconcile_event (reconcile_desired R M kc ex nps)"
  by (induction nps) (auto intro!: emits_intros emits_pool_operations)

lemma emits_delete_undesired: "emits is_pool_reconcile_event (delete_undesired M kc desired ks)"
  by (induction ks) (auto intro!: emits_intros emits_pool_operations)

lemma pools_are_service: "agent_pool_service (agent_pool_manager_of R M)"
  unfolding agent_pool_manager_of_def
  by unfold_locales
    (auto simp: ReconcileAgentPools_def
      intro!: emits_intros emits_pool_operations emits_reconcile_desired emits_delete_undesired)

end

interpretation pool_service: agent_pool_service
  "agent_pool_manager_of R0 (NewAgentPoolManager C (Some (NewVMSizeManager R VC))
     (Some (NewMachineClassMapper R \<lparr>mpr_client = K, mpr_vmSizeManager = NewVMSizeManager R' VC', mpr_sort = srt\<rparr>)))"
  by (rule operator_pools.pools_are_service)

end
