(* ===== verification/AKSCluster.thy ===== *)
theory AKSCluster
  imports AgentPool
begin

text \<open>
  \<open>internal/managers/aks_cluster_manager.go\<close>: the managed cluster. It is built from the
  \<open>KubernetesCluster\<close> and created, updated, deleted and read through the Azure client;
  \<open>ReconcileCluster\<close> decides which of these a reconciliation needs.
\<close>

section \<open>Names and versions\<close>

definition getResourceGroupName :: "kubernetes_cluster \<Rightarrow> string" where
  "getResourceGroupName kc =
     (if cd_Project (kc_Cluster kc) \<noteq> [] then cd_Project (kc_Cluster kc) else kc_Namespace kc)"

definition getClusterName :: "kubernetes_cluster \<Rightarrow> string" where
  "getClusterName kc = cd_ClusterId (kc_Cluster kc)"

definition getDNSPrefix :: "kubernetes_cluster \<Rightarrow> string" where
  "getDNSPrefix kc = cd_ClusterId (kc_Cluster kc)"

definition getKubernetesVersion :: "'w runtime \<Rightarrow> kubernetes_cluster \<Rightarrow> string" where
  "getKubernetesVersion R kc =
     (if tp_Version (kc_Topology kc) \<noteq> [] then tp_Version (kc_Topology kc)
      else if cp_Version (tp_ControlPlane (kc_Topology kc)) \<noteq> []
      then cp_Version (tp_ControlPlane (kc_Topology kc))
      else (let defaultVersion = rt_getenv R ''DEFAULT_KUBERNETES_VERSION'' in
            if defaultVersion \<noteq> [] then defaultVersion else ''1.30''))"

definition buildTags :: "kubernetes_cluster \<Rightarrow> string \<rightharpoonup> string" where
  "buildTags kc =
     (let tags0 = [''vitistack-cluster-id'' \<mapsto> cd_ClusterId (kc_Cluster kc),
                   ''vitistack-name'' \<mapsto> kc_Name kc,
                   ''vitistack-namespace'' \<mapsto> kc_Namespace kc,
                   ''environment'' \<mapsto> cd_Environment (kc_Cluster kc),
                   ''managed-by'' \<mapsto> ''vitistack-aks-operator''];
          tags1 = (if cd_Project (kc_Cluster kc) \<noteq> []
                   then tags0(''project'' \<mapsto> cd_Project (kc_Cluster kc)) else tags0)
      in if cd_Workspace (kc_Cluster kc) \<noteq> []
         then tags1(''workspace'' \<mapsto> cd_Workspace (kc_Cluster kc)) else tags1)"

section \<open>VM sizes\<close>

definition determineNodePoolPurpose :: "'w runtime \<Rightarrow> node_pool \<Rightarrow> ('w, vm_purpose) go" where
  "determineNodePoolPurpose R np =
     (if taint_hints_gpu (np_Taint np) then ret VMPurposeGPU
      else do {
        ks \<leftarrow> range_keys R (map fst (np_Labels np));
        ret (case first_label_hint (entries_in_order (np_Labels np) ks) of
               Some p \<Rightarrow> p
             | None \<Rightarrow> class_hint (np_MachineClass np))
      })"

definition cluster_staticMappings :: "(string \<times> vm_sizes) list" where
  "cluster_staticMappings =
     [(machineClassSmall,
       \<lparr>vz_generalPurpose = vmSizeStandardD2sV5, vz_computeOptimized = vmSizeStandardF2sV2,
        vz_memoryOptimized = vmSizeStandardE2sV5, vz_gpu = vmSizeStandardNC4asT4V3\<rparr>),
      (machineClassMedium, sizes_medium),
      (machineClassLarge,
       \<lparr>vz_generalPurpose = vmSizeStandardD8sV5, vz_computeOptimized = vmSizeStandardF8sV2,
        vz_memoryOptimized = vmSizeStandardE8sV5, vz_gpu = vmSizeStandardNC16asT4V3\<rparr>),
      (machineClassXLarge,
       \<lparr>vz_generalPurpose = vmSizeStandardD16sV5, vz_computeOptimized = vmSizeStandardF16sV2,
        vz_memoryOptimized = vmSizeStandardE16sV5, vz_gpu = vmSizeStandardNC64asT4V3\<rparr>),
      (machineClassLargeCPU,
       \<lparr>vz_generalPurpose = vmSizeStandardF8sV2, vz_computeOptimized = vmSizeStandardF8sV2,
        vz_memoryOptimized = vmSizeStandardF8sV2, vz_gpu = vmSizeStandardNC6sV3\<rparr>),
      (machineClassLargeMemory,
       \<lparr>vz_generalPurpose = vmSizeStandardE8sV5, vz_computeOptimized = vmSizeStandardE8sV5,
        vz_memoryOptimized = vmSizeStandardE8sV5, vz_gpu = vmSizeStandardNC6sV3\<rparr>),
      (''gpu'',
       \<lparr>vz_generalPurpose = vmSizeStandardNC6sV3, vz_computeOptimized = vmSizeStandardNC6sV3,
        vz_memoryOptimized = vmSizeStandardNC6sV3, vz_gpu = vmSizeStandardNC6sV3\<rparr>)]"

definition staticFallbackVMSize :: "string \<Rightarrow> vm_purpose \<Rightarrow> string" where
  "staticFallbackVMSize machineClass purpose =
     (let sizes = (case map_of cluster_staticMappings (ToLower machineClass) of
                     Some d \<Rightarrow> d
                   | None \<Rightarrow> sizes_medium)
      in if purpose = VMPurposeComputeOptimized then vz_computeOptimized sizes
         else if purpose = VMPurposeMemoryOptimized then vz_memoryOptimized sizes
         else if purpose = VMPurposeGPU then vz_gpu sizes
         else vz_generalPurpose sizes)"

section \<open>The manager\<close>

record 'w aks_cluster_manager_impl =
  aki_client :: "'w managed_cluster_client"
  aki_agentPoolManager :: "'w agent_pool_manager option"
  aki_mapper :: "'w machine_class_mapper option"

definition NewAKSClusterManager ::
  "'w managed_cluster_client \<Rightarrow> 'w agent_pool_manager option \<Rightarrow> 'w machine_class_mapper option \<Rightarrow>
     'w aks_cluster_manager_impl" where
  "NewAKSClusterManager client pools mapper =
     \<lparr>aki_client = client, aki_agentPoolManager = pools, aki_mapper = mapper\<rparr>"

definition resolveVMSize ::
  "'w aks_cluster_manager_impl \<Rightarrow> string \<Rightarrow> string \<Rightarrow> vm_purpose \<Rightarrow> ('w, string) go" where
  "resolveVMSize M machineClass location preferredPurpose =
     (if HasPrefix machineClass ''Standard_'' then ret machineClass
      else (case aki_mapper M of
              None \<Rightarrow> ret (staticFallbackVMSize machineClass preferredPurpose)
            | Some mapper \<Rightarrow>
                do {
                  r \<leftarrow> mcm_MapMachineClassToVMSize mapper machineClass location preferredPurpose;
                  ret (case r of
                         Inl _ \<Rightarrow> staticFallbackVMSize machineClass preferredPurpose
                       | Inr mapping \<Rightarrow> mm_VMSize mapping)
                }))"

definition profile_of :: "node_pool \<Rightarrow> string \<Rightarrow> pool_profile" where
  "profile_of np vmSize =
     (let p0 = empty_pool_properties
                 \<lparr>pp_Count := Some (safeIntToInt32 (np_Replicas np)), pp_VMSize := Some vmSize,
                  pp_Mode := Some ''User'', pp_OSType := Some ''Linux'',
                  pp_Type := Some ''VirtualMachineScaleSets''\<rparr>;
          p1 = (if as_Enabled (np_Autoscaling np)
                then p0\<lparr>pp_EnableAutoScaling := Some True,
                        pp_MinCount := Some (safeIntToInt32 (as_MinReplicas (np_Autoscaling np))),
                        pp_MaxCount := Some (safeIntToInt32 (as_MaxReplicas (np_Autoscaling np)))\<rparr>
                else p0\<lparr>pp_EnableAutoScaling := Some False\<rparr>);
          p2 = (if np_Taint np \<noteq> [] then p1\<lparr>pp_NodeTaints := Some (map taint_string (np_Taint np))\<rparr> else p1);
          p3 = (if np_Labels np \<noteq> [] then p2\<lparr>pp_NodeLabels := Some (map_of (np_Labels np))\<rparr> else p2)
      in \<lparr>prof_Name = Some (np_Name np), prof_Properties = p3\<rparr>)"

definition buildAgentPoolProfile ::
  "'w runtime \<Rightarrow> 'w aks_cluster_manager_impl \<Rightarrow> node_pool \<Rightarrow> string \<Rightarrow> ('w, pool_profile) go" where
  "buildAgentPoolProfile R M np location =
     do {
       purpose \<leftarrow> determineNodePoolPurpose R np;
       vmSize \<leftarrow> resolveVMSize M (np_MachineClass np) location purpose;
       ret (profile_of np vmSize)
     }"

fun build_worker_profiles ::
  "'w runtime \<Rightarrow> 'w aks_cluster_manager_impl \<Rightarrow> string \<Rightarrow> node_pool list \<Rightarrow> ('w, pool_profile list) go" where
  "build_worker_profiles R M location [] = ret []"
| "build_worker_profiles R M location (np # nps) =
     do {
       p \<leftarrow> buildAgentPoolProfile R M np location;
       ps \<leftarrow> build_worker_profiles R M location nps;
       ret (p # ps)
     }"

definition system_profile :: "control_plane \<Rightarrow> string \<Rightarrow> pool_profile" where
  "system_profile cp vmSize =
     \<lparr>prof_Name = Some ''system'',
      prof_Properties = empty_pool_properties
        \<lparr>pp_Count := Some (safeIntToInt32 (cp_Replicas cp)), pp_VMSize := Some vmSize,
         pp_Mode := Some ''System'', pp_OSType := Some ''Linux'',
         pp_Type := Some ''VirtualMachineScaleSets'', pp_EnableAutoScaling := Some False\<rparr>\<rparr>"

definition buildInitialAgentPoolProfiles ::
  "'w runtime \<Rightarrow> 'w aks_cluster_manager_impl \<Rightarrow> kubernetes_cluster \<Rightarrow> ('w, pool_profile list) go" where
  "buildInitialAgentPoolProfiles R M kc =
     (let nodePools = tp_NodePools (kc_Topology kc);
          location = cd_Region (kc_Cluster kc);
          controlPlane = tp_ControlPlane (kc_Topology kc)
      in do {
        vmSize \<leftarrow> resolveVMSize M (cp_MachineClass controlPlane) location VMPurposeGeneralPurpose;
        ps \<leftarrow> build_worker_profiles R M location nodePools;
        ret (system_profile controlPlane vmSize # ps)
      })"

definition buildManagedCluster ::
  "'w runtime \<Rightarrow> 'w aks_cluster_manager_impl \<Rightarrow> kubernetes_cluster \<Rightarrow> string \<Rightarrow> ('w, managed_cluster) go" where
  "buildManagedCluster R M kc location =
     do {
       agentPoolProfiles \<leftarrow> buildInitialAgentPoolProfiles R M kc;
       ret \<lparr>mc_ID = None, mc_Location = Some location, mc_Tags = Some (buildTags kc),
            mc_IdentityType = Some ''SystemAssigned'',
            mc_Properties = Some
              \<lparr>mp_DNSPrefix = Some (getDNSPrefix kc),
               mp_KubernetesVersion = Some (getKubernetesVersion R kc),
               mp_AgentPoolProfiles = Some agentPoolProfiles,
               mp_EnableRBAC = Some True,
               mp_NetworkProfile = Some \<lparr>net_NetworkPlugin = ''azure'', net_NetworkPolicy = ''azure''\<rparr>,
               mp_ProvisioningState = None, mp_Fqdn = None\<rparr>\<rparr>
     }"

section \<open>Operations\<close>

definition CreateCluster ::
  "'w runtime \<Rightarrow> 'w aks_cluster_manager_impl \<Rightarrow> kubernetes_cluster \<Rightarrow> ('w, (go_error + managed_cluster) outcome) go" where
  "CreateCluster R M kc =
     (let resourceGroupName = getResourceGroupName kc; clusterName = getClusterName kc;
          location = cd_Region (kc_Cluster kc)
      in do {
        managedCluster \<leftarrow> buildManagedCluster R M kc location;
        r \<leftarrow> call (\<lambda>r. AzClusterCreateOrUpdate resourceGroupName clusterName managedCluster (sum_error r))
               (mcc_CreateOrUpdate (aki_client M) resourceGroupName clusterName managedCluster);
        ret (case r of
               Inl err \<Rightarrow> Returned (Inl (wrap_error ''failed to create AKS cluster'' err))
             | Inr result \<Rightarrow> (case mc_ID result of None \<Rightarrow> Panicked | Some _ \<Rightarrow> Returned (Inr result)))
      })"

definition UpdateCluster ::
  "'w runtime \<Rightarrow> 'w aks_cluster_manager_impl \<Rightarrow> kubernetes_cluster \<Rightarrow> ('w, (go_error + managed_cluster) outcome) go" where
  "UpdateCluster R M kc =
     (let resourceGroupName = getResourceGroupName kc; clusterName = getClusterName kc;
          location = cd_Region (kc_Cluster kc)
      in do {
        managedCluster \<leftarrow> buildManagedCluster R M kc location;
        r \<leftarrow> call (\<lambda>r. AzClusterCreateOrUpdate resourceGroupName clusterName managedCluster (sum_error r))
               (mcc_CreateOrUpdate (aki_client M) resourceGroupName clusterName managedCluster);
        ret (case r of
               Inl err \<Rightarrow> Returned (Inl (wrap_error ''failed to update AKS cluster'' err))
             | Inr result \<Rightarrow> (case mc_ID result of None \<Rightarrow> Panicked | Some _ \<Rightarrow> Returned (Inr result)))
      })"

definition deleted_already :: "go_error \<Rightarrow> bool" where
  "deleted_already err \<longleftrightarrow>
     Contains (err_text err) ''ResourceGroupNotFound'' \<or> Contains (err_text err) ''ResourceNotFound'' \<or>
     Contains (err_text err) ''not found'' \<or> Contains (err_text err) ''404''"

definition DeleteCluster ::
  "'w aks_cluster_manager_impl \<Rightarrow> kubernetes_cluster \<Rightarrow> ('w, go_error option) go" where
  "DeleteCluster M kc =
     (let resourceGroupName = getResourceGroupName kc; clusterName = getClusterName kc
      in do {
        e \<leftarrow> call (AzClusterDelete resourceGroupName clusterName)
               (mcc_Delete (aki_client M) resourceGroupName clusterName);
        ret (case e of
               None \<Rightarrow> None
             | Some err \<Rightarrow>
                 if deleted_already err then None
                 else Some (wrap_error ''failed to delete AKS cluster'' err))
      })"

definition GetCluster ::
  "'w aks_cluster_manager_impl \<Rightarrow> kubernetes_cluster \<Rightarrow> ('w, go_error + managed_cluster) go" where
  "GetCluster M kc =
     (let resourceGroupName = getResourceGroupName kc; clusterName = getClusterName kc
      in do {
        r \<leftarrow> call (\<lambda>r. AzClusterGet resourceGroupName clusterName (sum_error r))
               (mcc_Get (aki_client M) resourceGroupName clusterName);
        ret (case r of Inl err \<Rightarrow> Inl (wrap_error ''failed to get AKS cluster'' err) | Inr c \<Rightarrow> Inr c)
      })"

definition GetClusterCredentials ::
  "'w aks_cluster_manager_impl \<Rightarrow> kubernetes_cluster \<Rightarrow> ('w, go_error + credential_results) go" where
  "GetClusterCredentials M kc =
     (let resourceGroupName = getResourceGroupName kc; clusterName = getClusterName kc
      in do {
        r \<leftarrow> call (\<lambda>r. AzClusterCredentials resourceGroupName clusterName (sum_error r))
               (mcc_ListClusterAdminCredentials (aki_client M) resourceGroupName clusterName);
        ret (case r of
               Inl err \<Rightarrow> Inl (wrap_error ''failed to get AKS cluster credentials'' err)
             | Inr c \<Rightarrow> Inr c)
      })"

fun system_pool :: "pool_profile list \<Rightarrow> pool_profile option" where
  "system_pool [] = None"
| "system_pool (pool # pools) =
     (if prof_Name pool = Some ''system'' then Some pool else system_pool pools)"

text \<open>The bound the code gives to \<open>min\<close>: the complement of a zero \<open>int32\<close>, as an \<open>int\<close>.\<close>

definition max_replicas :: go_int where
  "max_replicas = scast (NOT (0 :: go_int32))"

definition desired_count :: "go_int \<Rightarrow> go_int32" where
  "desired_count replicas =
     (let capped = (if replicas <s max_replicas then replicas else max_replicas) in ucast capped)"

definition needsUpdate ::
  "'w runtime \<Rightarrow> 'w aks_cluster_manager_impl \<Rightarrow> kubernetes_cluster \<Rightarrow> managed_cluster \<Rightarrow> ('w, bool) go" where
  "needsUpdate R M kc existingCluster =
     (case mc_Properties existingCluster of
        None \<Rightarrow> ret True
      | Some props \<Rightarrow>
          (let desiredVersion = getKubernetesVersion R kc;
               controlPlane = tp_ControlPlane (kc_Topology kc)
           in if (case mp_KubernetesVersion props of
                    None \<Rightarrow> False
                  | Some currentVersion \<Rightarrow> desiredVersion \<noteq> currentVersion)
              then ret True
              else (case mp_AgentPoolProfiles props of
                      None \<Rightarrow> ret False
                    | Some profiles \<Rightarrow>
                        if \<not> 0 <s cp_Replicas controlPlane then ret False
                        else (case system_pool profiles of
                                None \<Rightarrow> ret False
                              | Some pool \<Rightarrow>
                                  (let pp = prof_Properties pool in
                                   if (case pp_Count pp of
                                         None \<Rightarrow> False
                                       | Some c \<Rightarrow> c \<noteq> desired_count (cp_Replicas controlPlane))
                                   then ret True
                                   else do {
                                     desiredVMSize \<leftarrow> resolveVMSize M (cp_MachineClass controlPlane)
                                                       (cd_Region (kc_Cluster kc)) VMPurposeGeneralPurpose;
                                     ret (case pp_VMSize pp of
                                            None \<Rightarrow> False
                                          | Some sz \<Rightarrow> sz \<noteq> desiredVMSize)
                                   })))))"

definition provisioning_state :: "managed_cluster \<Rightarrow> string option" where
  "provisioning_state c = Option.bind (mc_Properties c) mp_ProvisioningState"

definition operation_in_progress :: "managed_cluster \<Rightarrow> bool" where
  "operation_in_progress c \<longleftrightarrow>
     (case provisioning_state c of
        None \<Rightarrow> False
      | Some st \<Rightarrow> st = ''Creating'' \<or> st = ''Updating'' \<or> st = ''Deleting'')"

definition update_conflict :: "go_error \<Rightarrow> bool" where
  "update_conflict err \<longleftrightarrow>
     Contains (err_text err) ''409'' \<or> Contains (err_text err) ''Conflict'' \<or>
     Contains (err_text err) ''OperationNotAllowed'' \<or> Contains (err_text err) ''in progress''"

text \<open>A Go pair of a result that may be nil and an error.\<close>

type_synonym reconcile_result = "(managed_cluster option \<times> go_error option) outcome"

fun as_pair :: "(go_error + managed_cluster) outcome \<Rightarrow> reconcile_result" where
  "as_pair (Returned (Inl err)) = Returned (None, Some err)"
| "as_pair (Returned (Inr c)) = Returned (Some c, None)"
| "as_pair Panicked = Panicked"

text \<open>The last log line dereferences the provisioning state of the cluster read at the start.\<close>

definition reconciled :: "managed_cluster \<Rightarrow> managed_cluster \<Rightarrow> reconcile_result" where
  "reconciled existingCluster result =
     (case provisioning_state existingCluster of
        None \<Rightarrow> Panicked
      | Some _ \<Rightarrow> Returned (Some result, None))"

definition ReconcileCluster ::
  "'w runtime \<Rightarrow> 'w aks_cluster_manager_impl \<Rightarrow> kubernetes_cluster \<Rightarrow> ('w, reconcile_result) go" where
  "ReconcileCluster R M kc =
     do {
       g \<leftarrow> GetCluster M kc;
       (case g of
          Inl err \<Rightarrow>
            if Contains (err_text err) ''not found'' \<or> Contains (err_text err) ''ResourceNotFound''
            then do {
              r \<leftarrow> CreateCluster R M kc;
              ret (as_pair r)
            }
            else ret (Returned (None, Some err))
        | Inr existingCluster \<Rightarrow>
            if operation_in_progress existingCluster then ret (Returned (Some existingCluster, None))
            else do {
              update \<leftarrow> needsUpdate R M kc existingCluster;
              (if \<not> update then ret (Returned (Some existingCluster, None))
               else do {
                 r \<leftarrow> UpdateCluster R M kc;
                 (case r of
                    Panicked \<Rightarrow> ret Panicked
                  | Returned x \<Rightarrow>
                      (case x of
                         Inl err \<Rightarrow>
                           if update_conflict err then ret (Returned (Some existingCluster, None))
                           else ret (Returned (None, Some err))
                       | Inr result \<Rightarrow>
                           (case aki_agentPoolManager M of
                              None \<Rightarrow> ret (reconciled existingCluster result)
                            | Some pools \<Rightarrow>
                                do {
                                  e \<leftarrow> apm_ReconcileAgentPools pools kc;
                                  ret (case e of
                                         Panicked \<Rightarrow> Panicked
                                       | Returned (Some err) \<Rightarrow>
                                           Returned (Some result,
                                             Some (wrap_error ''failed to reconcile agent pools'' err))
                                       | Returned None \<Rightarrow> reconciled existingCluster result)
                                })))
               })
            })
     }"

text \<open>The interface \<open>AKSClusterManager\<close>, and the manager as its implementation.\<close>

record 'w aks_cluster_manager =
  akm_CreateCluster :: "kubernetes_cluster \<Rightarrow> ('w, (go_error + managed_cluster) outcome) go"
  akm_UpdateCluster :: "kubernetes_cluster \<Rightarrow> ('w, (go_error + managed_cluster) outcome) go"
  akm_DeleteCluster :: "kubernetes_cluster \<Rightarrow> ('w, go_error option) go"
  akm_GetCluster :: "kubernetes_cluster \<Rightarrow> ('w, go_error + managed_cluster) go"
  akm_GetClusterCredentials :: "kubernetes_cluster \<Rightarrow> ('w, go_error + credential_results) go"
  akm_ReconcileCluster :: "kubernetes_cluster \<Rightarrow> ('w, reconcile_result) go"

definition aks_cluster_manager_of ::
  "'w runtime \<Rightarrow> 'w aks_cluster_manager_impl \<Rightarrow> 'w aks_cluster_manager" where
  "aks_cluster_manager_of R M =
     \<lparr>akm_CreateCluster = CreateCluster R M, akm_UpdateCluster = UpdateCluster R M,
      akm_DeleteCluster = DeleteCluster M, akm_GetCluster = GetCluster M,
      akm_GetClusterCredentials = GetClusterCredentials M, akm_ReconcileCluster = ReconcileCluster R M\<rparr>"

section \<open>Agreement of the two managers\<close>

lemma names_agree [simp]:
  "pool_getResourceGroupName kc = getResourceGroupName kc" "pool_getClusterName kc = getClusterName kc"
  by (simp_all add: pool_getResourceGroupName_def getResourceGroupName_def pool_getClusterName_def
      getClusterName_def)

lemma purpose_agrees [simp]: "pool_determineNodePoolPurpose R np = determineNodePoolPurpose R np"
  by (simp add: pool_determineNodePoolPurpose_def determineNodePoolPurpose_def)

lemma fallback_agrees [simp]: "pool_staticFallbackVMSize = staticFallbackVMSize"
  by (intro ext) (simp add: pool_staticFallbackVMSize_def staticFallbackVMSize_def
      pool_staticMappings_def cluster_staticMappings_def)

lemma profile_of_pool:
  "profile_of np sz =
     \<lparr>prof_Name = Some (np_Name np),
      prof_Properties = (the (ap_Properties (buildAgentPool np sz)))
        \<lparr>pp_OrchestratorVersion := None, pp_AvailabilityZones := None\<rparr>\<rparr>"
  by (simp add: profile_of_def buildAgentPool_def Let_def empty_pool_properties_def)

text \<open>C16. The profile the cluster is created with and the agent pool the pool manager asks for
  resolve a node pool to the same VM size and agree on every property except the version and the
  availability zones, which the profile leaves out.\<close>

theorem profile_matches_agent_pool:
  assumes "api_mapper P = aki_mapper M"
  shows "fst (run_state (buildAgentPoolProfile R M np location) s) =
     \<lparr>prof_Name = Some (np_Name np),
      prof_Properties =
        (the (ap_Properties (buildAgentPool np (fst (run_state (pool_resolveVMSize R P np location) s)))))
          \<lparr>pp_OrchestratorVersion := None, pp_AvailabilityZones := None\<rparr>\<rparr>"
proof -
  have "fst (run_state (buildAgentPoolProfile R M np location) s) =
      profile_of np (fst (run_state (pool_resolveVMSize R P np location) s))"
    using assms
    by (auto simp: buildAgentPoolProfile_def pool_resolveVMSize_def resolveVMSize_def Let_def
        split: option.splits prod.splits sum.splits)
  then show ?thesis by (simp add: profile_of_pool)
qed

section \<open>What is built\<close>

lemma worker_profile_names:
  "map prof_Name (fst (run_state (build_worker_profiles R M location nps) s)) = map (Some \<circ> np_Name) nps"
  by (induction nps arbitrary: s)
    (auto simp: buildAgentPoolProfile_def profile_of_def Let_def split: prod.splits; metis fst_conv)+

lemma buildManagedCluster_run:
  obtains sz ps t where
    "fst (run_state (buildManagedCluster R M kc location) s) =
       \<lparr>mc_ID = None, mc_Location = Some location, mc_Tags = Some (buildTags kc),
        mc_IdentityType = Some ''SystemAssigned'',
        mc_Properties = Some
          \<lparr>mp_DNSPrefix = Some (getDNSPrefix kc), mp_KubernetesVersion = Some (getKubernetesVersion R kc),
           mp_AgentPoolProfiles = Some (system_profile (tp_ControlPlane (kc_Topology kc)) sz # ps),
           mp_EnableRBAC = Some True,
           mp_NetworkProfile = Some \<lparr>net_NetworkPlugin = ''azure'', net_NetworkPolicy = ''azure''\<rparr>,
           mp_ProvisioningState = None, mp_Fqdn = None\<rparr>\<rparr>"
    and "sz = fst (run_state (resolveVMSize M (cp_MachineClass (tp_ControlPlane (kc_Topology kc)))
           (cd_Region (kc_Cluster kc)) VMPurposeGeneralPurpose) s)"
    and "map prof_Name ps = map (Some \<circ> np_Name) (tp_NodePools (kc_Topology kc))"
proof -
  obtain sz s1 where sz: "run_state (resolveVMSize M (cp_MachineClass (tp_ControlPlane (kc_Topology kc)))
      (cd_Region (kc_Cluster kc)) VMPurposeGeneralPurpose) s = (sz, s1)" by fastforce
  obtain ps s2 where ps: "run_state (build_worker_profiles R M (cd_Region (kc_Cluster kc))
      (tp_NodePools (kc_Topology kc))) s1 = (ps, s2)" by fastforce
  have "map prof_Name ps = map (Some \<circ> np_Name) (tp_NodePools (kc_Topology kc))"
    using worker_profile_names [of R M "cd_Region (kc_Cluster kc)" "tp_NodePools (kc_Topology kc)" s1] ps
    by simp
  with sz ps show ?thesis
    by (intro that [of sz ps]) (simp_all add: buildManagedCluster_def buildInitialAgentPoolProfiles_def Let_def)
qed

text \<open>C28. The cluster sent to Azure has the system pool first and then one profile per node pool, in
  order and under its name; its tags always carry the identity of the resource it was built from,
  whatever the project and the workspace are called.\<close>

theorem managed_cluster_shape:
  "\<exists>mp profiles tags. mc_Properties (fst (run_state (buildManagedCluster R M kc location) s)) = Some mp \<and>
     mp_AgentPoolProfiles mp = Some profiles \<and>
     map prof_Name profiles = Some ''system'' # map (Some \<circ> np_Name) (tp_NodePools (kc_Topology kc)) \<and>
     pp_Mode (prof_Properties (hd profiles)) = Some ''System'' \<and>
     mp_KubernetesVersion mp = Some (getKubernetesVersion R kc) \<and> getKubernetesVersion R kc \<noteq> [] \<and>
     mc_Tags (fst (run_state (buildManagedCluster R M kc location) s)) = Some tags \<and>
     tags ''vitistack-cluster-id'' = Some (cd_ClusterId (kc_Cluster kc)) \<and>
     tags ''vitistack-name'' = Some (kc_Name kc) \<and>
     tags ''vitistack-namespace'' = Some (kc_Namespace kc) \<and>
     tags ''project'' = (if cd_Project (kc_Cluster kc) = [] then None else Some (cd_Project (kc_Cluster kc)))"
proof -
  obtain sz ps where m: "fst (run_state (buildManagedCluster R M kc location) s) =
       \<lparr>mc_ID = None, mc_Location = Some location, mc_Tags = Some (buildTags kc),
        mc_IdentityType = Some ''SystemAssigned'',
        mc_Properties = Some
          \<lparr>mp_DNSPrefix = Some (getDNSPrefix kc), mp_KubernetesVersion = Some (getKubernetesVersion R kc),
           mp_AgentPoolProfiles = Some (system_profile (tp_ControlPlane (kc_Topology kc)) sz # ps),
           mp_EnableRBAC = Some True,
           mp_NetworkProfile = Some \<lparr>net_NetworkPlugin = ''azure'', net_NetworkPolicy = ''azure''\<rparr>,
           mp_ProvisioningState = None, mp_Fqdn = None\<rparr>\<rparr>"
    and ps: "map prof_Name ps = map (Some \<circ> np_Name) (tp_NodePools (kc_Topology kc))"
    by (rule buildManagedCluster_run)
  have tags: "buildTags kc ''vitistack-cluster-id'' = Some (cd_ClusterId (kc_Cluster kc))"
    "buildTags kc ''vitistack-name'' = Some (kc_Name kc)"
    "buildTags kc ''vitistack-namespace'' = Some (kc_Namespace kc)"
    "buildTags kc ''project'' = (if cd_Project (kc_Cluster kc) = [] then None else Some (cd_Project (kc_Cluster kc)))"
    by (simp_all add: buildTags_def Let_def)
  have "getKubernetesVersion R kc \<noteq> []" by (simp add: getKubernetesVersion_def Let_def)
  then show ?thesis
    unfolding m using ps tags by (simp add: system_profile_def empty_pool_properties_def)
qed

section \<open>When an update is needed\<close>

lemma max_replicas_minus_one: "max_replicas = - 1"
  by (simp add: max_replicas_def)

lemma desired_count_minus_one: "0 <s replicas \<Longrightarrow> desired_count replicas = - 1"
proof -
  assume "0 <s replicas"
  moreover have "(ucast (- 1 :: go_int) :: go_int32) = - 1"
    by (rule bit_word_eqI) (simp add: bit_simps)
  ultimately show ?thesis
    by (auto simp: desired_count_def max_replicas_minus_one word_sless_alt Let_def)
qed

lemma count_not_minus_one: "0 <s (replicas :: go_int) \<Longrightarrow> safeIntToInt32 replicas \<noteq> - 1"
proof
  assume "0 <s replicas" and "safeIntToInt32 replicas = - 1"
  then have "sint (safeIntToInt32 replicas) = - 1" "0 < sint replicas"
    by (simp_all add: word_sless_alt)
  then show False by (simp add: sint_safeIntToInt32)
qed

text \<open>C25. On the very cluster \<open>buildManagedCluster\<close> asks Azure for, \<open>needsUpdate\<close> still
  answers yes whenever the control plane has a positive number of replicas, because it compares the
  node count with -1; it settles only for a non-positive number.\<close>

theorem update_never_settles:
  "fst (run_state (needsUpdate R M kc (fst (run_state (buildManagedCluster R M kc location) s))) t)
           \<longleftrightarrow> 0 <s cp_Replicas (tp_ControlPlane (kc_Topology kc))"
proof -
  obtain sz' ps where m: "fst (run_state (buildManagedCluster R M kc location) s) =
       \<lparr>mc_ID = None, mc_Location = Some location, mc_Tags = Some (buildTags kc),
        mc_IdentityType = Some ''SystemAssigned'',
        mc_Properties = Some
          \<lparr>mp_DNSPrefix = Some (getDNSPrefix kc), mp_KubernetesVersion = Some (getKubernetesVersion R kc),
           mp_AgentPoolProfiles = Some (system_profile (tp_ControlPlane (kc_Topology kc)) sz' # ps),
           mp_EnableRBAC = Some True,
           mp_NetworkProfile = Some \<lparr>net_NetworkPlugin = ''azure'', net_NetworkPolicy = ''azure''\<rparr>,
           mp_ProvisioningState = None, mp_Fqdn = None\<rparr>\<rparr>"
    by (rule buildManagedCluster_run)
  show ?thesis
    unfolding m
    using desired_count_minus_one [of "cp_Replicas (tp_ControlPlane (kc_Topology kc))"]
      count_not_minus_one [of "cp_Replicas (tp_ControlPlane (kc_Topology kc))"]
    by (simp add: needsUpdate_def Let_def system_profile_def empty_pool_properties_def)
qed

section \<open>The calls of a reconciliation\<close>

lemma pool_reconcile_writes_pools:
  "is_pool_reconcile_event e \<Longrightarrow> is_azure_write e \<Longrightarrow> is_pool_write e"
  by (auto simp: is_pool_reconcile_event_def is_azure_write_def is_cluster_write_def is_pool_event_def
      is_pool_write_def is_sizing_event_def is_vm_event_def is_class_event_def)

text \<open>What the cluster manager relies on: the mapper only sizes, the pool manager only touches pools.\<close>

locale cluster_services =
  fixes M :: "'w aks_cluster_manager_impl"
  assumes mapper: "aki_mapper M = Some P \<Longrightarrow> machine_class_service P"
    and pools: "aki_agentPoolManager M = Some A \<Longrightarrow> agent_pool_service A"
begin

lemma emits_resolveVMSize: "emits is_sizing_event (resolveVMSize M machineClass location purpose)"
  unfolding resolveVMSize_def by (intro emits_intros machine_class_service.emits_map mapper)

lemma emits_determine: "emits P (determineNodePoolPurpose R np)"
  unfolding determineNodePoolPurpose_def by (intro emits_intros)

lemma emits_worker_profiles: "emits is_sizing_event (build_worker_profiles R M location nps)"
  by (induction nps)
    (auto simp: buildAgentPoolProfile_def intro!: emits_intros emits_determine emits_resolveVMSize)

lemma emits_build: "emits is_sizing_event (buildManagedCluster R M kc location)"
  unfolding buildManagedCluster_def buildInitialAgentPoolProfiles_def
  by (intro emits_intros emits_resolveVMSize emits_worker_profiles)

lemma emits_needsUpdate: "emits is_sizing_event (needsUpdate R M kc c)"
  unfolding needsUpdate_def by (intro emits_intros emits_resolveVMSize)

text \<open>A create or an update costs exactly one write, of the cluster built from the resource.\<close>

lemma one_write:
  assumes "run_state (CreateCluster R M kc) s = (x, s') \<or> run_state (UpdateCluster R M kc) s = (x, s')"
  shows "\<exists>es e. trace s' = trace s @ es \<and> filter is_azure_write es =
      [AzClusterCreateOrUpdate (getResourceGroupName kc) (getClusterName kc)
         (fst (run_state (buildManagedCluster R M kc (cd_Region (kc_Cluster kc))) s)) e] \<and>
      (\<forall>c. x = Returned (Inr c) \<longrightarrow> e = None)"
proof -
  obtain mc s1 where b: "run_state (buildManagedCluster R M kc (cd_Region (kc_Cluster kc))) s = (mc, s1)"
    by fastforce
  obtain es where es: "trace s1 = trace s @ es" "\<forall>e\<in>set es. is_sizing_event e"
    using emitsD [OF emits_build b] .
  then have "filter is_azure_write es = []"
    by (auto simp: filter_empty_conv sizing_not_azure_write)
  with es b show ?thesis
    using assms
    by (auto simp: CreateCluster_def UpdateCluster_def Let_def split: sum.splits option.splits)
qed

lemma filter_sizing: "\<forall>e\<in>set es. is_sizing_event e \<Longrightarrow> filter is_azure_write es = []"
  by (auto simp: filter_empty_conv sizing_not_azure_write)

lemma reconcile_writes:
  assumes run: "run_state (ReconcileCluster R M kc) s = (x, s')"
    and get: "run_state (GetCluster M kc) s = (Inr ex, s1)"
    and idle: "\<not> operation_in_progress ex"
  shows "\<exists>es. trace s' = trace s @ es \<and>
     (if fst (run_state (needsUpdate R M kc ex) s1)
      then (\<exists>t e ws. filter is_azure_write es =
              AzClusterCreateOrUpdate (getResourceGroupName kc) (getClusterName kc)
                (fst (run_state (buildManagedCluster R M kc (cd_Region (kc_Cluster kc))) t)) e # ws \<and>
              (\<forall>w\<in>set ws. is_pool_write w) \<and> (e \<noteq> None \<longrightarrow> ws = []))
      else filter is_azure_write es = [] \<and> x = Returned (Some ex, None))"
proof -
  have t1: "\<exists>e. trace s1 = trace s @ [AzClusterGet (getResourceGroupName kc) (getClusterName kc) e]"
    using get by (auto simp: GetCluster_def Let_def)
  obtain u s2 where u: "run_state (needsUpdate R M kc ex) s1 = (u, s2)" by fastforce
  obtain us where us: "trace s2 = trace s1 @ us" "\<forall>e\<in>set us. is_sizing_event e"
    using emitsD [OF emits_needsUpdate u] .
  show ?thesis
  proof (cases u)
    case False
    then show ?thesis
      using run get idle u us t1 by (auto simp: ReconcileCluster_def filter_sizing)
  next
    case True
    obtain y s3 where y: "run_state (UpdateCluster R M kc) s2 = (y, s3)" by fastforce
    obtain ws e where w: "trace s3 = trace s2 @ ws" "filter is_azure_write ws =
      [AzClusterCreateOrUpdate (getResourceGroupName kc) (getClusterName kc)
         (fst (run_state (buildManagedCluster R M kc (cd_Region (kc_Cluster kc))) s2)) e]"
      "\<forall>c. y = Returned (Inr c) \<longrightarrow> e = None"
      using one_write y by blast
    have "\<exists>ps. trace s' = trace s3 @ ps \<and> (\<forall>p\<in>set ps. is_pool_reconcile_event p) \<and>
        (ps \<noteq> [] \<longrightarrow> (\<exists>c. y = Returned (Inr c)))"
    proof (cases "(\<exists>c. y = Returned (Inr c)) \<and> aki_agentPoolManager M \<noteq> None")
      case True
      then obtain c A where c: "y = Returned (Inr c)" "aki_agentPoolManager M = Some A" by blast
      obtain e2 s4 where p: "run_state (apm_ReconcileAgentPools A kc) s3 = (e2, s4)" by fastforce
      have "s' = s4"
        using run get idle u \<open>u\<close> y c p by (auto simp: ReconcileCluster_def)
      then show ?thesis
        using emitsD [OF agent_pool_service.emits_reconcile [OF pools [OF c(2)]] p] c(1) by metis
    next
      case False
      then have "s' = s3"
        using run get idle u \<open>u\<close> y
        by (auto simp: ReconcileCluster_def split: outcome.splits sum.splits if_splits)
      then show ?thesis by simp
    qed
    then obtain ps where ps: "trace s' = trace s3 @ ps" "\<forall>p\<in>set ps. is_pool_reconcile_event p"
      "ps \<noteq> [] \<Longrightarrow> e = None" using w(3) by blast
    have "\<forall>p\<in>set (filter is_azure_write ps). is_pool_write p"
      using ps(2) pool_reconcile_writes_pools by auto
    moreover have "e \<noteq> None \<longrightarrow> filter is_azure_write ps = []"
      using ps(3) by (cases "ps = []") auto
    moreover obtain ge where "trace s1 = trace s @ [AzClusterGet (getResourceGroupName kc) (getClusterName kc) ge]"
      using t1 by blast
    then have "trace s' = trace s @ (AzClusterGet (getResourceGroupName kc) (getClusterName kc) ge # us @ ws @ ps)"
      "filter is_azure_write (AzClusterGet (getResourceGroupName kc) (getClusterName kc) ge # us @ ws @ ps) =
        AzClusterCreateOrUpdate (getResourceGroupName kc) (getClusterName kc)
          (fst (run_state (buildManagedCluster R M kc (cd_Region (kc_Cluster kc))) s2)) e # filter is_azure_write ps"
      using us w(1,2) ps(1) by (simp_all add: filter_sizing)
    moreover have "fst (run_state (needsUpdate R M kc ex) s1)" using u \<open>u\<close> by simp
    ultimately show ?thesis by (metis (no_types, lifting))
  qed
qed

end

interpretation operator_cluster: cluster_services
  "NewAKSClusterManager CC
     (Some (agent_pool_manager_of R0 (NewAgentPoolManager C (Some (NewVMSizeManager R VC))
        (Some (NewMachineClassMapper R \<lparr>mpr_client = K, mpr_vmSizeManager = NewVMSizeManager R' VC', mpr_sort = srt\<rparr>)))))
     (Some (NewMachineClassMapper R \<lparr>mpr_client = K, mpr_vmSizeManager = NewVMSizeManager R' VC', mpr_sort = srt\<rparr>))"
  by (rule cluster_services.intro)
    (auto simp: NewAKSClusterManager_def intro: mapper_impl.machine_class_service_axioms
      pool_service.agent_pool_service_axioms)

section \<open>The guarantees of a reconciliation\<close>

text \<open>C3. What one reconciliation of the cluster writes to Azure is decided by what Azure says
  first. Not found: exactly one create. Another error: nothing, and the error is returned. An
  operation in progress, or no update needed: nothing, and the cluster read is returned. Otherwise:
  one update followed by agent-pool writes only, and none of those if the update failed. Every
  create or update is of the cluster built from the resource, in its own resource group and under
  its own name; nothing is ever deleted but agent pools.\<close>

theorem reconcile_cluster_writes:
  assumes M: "cluster_services M"
    and run: "run_state (ReconcileCluster R M kc) s = (x, s')"
  shows "\<exists>es. trace s' = trace s @ es \<and>
    (case run_state (GetCluster M kc) s of
       (Inl e, _) \<Rightarrow>
         if Contains (err_text e) ''not found'' \<or> Contains (err_text e) ''ResourceNotFound''
         then (\<exists>t r. filter is_azure_write es =
                 [AzClusterCreateOrUpdate (getResourceGroupName kc) (getClusterName kc)
                   (fst (run_state (buildManagedCluster R M kc (cd_Region (kc_Cluster kc))) t)) r])
         else filter is_azure_write es = [] \<and> x = Returned (None, Some e)
     | (Inr ex, s1) \<Rightarrow>
         if \<not> operation_in_progress ex \<and> fst (run_state (needsUpdate R M kc ex) s1)
         then (\<exists>t r ws. filter is_azure_write es =
                 AzClusterCreateOrUpdate (getResourceGroupName kc) (getClusterName kc)
                   (fst (run_state (buildManagedCluster R M kc (cd_Region (kc_Cluster kc))) t)) r # ws \<and>
                 (\<forall>w\<in>set ws. is_pool_write w) \<and> (r \<noteq> None \<longrightarrow> ws = []))
         else filter is_azure_write es = [] \<and> x = Returned (Some ex, None))"
proof (cases "run_state (GetCluster M kc) s")
  case (Pair g s1)
  obtain ge where t1: "trace s1 = trace s @ [AzClusterGet (getResourceGroupName kc) (getClusterName kc) ge]"
    using Pair by (auto simp: GetCluster_def Let_def)
  show ?thesis
  proof (cases g)
    case (Inr ex)
    show ?thesis
    proof (cases "operation_in_progress ex")
      case True
      then have "s' = s1 \<and> x = Returned (Some ex, None)"
        using run Pair Inr by (simp add: ReconcileCluster_def)
      then show ?thesis using t1 Pair Inr True by simp
    next
      case False
      then show ?thesis
        using cluster_services.reconcile_writes [OF M run] Pair Inr by simp
    qed
  next
    case (Inl e)
    show ?thesis
    proof (cases "Contains (err_text e) ''not found'' \<or> Contains (err_text e) ''ResourceNotFound''")
      case True
      obtain y s2 where y: "run_state (CreateCluster R M kc) s1 = (y, s2)" by fastforce
      then have "s' = s2" using run Pair Inl True by (auto simp: ReconcileCluster_def)
      moreover obtain es r where "trace s2 = trace s1 @ es" "filter is_azure_write es =
          [AzClusterCreateOrUpdate (getResourceGroupName kc) (getClusterName kc)
            (fst (run_state (buildManagedCluster R M kc (cd_Region (kc_Cluster kc))) s1)) r]"
        using cluster_services.one_write [OF M] y by blast
      ultimately show ?thesis
        using t1 Pair Inl True
        by (intro exI [of _ "AzClusterGet (getResourceGroupName kc) (getClusterName kc) ge # es"]) auto
    next
      case False
      then have "s' = s1 \<and> x = Returned (None, Some e)"
        using run Pair Inl by (auto simp: ReconcileCluster_def)
      then show ?thesis using t1 Pair Inl False by simp
    qed
  qed
qed

lemma update_conflict_wrap: "update_conflict e \<Longrightarrow> update_conflict (wrap_error msg e)"
  unfolding update_conflict_def using Contains_wrap_error by blast

text \<open>C23. When Azure refuses the update of a cluster that needs one, that refused call is the only
  write of the reconciliation and the last call it makes: no second update, no agent pool is
  touched. A conflict (409, \<open>OperationNotAllowed\<close>, an operation in progress) is not an error, and
  the cluster is returned as it was read; any other refusal is returned as an error without a
  cluster.\<close>

theorem reconcile_cluster_refused:
  assumes M: "cluster_services M" and get: "run_state (GetCluster M kc) s = (Inr ex, s1)"
    and idle: "\<not> operation_in_progress ex" and needs: "run_state (needsUpdate R M kc ex) s1 = (True, s2)"
    and built: "run_state (buildManagedCluster R M kc (cd_Region (kc_Cluster kc))) s2 = (c, s3)"
    and refused: "mcc_CreateOrUpdate (aki_client M) (getResourceGroupName kc) (getClusterName kc) c (world s3) = (Inl err, w)"
    and run: "run_state (ReconcileCluster R M kc) s = (x, s')"
  shows "x = Returned (if update_conflict (wrap_error ''failed to update AKS cluster'' err) then (Some ex, None)
               else (None, Some (wrap_error ''failed to update AKS cluster'' err))) \<and>
     (\<exists>es. trace s' = trace s @ es @
         [AzClusterCreateOrUpdate (getResourceGroupName kc) (getClusterName kc) c (Some err)] \<and>
        filter is_azure_write es = [])"
proof -
  let ?s4 = "s3\<lparr>world := w, trace := trace s3 @
      [AzClusterCreateOrUpdate (getResourceGroupName kc) (getClusterName kc) c (Some err)]\<rparr>"
  have "run_state (UpdateCluster R M kc) s2 =
      (Returned (Inl (wrap_error ''failed to update AKS cluster'' err)), ?s4)"
    using built refused by (simp add: UpdateCluster_def Let_def)
  then have x: "x = Returned (if update_conflict (wrap_error ''failed to update AKS cluster'' err) then (Some ex, None)
               else (None, Some (wrap_error ''failed to update AKS cluster'' err)))" and s': "s' = ?s4"
    using run get idle needs by (auto simp: ReconcileCluster_def split: if_splits)
  obtain ge where "trace s1 = trace s @ [AzClusterGet (getResourceGroupName kc) (getClusterName kc) ge]"
    using get by (auto simp: GetCluster_def Let_def)
  moreover obtain us where "trace s2 = trace s1 @ us" "\<forall>e\<in>set us. is_sizing_event e"
    using emitsD [OF cluster_services.emits_needsUpdate [OF M] needs] .
  moreover obtain bs where "trace s3 = trace s2 @ bs" "\<forall>e\<in>set bs. is_sizing_event e"
    using emitsD [OF cluster_services.emits_build [OF M] built] .
  ultimately have "trace s' = trace s @ (AzClusterGet (getResourceGroupName kc) (getClusterName kc) ge # us @ bs) @
         [AzClusterCreateOrUpdate (getResourceGroupName kc) (getClusterName kc) c (Some err)]"
    "filter is_azure_write (AzClusterGet (getResourceGroupName kc) (getClusterName kc) ge # us @ bs) = []"
    using s' by (simp_all add: cluster_services.filter_sizing [OF M])
  with x show ?thesis by blast
qed

text \<open>C26. When the cluster Azure first returned had no provisioning state, a reconciliation whose
  update was accepted does not succeed: it returns the error of the agent-pool reconciliation if that
  fails, and in every other case it panics after the update, because the closing log line
  dereferences that state.\<close>

theorem reconcile_cluster_panics_after_update:
  assumes get: "run_state (GetCluster M kc) s = (Inr ex, s1)" and none: "provisioning_state ex = None"
    and needs: "run_state (needsUpdate R M kc ex) s1 = (True, s2)"
    and accepted: "run_state (UpdateCluster R M kc) s2 = (Returned (Inr c), s3)"
  shows "fst (run_state (ReconcileCluster R M kc) s) =
     (case aki_agentPoolManager M of
        None \<Rightarrow> Panicked
      | Some A \<Rightarrow>
          (case fst (run_state (apm_ReconcileAgentPools A kc) s3) of
             Returned (Some err) \<Rightarrow> Returned (Some c, Some (wrap_error ''failed to reconcile agent pools'' err))
           | _ \<Rightarrow> Panicked))"
proof -
  have "\<not> operation_in_progress ex" using none by (simp add: operation_in_progress_def)
  then show ?thesis
    using assms by (auto simp: ReconcileCluster_def reconciled_def split: option.splits prod.splits outcome.splits)
qed

section \<open>Witnesses\<close>

definition fx_cluster_manager :: "go_error + managed_cluster \<Rightarrow> fx_world aks_cluster_manager_impl" where
  "fx_cluster_manager updated =
     NewAKSClusterManager (fx_azure (Inr (fx_managed None)) updated None) None None"

lemma fx_cluster_services: "cluster_services (fx_cluster_manager updated)"
  by (rule cluster_services.intro) (simp_all add: fx_cluster_manager_def NewAKSClusterManager_def)

lemma fx_names [simp]:
  "getResourceGroupName fx_cluster = ''team''" "getClusterName fx_cluster = ''c1''"
  "trace fx_state = []" "\<not> operation_in_progress (fx_managed None)"
  by (simp_all add: getResourceGroupName_def getClusterName_def fx_cluster_def fx_state_def
      operation_in_progress_def provisioning_state_def fx_managed_def)

lemma fx_get:
  "run_state (GetCluster (fx_cluster_manager updated) fx_cluster) fx_state =
     (Inr (fx_managed None), fx_state\<lparr>trace := [AzClusterGet ''team'' ''c1'' None]\<rparr>)"
  by (simp add: GetCluster_def fx_cluster_manager_def NewAKSClusterManager_def fx_azure_def
      getResourceGroupName_def getClusterName_def fx_cluster_def fx_state_def Let_def)

lemma fx_needs:
  "run_state (needsUpdate fx_runtime M fx_cluster (fx_managed st)) t = (True, t)"
  by (simp add: needsUpdate_def fx_managed_def fx_cluster_def getKubernetesVersion_def Let_def)

lemma fx_updated:
  "run_state (UpdateCluster fx_runtime (fx_cluster_manager (Inr (fx_managed None))) fx_cluster) t =
     (Returned (Inr (fx_managed None)),
      snd (run_state (UpdateCluster fx_runtime (fx_cluster_manager (Inr (fx_managed None))) fx_cluster) t))"
  by (simp add: UpdateCluster_def fx_cluster_manager_def NewAKSClusterManager_def fx_azure_def
      fx_managed_def Let_def split: prod.splits)

theorem profile_matches_agent_pool_witness:
  "fst (run_state (buildAgentPoolProfile fx_runtime (fx_cluster_manager (Inr (fx_managed None)))
      fx_node_pool ''norwayeast'') fx_state) = profile_of fx_node_pool ''Standard_D2s_v5''"
proof -
  have "api_mapper fx_pool_manager = aki_mapper (fx_cluster_manager (Inr (fx_managed None)))"
    by (simp add: fx_pool_manager_def NewAgentPoolManager_def fx_cluster_manager_def NewAKSClusterManager_def)
  from profile_matches_agent_pool [OF this, of fx_runtime fx_node_pool "''norwayeast''" fx_state]
  show ?thesis by (simp add: profile_of_pool pool_resolveVMSize_def fx_node_pool_def)
qed

theorem reconcile_cluster_writes_witness:
  "\<exists>r c ws. filter is_azure_write (trace (snd (run_state (ReconcileCluster fx_runtime
        (fx_cluster_manager (Inr (fx_managed None))) fx_cluster) fx_state))) =
     AzClusterCreateOrUpdate ''team'' ''c1'' c r # ws"
  using reconcile_cluster_writes [OF fx_cluster_services [of "Inr (fx_managed None)"]
      prod.collapse [symmetric], of fx_runtime fx_cluster fx_state]
  unfolding fx_get
  by (auto simp: fx_needs)

theorem reconcile_cluster_refused_witness:
  "\<exists>s' es c. run_state (ReconcileCluster fx_runtime (fx_cluster_manager (Inl (new_error ''409 Conflict''))) fx_cluster)
      fx_state = (Returned (Some (fx_managed None), None), s') \<and>
     trace s' = es @ [AzClusterCreateOrUpdate ''team'' ''c1'' c (Some (new_error ''409 Conflict''))] \<and>
     filter is_azure_write es = []"
proof -
  let ?M = "fx_cluster_manager (Inl (new_error ''409 Conflict''))"
  let ?run = "run_state (ReconcileCluster fx_runtime ?M fx_cluster) fx_state"
  have n: "\<not> operation_in_progress (fx_managed None)" by simp
  have r: "mcc_CreateOrUpdate (aki_client ?M) (getResourceGroupName fx_cluster) (getClusterName fx_cluster) c w
      = (Inl (new_error ''409 Conflict''), w)" for c w
    by (simp add: fx_cluster_manager_def NewAKSClusterManager_def fx_azure_def)
  have "update_conflict (new_error ''409 Conflict'')" by (simp add: update_conflict_def)
  then have u: "update_conflict (wrap_error ''failed to update AKS cluster'' (new_error ''409 Conflict''))"
    by (rule update_conflict_wrap)
  obtain es c where "fst ?run = Returned (Some (fx_managed None), None)"
    "trace (snd ?run) = es @ [AzClusterCreateOrUpdate ''team'' ''c1'' c (Some (new_error ''409 Conflict''))]"
    "filter is_azure_write es = []"
    using reconcile_cluster_refused [OF fx_cluster_services fx_get n fx_needs prod.collapse [symmetric] r
        prod.collapse [symmetric]] u by auto
  then show ?thesis by (intro exI [of _ "snd ?run"] exI [of _ es] exI [of _ c]) (simp add: prod_eq_iff)
qed

theorem reconcile_cluster_panics_after_update_witness:
  "fst (run_state (ReconcileCluster fx_runtime (fx_cluster_manager (Inr (fx_managed None))) fx_cluster)
     fx_state) = Panicked"
  using reconcile_cluster_panics_after_update [OF fx_get _ fx_needs fx_updated]
  by (simp add: provisioning_state_def fx_managed_def fx_cluster_manager_def NewAKSClusterManager_def)

end
