(* ===== verification/ClusterState.thy ===== *)
theory ClusterState
  imports Runtime Fixtures
begin

text \<open>
  \<open>internal/services/clusterstate/cluster_state.go\<close>: the secret that holds what the operator
  knows of a cluster. It is created on first use and updated optimistically, with three attempts.
  The secret service of the shared library is part of the Kubernetes client \<open>K\<close>. The creation
  lock has no effect in a single reconciliation and is not part of the state; \<open>StateRace\<close> models
  it, with the goroutines that compete for it.
\<close>

section \<open>Keys\<close>

abbreviation KeyCreatedAt :: string where "KeyCreatedAt \<equiv> ''created_at''"
abbreviation KeyReadyAt :: string where "KeyReadyAt \<equiv> ''ready_at''"
abbreviation KeyClusterProvisioning :: string where "KeyClusterProvisioning \<equiv> ''cluster_provisioning''"
abbreviation KeyClusterProvisioned :: string where "KeyClusterProvisioned \<equiv> ''cluster_provisioned''"
abbreviation KeyNodePoolsReady :: string where "KeyNodePoolsReady \<equiv> ''nodepools_ready''"
abbreviation KeyKubernetesAPIReady :: string where "KeyKubernetesAPIReady \<equiv> ''kubernetes_api_ready''"
abbreviation KeyClusterAccess :: string where "KeyClusterAccess \<equiv> ''cluster_access''"
abbreviation KeyKubeconfigPresent :: string where "KeyKubeconfigPresent \<equiv> ''kubeconfig_present''"
abbreviation KeyKubeConfig :: string where "KeyKubeConfig \<equiv> ''kube.config''"
abbreviation KeyAKSResourceID :: string where "KeyAKSResourceID \<equiv> ''aks_resource_id''"
abbreviation KeyAKSProvisionState :: string where "KeyAKSProvisionState \<equiv> ''aks_provision_state''"
abbreviation KeyResourceGroupName :: string where "KeyResourceGroupName \<equiv> ''resource_group_name''"
abbreviation KeyAKSClusterName :: string where "KeyAKSClusterName \<equiv> ''aks_cluster_name''"
abbreviation KeyAKSClusterFQDN :: string where "KeyAKSClusterFQDN \<equiv> ''aks_cluster_fqdn''"
abbreviation KeyNodePoolsConfigured :: string where "KeyNodePoolsConfigured \<equiv> ''nodepools_configured''"
abbreviation KeyKubeSystemUID :: string where "KeyKubeSystemUID \<equiv> ''kube-system-uid''"
abbreviation LabelClusterID :: string where "LabelClusterID \<equiv> ''vitistack.io/clusterid''"
abbreviation stateTrue :: string where "stateTrue \<equiv> ''true''"
abbreviation stateFalse :: string where "stateFalse \<equiv> ''false''"

definition retry_delay :: time where
  "retry_delay = 100000000"

definition state_secret_name :: "kubernetes_cluster \<Rightarrow> string" where
  "state_secret_name kc = cd_ClusterId (kc_Cluster kc)"

section \<open>Reading and creating the secret\<close>

definition secretService_GetSecret ::
  "'w kube_client \<Rightarrow> string \<Rightarrow> string \<Rightarrow> ('w, go_error + secret) go" where
  "secretService_GetSecret K name namespace =
     call (\<lambda>r. SecretGet name namespace (sum_error r)) (kube_GetSecret K name namespace)"

text \<open>
  The loop of \<open>getStateWithRetry\<close>; \<open>err\<close> is the variable the loop leaves behind.
\<close>

fun get_state_attempts ::
  "'w runtime \<Rightarrow> 'w kube_client \<Rightarrow> kubernetes_cluster \<Rightarrow> nat \<Rightarrow> go_error \<Rightarrow> ('w, go_error + secret) go" where
  "get_state_attempts R K kc 0 err = ret (Inl err)"
| "get_state_attempts R K kc (Suc n) err =
     do {
       r \<leftarrow> secretService_GetSecret K (state_secret_name kc) (kc_Namespace kc);
       (case r of
          Inr secret \<Rightarrow> ret (Inr secret)
        | Inl e \<Rightarrow>
            if \<not> IsNotFound e then ret (Inl e)
            else do {
              time_Sleep R retry_delay;
              get_state_attempts R K kc n e
            })
     }"

definition getStateWithRetry ::
  "'w runtime \<Rightarrow> 'w kube_client \<Rightarrow> kubernetes_cluster \<Rightarrow> ('w, go_error + secret) go" where
  "getStateWithRetry R K kc = get_state_attempts R K kc 3 (new_error [])"

definition initial_data :: "string \<Rightarrow> string \<rightharpoonup> string" where
  "initial_data now =
     [KeyCreatedAt \<mapsto> now, KeyClusterProvisioning \<mapsto> stateFalse, KeyClusterProvisioned \<mapsto> stateFalse,
      KeyNodePoolsReady \<mapsto> stateFalse, KeyKubernetesAPIReady \<mapsto> stateFalse,
      KeyClusterAccess \<mapsto> stateFalse, KeyKubeconfigPresent \<mapsto> stateFalse]"

definition createStateSecret ::
  "'w runtime \<Rightarrow> 'w kube_client \<Rightarrow> kubernetes_cluster \<Rightarrow> ('w, go_error + secret) go" where
  "createStateSecret R K kc =
     do {
       now \<leftarrow> time_Now R;
       (let secret0 = \<lparr>sec_Name = state_secret_name kc, sec_Namespace = kc_Namespace kc,
                       sec_ResourceVersion = [],
                       sec_Labels = [LabelClusterID \<mapsto> cd_ClusterId (kc_Cluster kc)],
                       sec_Owner = None, sec_Data = Some (initial_data (rt_rfc3339_utc R now))\<rparr>;
            secret = snd (kube_SetControllerReference K kc secret0)
        in do {
          e \<leftarrow> call (SecretCreate secret) (kube_CreateSecret K secret);
          (case e of
             Some err \<Rightarrow>
               if IsAlreadyExists err then getStateWithRetry R K kc else ret (Inl err)
           | None \<Rightarrow> getStateWithRetry R K kc)
        })
     }"

definition GetOrCreateState ::
  "'w runtime \<Rightarrow> 'w kube_client \<Rightarrow> kubernetes_cluster \<Rightarrow> ('w, go_error + secret) go" where
  "GetOrCreateState R K kc =
     do {
       r \<leftarrow> secretService_GetSecret K (state_secret_name kc) (kc_Namespace kc);
       (case r of
          Inr secret \<Rightarrow> ret (Inr secret)
        | Inl err \<Rightarrow>
            if \<not> IsNotFound err then ret (Inl err)
            else do {
              r2 \<leftarrow> secretService_GetSecret K (state_secret_name kc) (kc_Namespace kc);
              (case r2 of
                 Inr secret \<Rightarrow> ret (Inr secret)
               | Inl err2 \<Rightarrow>
                   if \<not> IsNotFound err2 then ret (Inl err2) else createStateSecret R K kc)
            })
     }"

section \<open>Updates\<close>

definition data_of :: "secret \<Rightarrow> string \<rightharpoonup> string" where
  "data_of secret = (case sec_Data secret of None \<Rightarrow> Map.empty | Some d \<Rightarrow> d)"

text \<open>
  The loop shared by \<open>UpdateState\<close>, \<open>UpdateStateMultiple\<close> and \<open>SetKubeconfig\<close>,
  which differ in what they assign to the data.
\<close>

fun update_attempts ::
  "'w runtime \<Rightarrow> 'w kube_client \<Rightarrow> kubernetes_cluster \<Rightarrow> ((string \<rightharpoonup> string) \<Rightarrow> string \<rightharpoonup> string) \<Rightarrow> nat \<Rightarrow>
     go_error option \<Rightarrow> ('w, go_error option) go" where
  "update_attempts R K kc edit 0 lastErr = ret lastErr"
| "update_attempts R K kc edit (Suc n) lastErr =
     do {
       r \<leftarrow> GetOrCreateState R K kc;
       (case r of
          Inl err \<Rightarrow> ret (Some err)
        | Inr secret \<Rightarrow>
            (let secret' = secret\<lparr>sec_Data := Some (edit (data_of secret))\<rparr> in
             do {
               e \<leftarrow> call (SecretUpdate secret') (kube_UpdateSecret K secret');
               (case e of
                  None \<Rightarrow> ret None
                | Some err \<Rightarrow>
                    if IsConflict err \<or> IsNotFound err
                    then do {
                      time_Sleep R retry_delay;
                      update_attempts R K kc edit n (Some err)
                    }
                    else ret (Some err))
             }))
     }"

definition UpdateState ::
  "'w runtime \<Rightarrow> 'w kube_client \<Rightarrow> kubernetes_cluster \<Rightarrow> string \<Rightarrow> string \<Rightarrow> ('w, go_error option) go" where
  "UpdateState R K kc key val = update_attempts R K kc (\<lambda>d. d(key \<mapsto> val)) 3 None"

definition UpdateStateMultiple ::
  "'w runtime \<Rightarrow> 'w kube_client \<Rightarrow> kubernetes_cluster \<Rightarrow> (string \<rightharpoonup> string) \<Rightarrow> ('w, go_error option) go" where
  "UpdateStateMultiple R K kc updates = update_attempts R K kc (\<lambda>d. d ++ updates) 3 None"

definition SetKubeconfig ::
  "'w runtime \<Rightarrow> 'w kube_client \<Rightarrow> kubernetes_cluster \<Rightarrow> string \<Rightarrow> ('w, go_error option) go" where
  "SetKubeconfig R K kc kubeconfig =
     update_attempts R K kc (\<lambda>d. d(KeyKubeConfig \<mapsto> kubeconfig, KeyKubeconfigPresent \<mapsto> stateTrue)) 3 None"

definition SetClusterProvisioning ::
  "'w runtime \<Rightarrow> 'w kube_client \<Rightarrow> kubernetes_cluster \<Rightarrow> ('w, go_error option) go" where
  "SetClusterProvisioning R K kc = UpdateState R K kc KeyClusterProvisioning stateTrue"

definition SetClusterFailed ::
  "'w runtime \<Rightarrow> 'w kube_client \<Rightarrow> kubernetes_cluster \<Rightarrow> string \<Rightarrow> ('w, go_error option) go" where
  "SetClusterFailed R K kc reason =
     (let updates = [KeyClusterProvisioning \<mapsto> stateFalse, KeyClusterProvisioned \<mapsto> stateFalse,
                     KeyAKSProvisionState \<mapsto> ''Failed'']
      in UpdateStateMultiple R K kc
           (if reason \<noteq> [] then updates(''failure_reason'' \<mapsto> reason) else updates))"

definition SetClusterProvisioned ::
  "'w runtime \<Rightarrow> 'w kube_client \<Rightarrow> kubernetes_cluster \<Rightarrow> string \<Rightarrow> string \<Rightarrow> string \<Rightarrow> ('w, go_error option) go" where
  "SetClusterProvisioned R K kc aksResourceID aksClusterName resourceGroupName =
     UpdateStateMultiple R K kc
       [KeyClusterProvisioning \<mapsto> stateFalse, KeyClusterProvisioned \<mapsto> stateTrue,
        KeyAKSResourceID \<mapsto> aksResourceID, KeyAKSClusterName \<mapsto> aksClusterName,
        KeyResourceGroupName \<mapsto> resourceGroupName]"

definition SetKubernetesAPIReady ::
  "'w runtime \<Rightarrow> 'w kube_client \<Rightarrow> kubernetes_cluster \<Rightarrow> ('w, go_error option) go" where
  "SetKubernetesAPIReady R K kc = UpdateState R K kc KeyKubernetesAPIReady stateTrue"

definition SetClusterReady ::
  "'w runtime \<Rightarrow> 'w kube_client \<Rightarrow> kubernetes_cluster \<Rightarrow> ('w, go_error option) go" where
  "SetClusterReady R K kc =
     do {
       now \<leftarrow> time_Now R;
       UpdateStateMultiple R K kc
         [KeyClusterAccess \<mapsto> stateTrue, KeyKubernetesAPIReady \<mapsto> stateTrue,
          KeyNodePoolsReady \<mapsto> stateTrue, KeyReadyAt \<mapsto> rt_rfc3339_utc R now]
     }"

definition SetAKSProvisionState ::
  "'w runtime \<Rightarrow> 'w kube_client \<Rightarrow> kubernetes_cluster \<Rightarrow> string \<Rightarrow> ('w, go_error option) go" where
  "SetAKSProvisionState R K kc st = UpdateState R K kc KeyAKSProvisionState st"

definition SetClusterFQDN ::
  "'w runtime \<Rightarrow> 'w kube_client \<Rightarrow> kubernetes_cluster \<Rightarrow> string \<Rightarrow> ('w, go_error option) go" where
  "SetClusterFQDN R K kc fqdn = UpdateState R K kc KeyAKSClusterFQDN fqdn"

definition SetNodePoolsConfigured ::
  "'w runtime \<Rightarrow> 'w kube_client \<Rightarrow> kubernetes_cluster \<Rightarrow> string \<Rightarrow> ('w, go_error option) go" where
  "SetNodePoolsConfigured R K kc nodePools = UpdateState R K kc KeyNodePoolsConfigured nodePools"

definition SetKubeSystemUID ::
  "'w runtime \<Rightarrow> 'w kube_client \<Rightarrow> kubernetes_cluster \<Rightarrow> string \<Rightarrow> ('w, go_error option) go" where
  "SetKubeSystemUID R K kc uid = UpdateState R K kc KeyKubeSystemUID uid"

section \<open>Reads\<close>

definition GetState ::
  "'w runtime \<Rightarrow> 'w kube_client \<Rightarrow> kubernetes_cluster \<Rightarrow> string \<Rightarrow> ('w, go_error + string) go" where
  "GetState R K kc key =
     do {
       r \<leftarrow> GetOrCreateState R K kc;
       ret (case r of
              Inl err \<Rightarrow> Inl err
            | Inr secret \<Rightarrow> Inr (case data_of secret key of Some val \<Rightarrow> val | None \<Rightarrow> []))
     }"

definition GetAllState ::
  "'w runtime \<Rightarrow> 'w kube_client \<Rightarrow> kubernetes_cluster \<Rightarrow> ('w, go_error + (string \<rightharpoonup> string)) go" where
  "GetAllState R K kc =
     do {
       r \<leftarrow> GetOrCreateState R K kc;
       ret (case r of Inl err \<Rightarrow> Inl err | Inr secret \<Rightarrow> Inr (data_of secret))
     }"

definition IsClusterProvisioned ::
  "'w runtime \<Rightarrow> 'w kube_client \<Rightarrow> kubernetes_cluster \<Rightarrow> ('w, go_error + bool) go" where
  "IsClusterProvisioned R K kc =
     do {
       r \<leftarrow> GetState R K kc KeyClusterProvisioned;
       ret (case r of Inl err \<Rightarrow> Inl err | Inr val \<Rightarrow> Inr (val = stateTrue))
     }"

definition IsKubernetesAPIReady ::
  "'w runtime \<Rightarrow> 'w kube_client \<Rightarrow> kubernetes_cluster \<Rightarrow> ('w, go_error + bool) go" where
  "IsKubernetesAPIReady R K kc =
     do {
       r \<leftarrow> GetState R K kc KeyKubernetesAPIReady;
       ret (case r of Inl err \<Rightarrow> Inl err | Inr val \<Rightarrow> Inr (val = stateTrue))
     }"

definition GetKubeconfig ::
  "'w runtime \<Rightarrow> 'w kube_client \<Rightarrow> kubernetes_cluster \<Rightarrow> ('w, go_error + string option) go" where
  "GetKubeconfig R K kc =
     do {
       r \<leftarrow> GetOrCreateState R K kc;
       ret (case r of Inl err \<Rightarrow> Inl err | Inr secret \<Rightarrow> Inr (data_of secret KeyKubeConfig))
     }"

definition GetKubeSystemUID ::
  "'w runtime \<Rightarrow> 'w kube_client \<Rightarrow> kubernetes_cluster \<Rightarrow> ('w, go_error + string) go" where
  "GetKubeSystemUID R K kc = GetState R K kc KeyKubeSystemUID"

definition DeleteState ::
  "'w kube_client \<Rightarrow> kubernetes_cluster \<Rightarrow> ('w, go_error option) go" where
  "DeleteState K kc =
     do {
       r \<leftarrow> secretService_GetSecret K (state_secret_name kc) (kc_Namespace kc);
       (case r of
          Inl err \<Rightarrow> ret (if IsNotFound err then None else Some err)
        | Inr secret \<Rightarrow> call (SecretDelete secret) (kube_DeleteSecret K secret))
     }"

section \<open>The calls of the service\<close>

lemma emits_GetSecret [emits_intros]: "emits is_secret_event (secretService_GetSecret K name namespace)"
  unfolding secretService_GetSecret_def by (intro emits_intros) simp

lemma emits_get_state_attempts: "emits is_secret_event (get_state_attempts R K kc n err)"
  by (induction n arbitrary: err) (auto intro!: emits_intros)

lemma emits_GetOrCreateState [emits_intros]: "emits is_secret_event (GetOrCreateState R K kc)"
  unfolding GetOrCreateState_def createStateSecret_def getStateWithRetry_def
  by (intro emits_intros emits_get_state_attempts; simp)

lemma emits_update_attempts: "emits is_secret_event (update_attempts R K kc edit n err)"
  by (induction n arbitrary: err) (auto intro!: emits_intros)

lemmas state_operations = UpdateState_def UpdateStateMultiple_def SetKubeconfig_def
  SetClusterProvisioning_def SetClusterFailed_def SetClusterProvisioned_def SetKubernetesAPIReady_def
  SetClusterReady_def SetAKSProvisionState_def SetClusterFQDN_def SetNodePoolsConfigured_def
  SetKubeSystemUID_def GetState_def GetAllState_def IsClusterProvisioned_def
  IsKubernetesAPIReady_def GetKubeconfig_def GetKubeSystemUID_def DeleteState_def

lemma emits_state_operations [emits_intros]:
  "emits is_secret_event (UpdateState R K kc key val)"
  "emits is_secret_event (UpdateStateMultiple R K kc updates)"
  "emits is_secret_event (SetKubeconfig R K kc config)"
  "emits is_secret_event (SetClusterProvisioning R K kc)"
  "emits is_secret_event (SetClusterFailed R K kc reason)"
  "emits is_secret_event (SetClusterProvisioned R K kc resource name rg)"
  "emits is_secret_event (SetKubernetesAPIReady R K kc)"
  "emits is_secret_event (SetClusterReady R K kc)"
  "emits is_secret_event (SetAKSProvisionState R K kc st)"
  "emits is_secret_event (SetClusterFQDN R K kc fqdn)"
  "emits is_secret_event (SetKubeSystemUID R K kc uid)"
  "emits is_secret_event (GetState R K kc key)"
  "emits is_secret_event (IsClusterProvisioned R K kc)"
  "emits is_secret_event (GetKubeconfig R K kc)"
  "emits is_secret_event (GetKubeSystemUID R K kc)"
  "emits is_secret_event (DeleteState K kc)"
  unfolding state_operations
  by (intro emits_intros emits_update_attempts; simp)+

text \<open>The secret's key in the API server, and the key of a cluster's state secret.\<close>

definition secret_key :: "secret \<Rightarrow> string \<times> string" where
  "secret_key x = (sec_Name x, sec_Namespace x)"

definition state_key :: "kubernetes_cluster \<Rightarrow> string \<times> string" where
  "state_key kc = (state_secret_name kc, kc_Namespace kc)"

section \<open>The API server\<close>

text \<open>
  The documented behaviour of the API server for secrets nobody else deletes. A read, which may come
  from the client's cache, returns some version the secret has had; versions are told apart by their
  resource version; an update is accepted only against the current version and a create only when
  there is no secret.
\<close>

type_synonym 'w store = "'w \<Rightarrow> string \<times> string \<rightharpoonup> secret"
type_synonym 'w history = "'w \<Rightarrow> string \<times> string \<Rightarrow> secret set"

definition same_store :: "'w store \<Rightarrow> 'w history \<Rightarrow> 'w \<Rightarrow> 'w \<Rightarrow> bool" where
  "same_store stored versions w w' \<longleftrightarrow> stored w' = stored w \<and> versions w' = versions w"

definition stores :: "'w store \<Rightarrow> 'w history \<Rightarrow> 'w \<Rightarrow> secret \<Rightarrow> 'w \<Rightarrow> bool" where
  "stores stored versions w x w' \<longleftrightarrow>
     (\<exists>rv. stored w' = (stored w)(secret_key x \<mapsto> x\<lparr>sec_ResourceVersion := rv\<rparr>)) \<and>
     (\<forall>k. versions w k \<subseteq> versions w' k)"

definition version_laws :: "'w store \<Rightarrow> 'w history \<Rightarrow> bool" where
  "version_laws stored versions \<longleftrightarrow>
     (\<forall>w k x. stored w k = Some x \<longrightarrow> x \<in> versions w k) \<and>
     (\<forall>w k x. x \<in> versions w k \<longrightarrow> secret_key x = k) \<and>
     (\<forall>w k x y. x \<in> versions w k \<longrightarrow> y \<in> versions w k \<longrightarrow>
        sec_ResourceVersion x = sec_ResourceVersion y \<longrightarrow> x = y)"

definition get_laws :: "'w kube_client \<Rightarrow> 'w store \<Rightarrow> 'w history \<Rightarrow> bool" where
  "get_laws K stored versions \<longleftrightarrow>
     (\<forall>n ns w r w'. kube_GetSecret K n ns w = (r, w') \<longrightarrow>
        same_store stored versions w w' \<and> (\<forall>x. r = Inr x \<longrightarrow> x \<in> versions w (n, ns)))"

definition secret_update_laws :: "'w kube_client \<Rightarrow> 'w store \<Rightarrow> 'w history \<Rightarrow> bool" where
  "secret_update_laws K stored versions \<longleftrightarrow>
     (\<forall>x w e w'. kube_UpdateSecret K x w = (e, w') \<longrightarrow>
        (if e = None
         then stores stored versions w x w' \<and>
           (\<exists>cur. stored w (secret_key x) = Some cur \<and> sec_ResourceVersion cur = sec_ResourceVersion x)
         else same_store stored versions w w'))"

definition create_laws :: "'w kube_client \<Rightarrow> 'w store \<Rightarrow> 'w history \<Rightarrow> bool" where
  "create_laws K stored versions \<longleftrightarrow>
     (\<forall>x w e w'. kube_CreateSecret K x w = (e, w') \<longrightarrow>
        (case e of
           None \<Rightarrow> stores stored versions w x w' \<and> stored w (secret_key x) = None
         | Some err \<Rightarrow> same_store stored versions w w' \<and>
             (IsAlreadyExists err \<longrightarrow> stored w (secret_key x) \<noteq> None)))"

definition local_laws :: "'w runtime \<Rightarrow> 'w kube_client \<Rightarrow> 'w store \<Rightarrow> 'w history \<Rightarrow> bool" where
  "local_laws R K stored versions \<longleftrightarrow>
     (\<forall>kc x. \<exists>owner. snd (kube_SetControllerReference K kc x) = x\<lparr>sec_Owner := owner\<rparr>) \<and>
     (\<forall>w t w'. rt_now R w = (t, w') \<longrightarrow> same_store stored versions w w') \<and>
     (\<forall>d w. same_store stored versions w (rt_sleep R d w))"

definition api_laws :: "'w runtime \<Rightarrow> 'w kube_client \<Rightarrow> 'w store \<Rightarrow> 'w history \<Rightarrow> bool" where
  "api_laws R K stored versions \<longleftrightarrow>
     version_laws stored versions \<and> get_laws K stored versions \<and> secret_update_laws K stored versions \<and>
     create_laws K stored versions \<and> local_laws R K stored versions"

lemma same_store_refl [simp]: "same_store stored versions w w"
  by (simp add: same_store_def)

lemma same_store_sleep:
  "local_laws R K stored versions \<Longrightarrow> same_store stored versions w (rt_sleep R d w') \<longleftrightarrow> same_store stored versions w w'"
  by (simp add: local_laws_def same_store_def)

section \<open>Accepted updates\<close>

text \<open>
  What an update rests on, whoever else writes the secrets meanwhile: the versions a secret has had
  only grow, a read returns one of them, and an accepted update replaces the version it was made
  from. A read, the clock and a refused call may come with writes of others; reads may be stale; an
  update that is answered with an error may have taken effect.
\<close>

definition keeps_versions :: "'w history \<Rightarrow> 'w \<Rightarrow> 'w \<Rightarrow> bool" where
  "keeps_versions versions w w' \<longleftrightarrow> (\<forall>k. versions w k \<subseteq> versions w' k)"

definition replaces :: "'w store \<Rightarrow> 'w \<Rightarrow> secret \<Rightarrow> 'w \<Rightarrow> bool" where
  "replaces stored w x w' \<longleftrightarrow>
     (\<exists>cur rv. stored w (secret_key x) = Some cur \<and> sec_ResourceVersion cur = sec_ResourceVersion x \<and>
        stored w' = (stored w)(secret_key x \<mapsto> x\<lparr>sec_ResourceVersion := rv\<rparr>))"

definition locking_laws :: "'w runtime \<Rightarrow> 'w kube_client \<Rightarrow> 'w store \<Rightarrow> 'w history \<Rightarrow> bool" where
  "locking_laws R K stored versions \<longleftrightarrow>
     version_laws stored versions \<and>
     (\<forall>n ns w r w'. kube_GetSecret K n ns w = (r, w') \<longrightarrow>
        keeps_versions versions w w' \<and> (\<forall>x. r = Inr x \<longrightarrow> x \<in> versions w' (n, ns))) \<and>
     (\<forall>x w e w'. kube_CreateSecret K x w = (e, w') \<longrightarrow> keeps_versions versions w w') \<and>
     (\<forall>x w e w'. kube_UpdateSecret K x w = (e, w') \<longrightarrow>
        keeps_versions versions w w' \<and> (e = None \<longrightarrow> replaces stored w x w')) \<and>
     (\<forall>w t w'. rt_now R w = (t, w') \<longrightarrow> keeps_versions versions w w') \<and>
     (\<forall>d w. keeps_versions versions w (rt_sleep R d w))"

lemma locking_lawsD:
  assumes "locking_laws R K stored versions"
  shows "version_laws stored versions"
    and "kube_GetSecret K n ns w = (r, w') \<Longrightarrow> keeps_versions versions w w'"
    and "kube_GetSecret K n ns w = (Inr x, w') \<Longrightarrow> x \<in> versions w' (n, ns)"
    and "kube_CreateSecret K x w = (e, w') \<Longrightarrow> keeps_versions versions w w'"
    and "kube_UpdateSecret K x w = (e, w') \<Longrightarrow> keeps_versions versions w w'"
    and "kube_UpdateSecret K x w = (None, w') \<Longrightarrow> replaces stored w x w'"
    and "rt_now R w = (t, w') \<Longrightarrow> keeps_versions versions w w'"
    and "keeps_versions versions w (rt_sleep R d w)"
  using assms unfolding locking_laws_def by blast+

text \<open>A single writer's API server obeys them.\<close>

lemma api_laws_locking:
  assumes "api_laws R K stored versions"
  shows "locking_laws R K stored versions"
proof -
  have keep: "same_store stored versions w w' \<Longrightarrow> keeps_versions versions w w'"
    "stores stored versions w x w' \<Longrightarrow> keeps_versions versions w w'" for w w' x
    by (simp_all add: same_store_def stores_def keeps_versions_def)
  note A = assms [unfolded api_laws_def]
  have "keeps_versions versions w w' \<and> (e = None \<longrightarrow> replaces stored w x w')"
    if "kube_UpdateSecret K x w = (e, w')" for x w e w'
  proof (cases e)
    case None
    then have u: "stores stored versions w x w'"
      "\<exists>cur. stored w (secret_key x) = Some cur \<and> sec_ResourceVersion cur = sec_ResourceVersion x"
      using A that unfolding secret_update_laws_def by auto
    then show ?thesis using keep(2) unfolding stores_def replaces_def by blast
  next
    case (Some err)
    then have "same_store stored versions w w'" using A that unfolding secret_update_laws_def by (metis option.distinct(1))
    then show ?thesis using keep(1) Some by simp
  qed
  moreover have "keeps_versions versions w w'" if "kube_CreateSecret K x w = (e, w')" for x w e w'
    using A that keep unfolding create_laws_def by (cases e) fastforce+
  moreover have "keeps_versions versions w w' \<and> (\<forall>x. r = Inr x \<longrightarrow> x \<in> versions w' (n, ns))"
    if "kube_GetSecret K n ns w = (r, w')" for n ns w r w'
    using A that keep(1) unfolding get_laws_def same_store_def by metis
  moreover have "\<forall>w t w'. rt_now R w = (t, w') \<longrightarrow> keeps_versions versions w w'"
    "\<forall>d w. keeps_versions versions w (rt_sleep R d w)" "version_laws stored versions"
    using A keep(1) unfolding local_laws_def by blast+
  ultimately show ?thesis unfolding locking_laws_def by (intro conjI) blast+
qed

lemma keeps_versions_trans:
  "keeps_versions versions w w' \<Longrightarrow> keeps_versions versions w' w'' \<Longrightarrow> keeps_versions versions w w''"
  unfolding keeps_versions_def by blast

lemma keeps_versions_refl [simp]: "keeps_versions versions w w"
  by (simp add: keeps_versions_def)

text \<open>A read of the state answers a version of the state secret.\<close>

definition reads_version :: "'w history \<Rightarrow> kubernetes_cluster \<Rightarrow> ('w, go_error + secret) go \<Rightarrow> bool" where
  "reads_version versions kc m \<longleftrightarrow> (\<forall>s r s'. run_state m s = (r, s') \<longrightarrow>
     keeps_versions versions (world s) (world s') \<and> (\<forall>x. r = Inr x \<longrightarrow> x \<in> versions (world s') (state_key kc)))"

lemma reads_versionI:
  assumes "keeps_versions versions (world s) (world s1)" and "reads_version versions kc m"
    and "run_state m s1 = (r, s')"
  shows "keeps_versions versions (world s) (world s') \<and> (\<forall>x. r = Inr x \<longrightarrow> x \<in> versions (world s') (state_key kc))"
  using assms keeps_versions_trans unfolding reads_version_def by metis

lemma reads_version_steps:
  assumes "\<And>w e w'. g w = (e, w') \<Longrightarrow> keeps_versions versions w w'" and "\<And>e. reads_version versions kc (f e)"
  shows "reads_version versions kc (State_Monad.bind (call ev g) f)"
    and "reads_version versions kc (State_Monad.bind (quiet g) f)"
proof -
  show "reads_version versions kc (State_Monad.bind (call ev g) f)"
    unfolding reads_version_def
  proof (intro allI impI)
    fix s r s' assume run: "run_state (State_Monad.bind (call ev g) f) s = (r, s')"
    obtain e w where g: "g (world s) = (e, w)" by fastforce
    show "keeps_versions versions (world s) (world s') \<and> (\<forall>x. r = Inr x \<longrightarrow> x \<in> versions (world s') (state_key kc))"
      by (rule reads_versionI [OF _ assms(2) [of e], of _ "s\<lparr>world := w, trace := trace s @ [ev e]\<rparr>"])
        (use run g assms(1) [OF g] in simp_all)
  qed
  show "reads_version versions kc (State_Monad.bind (quiet g) f)"
    unfolding reads_version_def
  proof (intro allI impI)
    fix s r s' assume run: "run_state (State_Monad.bind (quiet g) f) s = (r, s')"
    obtain e w where g: "g (world s) = (e, w)" by fastforce
    show "keeps_versions versions (world s) (world s') \<and> (\<forall>x. r = Inr x \<longrightarrow> x \<in> versions (world s') (state_key kc))"
      by (rule reads_versionI [OF _ assms(2) [of e], of _ "s\<lparr>world := w\<rparr>"])
        (use run g assms(1) [OF g] in \<open>simp_all add: quiet_def State_Monad.bind_def\<close>)
  qed
qed

lemma reads_version_error [simp]: "reads_version versions kc (ret (Inl e))"
  by (simp add: reads_version_def)

lemma reads_version_get:
  assumes L: "locking_laws R K stored versions" and f: "\<And>e. reads_version versions kc (f e)"
  shows "reads_version versions kc (State_Monad.bind (secretService_GetSecret K (state_secret_name kc) (kc_Namespace kc))
     (\<lambda>r. case r of Inr secret \<Rightarrow> ret (Inr secret) | Inl e \<Rightarrow> f e))"
  unfolding reads_version_def
proof (intro allI impI)
  fix s r s'
  assume run: "run_state (State_Monad.bind (secretService_GetSecret K (state_secret_name kc) (kc_Namespace kc))
     (\<lambda>r. case r of Inr secret \<Rightarrow> ret (Inr secret) | Inl e \<Rightarrow> f e)) s = (r, s')"
  obtain q w where g: "kube_GetSecret K (state_secret_name kc) (kc_Namespace kc) (world s) = (q, w)" by fastforce
  note k = locking_lawsD(2) [OF L g]
  show "keeps_versions versions (world s) (world s') \<and> (\<forall>x. r = Inr x \<longrightarrow> x \<in> versions (world s') (state_key kc))"
  proof (cases q)
    case (Inl e)
    show ?thesis
      by (rule reads_versionI [OF _ f [of e], of _ "s\<lparr>world := w, trace := trace s @ [SecretGet (state_secret_name kc)
          (kc_Namespace kc) (Some e)]\<rparr>"]) (use run g k Inl in \<open>simp_all add: secretService_GetSecret_def\<close>)
  next
    case (Inr x)
    then show ?thesis
      using run g k locking_lawsD(3) [OF L] by (auto simp: secretService_GetSecret_def state_key_def)
  qed
qed

lemma reads_version_attempts:
  assumes L: "locking_laws R K stored versions"
  shows "reads_version versions kc (get_state_attempts R K kc n err)"
proof (induction n arbitrary: err)
  case (Suc n)
  have "reads_version versions kc (if \<not> IsNotFound e then ret (Inl e)
      else do { time_Sleep R retry_delay; get_state_attempts R K kc n e })" for e
    using Suc locking_lawsD(8) [OF L] by (auto simp: time_Sleep_def intro!: reads_version_steps(2))
  then show ?case by (simp only: get_state_attempts.simps) (rule reads_version_get [OF L])
qed simp

lemma reads_version_GetOrCreateState:
  assumes L: "locking_laws R K stored versions"
  shows "reads_version versions kc (GetOrCreateState R K kc)"
proof -
  note attempts = reads_version_attempts [OF L]
  have create: "reads_version versions kc (createStateSecret R K kc)"
    unfolding createStateSecret_def getStateWithRetry_def time_Now_def Let_def
    by (intro reads_version_steps) (auto intro: locking_lawsD(4,7) [OF L] attempts split: option.split)
  have "reads_version versions kc (if \<not> IsNotFound e then ret (Inl e) else createStateSecret R K kc)" for e
    using create by simp
  from reads_version_get [OF L this]
  have "reads_version versions kc (if \<not> IsNotFound e then ret (Inl e) else
      do { r2 \<leftarrow> secretService_GetSecret K (state_secret_name kc) (kc_Namespace kc);
        (case r2 of Inr secret \<Rightarrow> ret (Inr secret)
         | Inl err2 \<Rightarrow> if \<not> IsNotFound err2 then ret (Inl err2) else createStateSecret R K kc) })" for e
    by simp
  then show ?thesis unfolding GetOrCreateState_def by (rule reads_version_get [OF L])
qed

text \<open>
  The update of a run that was accepted: the run sent it last, nothing it sent before was accepted,
  and it replaced the secret then stored by the same secret with its data edited.
\<close>

definition accepted_edit ::
  "'w kube_client \<Rightarrow> 'w store \<Rightarrow> kubernetes_cluster \<Rightarrow> ((string \<rightharpoonup> string) \<Rightarrow> string \<rightharpoonup> string) \<Rightarrow>
     'w st \<Rightarrow> 'w st \<Rightarrow> bool" where
  "accepted_edit K stored kc edit s s' \<longleftrightarrow>
     (\<exists>es x cur w rv. trace s' = trace s @ es @ [SecretUpdate x None] \<and> (\<forall>y. SecretUpdate y None \<notin> set es) \<and>
        kube_UpdateSecret K x w = (None, world s') \<and> stored w (state_key kc) = Some cur \<and>
        x = cur\<lparr>sec_Data := Some (edit (case sec_Data cur of None \<Rightarrow> Map.empty | Some d \<Rightarrow> d))\<rparr> \<and>
        stored (world s') = (stored w)(state_key kc \<mapsto> x\<lparr>sec_ResourceVersion := rv\<rparr>))"

lemma emits_GetOrCreateState_reads: "emits (\<lambda>e. is_secret_event e \<and> (\<forall>x r. e \<noteq> SecretUpdate x r)) (GetOrCreateState R K kc)"
proof -
  have get: "emits (\<lambda>e. is_secret_event e \<and> (\<forall>x r. e \<noteq> SecretUpdate x r)) (secretService_GetSecret K n ns)" for n ns
    unfolding secretService_GetSecret_def by (intro emits_intros) simp
  have attempts: "emits (\<lambda>e. is_secret_event e \<and> (\<forall>x r. e \<noteq> SecretUpdate x r)) (get_state_attempts R K kc n err)" for n err
    by (induction n arbitrary: err) (auto intro!: emits_intros get)
  show ?thesis
    unfolding GetOrCreateState_def createStateSecret_def getStateWithRetry_def
    by (intro emits_intros get attempts; simp)
qed

lemma update_attempts_accepted:
  assumes L: "locking_laws R K stored versions"
    and "run_state (update_attempts R K kc edit n err) s = (None, s')" and "n = 0 \<Longrightarrow> err \<noteq> None"
  shows "accepted_edit K stored kc edit s s'"
  using assms(2,3)
proof (induction n arbitrary: err s)
  case (Suc n)
  obtain r s1 where g: "run_state (GetOrCreateState R K kc) s = (r, s1)" by fastforce
  then obtain x where r: "r = Inr x" using Suc.prems(1) by (cases r) auto
  obtain gs where gs: "trace s1 = trace s @ gs" "\<forall>y q. SecretUpdate y q \<notin> set gs"
    using emitsD [OF emits_GetOrCreateState_reads g] by metis
  have x: "x \<in> versions (world s1) (state_key kc)"
    using reads_version_GetOrCreateState [OF L] g r unfolding reads_version_def by blast
  then have key: "secret_key x = state_key kc"
    using locking_lawsD(1) [OF L] unfolding version_laws_def by blast
  define x' where "x' = x\<lparr>sec_Data := Some (edit (data_of x))\<rparr>"
  obtain e w where u: "kube_UpdateSecret K x' (world s1) = (e, w)" by fastforce
  define s2 where "s2 = s1\<lparr>world := w, trace := trace s1 @ [SecretUpdate x' e]\<rparr>"
  show ?case
  proof (cases e)
    case None
    then have s': "s' = s2"
      using Suc.prems(1) g r u by (auto simp: Let_def s2_def x'_def)
    have key': "secret_key x' = state_key kc" "sec_ResourceVersion x' = sec_ResourceVersion x"
      using key by (simp_all add: x'_def secret_key_def)
    obtain cur rv where cur: "stored (world s1) (state_key kc) = Some cur"
      "sec_ResourceVersion cur = sec_ResourceVersion x"
      "stored w = (stored (world s1))(state_key kc \<mapsto> x'\<lparr>sec_ResourceVersion := rv\<rparr>)"
      using locking_lawsD(6) [OF L] u None key' unfolding replaces_def by metis
    have "cur = x"
      using locking_lawsD(1) [OF L] cur(1,2) x unfolding version_laws_def by blast
    then show ?thesis
      using s' gs cur u None unfolding accepted_edit_def
      by (intro exI [of _ gs] exI [of _ x'] exI [of _ x] exI [of _ "world s1"] exI [of _ rv])
        (simp add: s2_def x'_def data_of_def)
  next
    case (Some er)
    define s3 where "s3 = s2\<lparr>world := rt_sleep R retry_delay (world s2)\<rparr>"
    have "run_state (update_attempts R K kc edit n (Some er)) s3 = (None, s')"
      unfolding s3_def using Suc.prems(1) g r u Some by (auto simp: Let_def s2_def x'_def split: if_splits)
    from Suc.IH [OF this] have "accepted_edit K stored kc edit s3 s'" by simp
    then obtain es y cur v rv where "trace s' = trace s3 @ es @ [SecretUpdate y None]" "\<forall>z. SecretUpdate z None \<notin> set es"
      and rest: "kube_UpdateSecret K y v = (None, world s')" "stored v (state_key kc) = Some cur"
        "y = cur\<lparr>sec_Data := Some (edit (case sec_Data cur of None \<Rightarrow> Map.empty | Some d \<Rightarrow> d))\<rparr>"
        "stored (world s') = (stored v)(state_key kc \<mapsto> y\<lparr>sec_ResourceVersion := rv\<rparr>)"
      unfolding accepted_edit_def by blast
    then have "trace s' = trace s @ (gs @ [SecretUpdate x' e] @ es) @ [SecretUpdate y None]"
      "\<forall>z. SecretUpdate z None \<notin> set (gs @ [SecretUpdate x' e] @ es)"
      using gs Some by (simp_all add: s3_def s2_def)
    then show ?thesis unfolding accepted_edit_def using rest by blast
  qed
qed auto

text \<open>A read that answers the version stored last returns the data it was stored with.\<close>

lemma GetState_current:
  assumes L: "locking_laws R K stored versions"
    and g: "run_state (GetOrCreateState R K kc) s = (Inr y, t)"
    and z: "stored (world s) (state_key kc) = Some z" "sec_ResourceVersion y = sec_ResourceVersion z"
  shows "y = z"
proof -
  have V: "version_laws stored versions" by (rule locking_lawsD(1) [OF L])
  have y: "y \<in> versions (world t) (state_key kc)" "keeps_versions versions (world s) (world t)"
    using reads_version_GetOrCreateState [OF L] g unfolding reads_version_def by blast+
  have "z \<in> versions (world t) (state_key kc)"
    using V y(2) z(1) unfolding version_laws_def keeps_versions_def by blast
  then show ?thesis using V y(1) z(2) unfolding version_laws_def by blast
qed

text \<open>C14. An update of the state that reports success has, with the last call it made and no earlier
  one, replaced the secret stored at that moment by the same secret with exactly the one key changed,
  and touched no other secret; the next read, if it answers the version stored, returns the value.
  Other writers may be at work all the time, reads may be stale (the client caches them), and an
  update answered with an error may have taken effect; what is relied on is that the API server
  accepts an update against the current resource version only.\<close>

theorem update_state_roundtrip:
  assumes L: "locking_laws R K stored versions"
    and run: "run_state (UpdateState R K kc key val) s = (None, s')"
  shows "accepted_edit K stored kc (\<lambda>d. d(key \<mapsto> val)) s s' \<and>
     (\<forall>y t z. run_state (GetOrCreateState R K kc) s' = (Inr y, t) \<longrightarrow>
        stored (world s') (state_key kc) = Some z \<longrightarrow> sec_ResourceVersion y = sec_ResourceVersion z \<longrightarrow>
        fst (run_state (GetState R K kc key) s') = Inr val)"
proof -
  have A: "accepted_edit K stored kc (\<lambda>d. d(key \<mapsto> val)) s s'"
    using update_attempts_accepted [OF L run [unfolded UpdateState_def]] by simp
  have "fst (run_state (GetState R K kc key) s') = Inr val"
    if g: "run_state (GetOrCreateState R K kc) s' = (Inr y, t)" and z: "stored (world s') (state_key kc) = Some z"
      "sec_ResourceVersion y = sec_ResourceVersion z" for y t z
  proof -
    have "data_of z key = Some val" using A z(1) by (auto simp: accepted_edit_def data_of_def)
    then show ?thesis using g GetState_current [OF L g z] by (simp add: GetState_def)
  qed
  with A show ?thesis by blast
qed

text \<open>C40. Marking a cluster as provisioned is one update: the secret stored when it is accepted gets the
  cluster marked as provisioned and no longer provisioning together with the Azure identifiers given,
  and keeps every other key; \<open>IsClusterProvisioned\<close> then answers yes on a read that sees the version
  stored (a stale read may still say no). Other writers may be at work all the time.\<close>

theorem set_cluster_provisioned_effect:
  assumes L: "locking_laws R K stored versions"
    and run: "run_state (SetClusterProvisioned R K kc resource name rg) s = (None, s')"
  shows "accepted_edit K stored kc
       (\<lambda>d. d(KeyClusterProvisioning \<mapsto> stateFalse, KeyClusterProvisioned \<mapsto> stateTrue,
              KeyAKSResourceID \<mapsto> resource, KeyAKSClusterName \<mapsto> name, KeyResourceGroupName \<mapsto> rg)) s s' \<and>
     (\<forall>y t z. run_state (GetOrCreateState R K kc) s' = (Inr y, t) \<longrightarrow>
        stored (world s') (state_key kc) = Some z \<longrightarrow> sec_ResourceVersion y = sec_ResourceVersion z \<longrightarrow>
        fst (run_state (IsClusterProvisioned R K kc) s') = Inr True)"
proof -
  let ?edit = "\<lambda>d. d(KeyClusterProvisioning \<mapsto> stateFalse, KeyClusterProvisioned \<mapsto> stateTrue,
              KeyAKSResourceID \<mapsto> resource, KeyAKSClusterName \<mapsto> name, KeyResourceGroupName \<mapsto> rg)"
  have edit: "?edit = (\<lambda>d. d ++ [KeyClusterProvisioning \<mapsto> stateFalse, KeyClusterProvisioned \<mapsto> stateTrue,
              KeyAKSResourceID \<mapsto> resource, KeyAKSClusterName \<mapsto> name, KeyResourceGroupName \<mapsto> rg])"
    by (rule ext) simp
  have A: "accepted_edit K stored kc ?edit s s'"
    unfolding edit
    using update_attempts_accepted [OF L run [unfolded SetClusterProvisioned_def UpdateStateMultiple_def]] by simp
  have "fst (run_state (IsClusterProvisioned R K kc) s') = Inr True"
    if g: "run_state (GetOrCreateState R K kc) s' = (Inr y, t)" and z: "stored (world s') (state_key kc) = Some z"
      "sec_ResourceVersion y = sec_ResourceVersion z" for y t z
  proof -
    have "data_of z KeyClusterProvisioned = Some stateTrue" using A z(1) by (auto simp: accepted_edit_def data_of_def)
    then show ?thesis using g GetState_current [OF L g z] by (simp add: IsClusterProvisioned_def GetState_def)
  qed
  with A show ?thesis by blast
qed

section \<open>Retries\<close>

definition is_secret_update :: "event \<Rightarrow> bool" where
  "is_secret_update e \<longleftrightarrow> (\<exists>x r. e = SecretUpdate x r)"

lemma is_secret_update_simp [simp]: "is_secret_update (SecretUpdate x r)"
  by (simp add: is_secret_update_def)

lemma update_attempts_trace:
  assumes "run_state (update_attempts R K kc edit n err) s = (r, s')"
  shows "\<exists>es. trace s' = trace s @ es \<and> (\<forall>e\<in>set es. is_secret_event e) \<and>
     length (filter is_secret_update es) \<le> n \<and>
     (\<forall>x e. SecretUpdate x (Some e) \<in> set (butlast es) \<longrightarrow> IsConflict e \<or> IsNotFound e) \<and>
     (es = [] \<longrightarrow> n = 0 \<and> r = err) \<and> (es \<noteq> [] \<longrightarrow> (r = None \<longleftrightarrow> (\<exists>x. last es = SecretUpdate x None)))"
  using assms
proof (induction n arbitrary: err s)
  case (Suc n)
  obtain q s1 where g: "run_state (GetOrCreateState R K kc) s = (q, s1)" by fastforce
  obtain gs where gs: "trace s1 = trace s @ gs" "\<forall>e\<in>set gs. is_secret_event e \<and> (\<forall>x r. e \<noteq> SecretUpdate x r)"
    using emitsD [OF emits_GetOrCreateState_reads g] .
  have ne: "gs \<noteq> []"
    using g gs(1) by (auto simp: GetOrCreateState_def createStateSecret_def getStateWithRetry_def
        secretService_GetSecret_def numeral_3_eq_3 Let_def split: error_splits)
  have no: "filter is_secret_update gs = []"
    using gs(2) by (auto simp: filter_empty_conv is_secret_update_def)
  show ?case
  proof (cases q)
    case (Inl e)
    then have "r = Some e \<and> s' = s1" using Suc.prems g by simp
    moreover have "last gs \<noteq> SecretUpdate x None" for x using gs(2) ne by auto
    moreover have "SecretUpdate x (Some e) \<notin> set (butlast gs)" for x e
      using gs(2) by (auto dest: in_set_butlastD)
    ultimately show ?thesis using gs ne no by (intro exI [of _ gs]) auto
  next
    case (Inr x)
    define x' where "x' = x\<lparr>sec_Data := Some (edit (data_of x))\<rparr>"
    define u where "u = kube_UpdateSecret K x' (world s1)"
    define s2 where "s2 = s1\<lparr>world := snd u, trace := trace s1 @ [SecretUpdate x' (fst u)]\<rparr>"
    have quiet: "SecretUpdate y (Some e) \<notin> set gs" for y e using gs(2) by auto
    show ?thesis
    proof (cases "\<exists>e. fst u = Some e \<and> (IsConflict e \<or> IsNotFound e)")
      case False
      then have "r = fst u \<and> s' = s2"
        using Suc.prems g Inr by (auto simp: Let_def s2_def u_def x'_def split: option.splits if_splits)
      then show ?thesis
        using gs no quiet
        by (intro exI [of _ "gs @ [SecretUpdate x' (fst u)]"])
          (auto simp: s2_def butlast_append)
    next
      case True
      then obtain e where e: "fst u = Some e" "IsConflict e \<or> IsNotFound e" by blast
      define s3 where "s3 = s2\<lparr>world := rt_sleep R retry_delay (world s2)\<rparr>"
      have rest: "run_state (update_attempts R K kc edit n (Some e)) s3 = (r, s')"
        using Suc.prems g Inr e by (simp add: Let_def s3_def s2_def u_def x'_def)
      obtain es where es: "trace s' = trace s3 @ es" "\<forall>e\<in>set es. is_secret_event e"
        "length (filter is_secret_update es) \<le> n"
        "\<forall>x e. SecretUpdate x (Some e) \<in> set (butlast es) \<longrightarrow> IsConflict e \<or> IsNotFound e"
        "es = [] \<longrightarrow> n = 0 \<and> r = Some e" "es \<noteq> [] \<longrightarrow> (r = None \<longleftrightarrow> (\<exists>x. last es = SecretUpdate x None))"
        using Suc.IH [OF rest] by blast
      show ?thesis
        using gs no quiet es e
        by (intro exI [of _ "gs @ [SecretUpdate x' (fst u)] @ es"])
          (auto simp: s3_def s2_def butlast_append split: if_splits)
    qed
  qed
qed simp

text \<open>C38. An update of the state calls the API server for secrets only and sends at most three
  updates; it retries after a conflict or a missing secret only, and it reports success exactly when
  its last call was an accepted update.\<close>

theorem update_state_bounded:
  assumes "run_state (UpdateState R K kc key val) s = (r, s')"
  shows "\<exists>es. trace s' = trace s @ es \<and> (\<forall>e\<in>set es. is_secret_event e) \<and>
     length (filter is_secret_update es) \<le> 3 \<and>
     (\<forall>x e. SecretUpdate x (Some e) \<in> set (butlast es) \<longrightarrow> IsConflict e \<or> IsNotFound e) \<and>
     es \<noteq> [] \<and> (r = None \<longleftrightarrow> (\<exists>x. last es = SecretUpdate x None))"
  using update_attempts_trace [OF assms [unfolded UpdateState_def]] by auto

section \<open>Creation\<close>








section \<open>Witnesses\<close>

text \<open>An API server that keeps all versions of every secret; the resource version counts them.\<close>

type_synonym fx_versions = "string \<times> string \<Rightarrow> secret list"

definition fx_history :: "fx_versions \<Rightarrow> string \<times> string \<Rightarrow> secret list" where
  "fx_history w k = filter (\<lambda>x. secret_key x = k) (w k)"

definition fx_tag :: "nat \<Rightarrow> secret \<Rightarrow> secret" where
  "fx_tag n x = x\<lparr>sec_ResourceVersion := replicate n (CHR ''v'')\<rparr>"

definition fx_current :: "fx_versions \<Rightarrow> string \<times> string \<rightharpoonup> secret" where
  "fx_current w k =
     (let h = fx_history w k in if h = [] then None else Some (fx_tag (length h - 1) (last h)))"

definition fx_all :: "fx_versions \<Rightarrow> string \<times> string \<Rightarrow> secret set" where
  "fx_all w k = (\<lambda>i. fx_tag i (fx_history w k ! i)) ` {..<length (fx_history w k)}"

definition fx_append :: "secret \<Rightarrow> fx_versions \<Rightarrow> fx_versions" where
  "fx_append x w = w(secret_key x := w (secret_key x) @ [x])"

definition fx_api :: "fx_versions kube_client" where
  "fx_api =
     \<lparr>kube_Get = (\<lambda>n ns w. (Inr fx_cluster, w)),
      kube_Update = (\<lambda>kc w. ((None, kc), w)),
      kube_StatusUpdate = (\<lambda>kc w. ((None, kc), w)),
      kube_ListMachineClasses = (\<lambda>w. (Inr [], w)),
      kube_GetSecret = (\<lambda>n ns w.
        (case fx_current w (n, ns) of None \<Rightarrow> Inl fx_not_found | Some x \<Rightarrow> Inr x, w)),
      kube_CreateSecret = (\<lambda>x w.
        if fx_current w (secret_key x) = None then (None, fx_append x w)
        else (Some \<lparr>err_text = ''already exists'', err_reason = AlreadyExistsReason\<rparr>, w)),
      kube_UpdateSecret = (\<lambda>x w.
        (case fx_current w (secret_key x) of
           None \<Rightarrow> (Some fx_not_found, w)
         | Some cur \<Rightarrow>
             if sec_ResourceVersion cur = sec_ResourceVersion x then (None, fx_append x w)
             else (Some \<lparr>err_text = ''conflict'', err_reason = ConflictReason\<rparr>, w))),
      kube_DeleteSecret = (\<lambda>x w. (Some fx_not_found, w)),
      kube_SetControllerReference = (\<lambda>kc x. (None, x\<lparr>sec_Owner := Some (kc_Name kc)\<rparr>)),
      kube_ContainsFinalizer = (\<lambda>kc f. f \<in> set (kc_Finalizers kc)),
      kube_AddFinalizer = (\<lambda>kc f. kc),
      kube_RemoveFinalizer = (\<lambda>kc f. kc)\<rparr>"

definition fx_rt0 :: "fx_versions runtime" where
  "fx_rt0 = \<lparr>rt_now = (\<lambda>w. (0, w)), rt_sleep = (\<lambda>d w. w), rt_getenv = (\<lambda>n. []),
     rt_range = (\<lambda>ks w. (ks, w)), rt_rfc3339 = (\<lambda>t. []), rt_rfc3339_utc = (\<lambda>t. ''now''),
     rt_sort_conditions = (\<lambda>cs. cs)\<rparr>"

definition fx_st0 :: "fx_versions st" where
  "fx_st0 = \<lparr>world = (\<lambda>k. []), trace = [],
     vm_cache = \<lparr>vmc_data = Map.empty, vmc_expiry = Map.empty, vmc_ttl = 30\<rparr>,
     class_cache = \<lparr>clc_data = [], clc_expiry = 0, clc_ttl = 30\<rparr>\<rparr>"

lemma fx_history_append:
  "fx_history (fx_append x w) k =
     (if k = secret_key x then fx_history w k @ [x] else fx_history w k)"
  by (simp add: fx_history_def fx_append_def)

lemma fx_key_tag [simp]: "secret_key (fx_tag n x) = secret_key x"
  by (simp add: secret_key_def fx_tag_def)

lemma fx_history_key: "x \<in> set (fx_history w k) \<Longrightarrow> secret_key x = k"
  by (simp add: fx_history_def)

lemma fx_tag_version [simp]: "sec_ResourceVersion (fx_tag n x) = replicate n (CHR ''v'')"
  by (simp add: fx_tag_def)

lemma fx_version_laws: "version_laws fx_current fx_all"
  unfolding version_laws_def
proof (intro conjI allI impI)
  fix w k x
  assume "fx_current w k = Some x"
  then have "fx_history w k \<noteq> []" "x = fx_tag (length (fx_history w k) - 1) (last (fx_history w k))"
    by (simp_all add: fx_current_def Let_def split: if_splits)
  then show "x \<in> fx_all w k"
    unfolding fx_all_def
    by (intro image_eqI [of _ _ "length (fx_history w k) - 1"]) (simp_all add: last_conv_nth)
next
  fix w k x
  assume "x \<in> fx_all w k"
  then obtain i where "i < length (fx_history w k)" "x = fx_tag i (fx_history w k ! i)"
    by (auto simp: fx_all_def)
  then show "secret_key x = k" using fx_history_key [OF nth_mem, of i w k] by simp
next
  fix w k x y
  assume "x \<in> fx_all w k" and "y \<in> fx_all w k" and "sec_ResourceVersion x = sec_ResourceVersion y"
  then show "x = y" by (auto simp: fx_all_def)
qed

lemma fx_stores: "stores fx_current fx_all w x (fx_append x w)"
proof -
  have "fx_current (fx_append x w) = (fx_current w)(secret_key x \<mapsto>
      x\<lparr>sec_ResourceVersion := replicate (length (fx_history w (secret_key x))) (CHR ''v'')\<rparr>)"
    by (auto simp: fx_current_def fx_history_append Let_def fx_tag_def)
  moreover have "fx_all w k \<subseteq> fx_all (fx_append x w) k" for k
    by (auto simp: fx_all_def fx_history_append nth_append)
  ultimately show ?thesis unfolding stores_def by blast
qed

lemma fx_api_laws: "api_laws fx_rt0 fx_api fx_current fx_all"
  unfolding api_laws_def
proof (intro conjI fx_version_laws)
  have "x \<in> fx_all w k" if "fx_current w k = Some x" for w k x
    using fx_version_laws that unfolding version_laws_def by blast
  then show "get_laws fx_api fx_current fx_all"
    by (auto simp: get_laws_def fx_api_def split: option.splits)
  show "secret_update_laws fx_api fx_current fx_all"
    by (auto simp: secret_update_laws_def fx_api_def fx_stores fx_not_found_def split: option.splits if_splits)
  show "create_laws fx_api fx_current fx_all"
    by (auto simp: create_laws_def fx_api_def fx_stores split: if_splits)
  show "local_laws fx_rt0 fx_api fx_current fx_all"
    by (auto simp: local_laws_def fx_api_def fx_rt0_def)
qed

text \<open>The same server behind a cache that lags behind by a number of versions, one fewer at each read.\<close>

definition fx_seen :: "nat \<Rightarrow> fx_versions \<Rightarrow> string \<times> string \<rightharpoonup> secret" where
  "fx_seen lag w k =
     (let h = fx_history w k; n = length h - lag
      in if n = 0 then None else Some (fx_tag (n - 1) (h ! (n - 1))))"

definition fx_lagging :: "(fx_versions \<times> nat) kube_client" where
  "fx_lagging =
     \<lparr>kube_Get = (\<lambda>n ns w. (Inr fx_cluster, w)),
      kube_Update = (\<lambda>kc w. ((None, kc), w)),
      kube_StatusUpdate = (\<lambda>kc w. ((None, kc), w)),
      kube_ListMachineClasses = (\<lambda>w. (Inr [], w)),
      kube_GetSecret = (\<lambda>n ns (w, lag).
        (case fx_seen lag w (n, ns) of None \<Rightarrow> Inl fx_not_found | Some x \<Rightarrow> Inr x, (w, lag - 1))),
      kube_CreateSecret = (\<lambda>x (w, lag). let (e, w') = kube_CreateSecret fx_api x w in (e, (w', lag))),
      kube_UpdateSecret = (\<lambda>x (w, lag). let (e, w') = kube_UpdateSecret fx_api x w in (e, (w', lag))),
      kube_DeleteSecret = (\<lambda>x w. (Some fx_not_found, w)),
      kube_SetControllerReference = (\<lambda>kc x. (None, x\<lparr>sec_Owner := Some (kc_Name kc)\<rparr>)),
      kube_ContainsFinalizer = (\<lambda>kc f. f \<in> set (kc_Finalizers kc)),
      kube_AddFinalizer = (\<lambda>kc f. kc),
      kube_RemoveFinalizer = (\<lambda>kc f. kc)\<rparr>"

definition fx_lagging_runtime :: "(fx_versions \<times> nat) runtime" where
  "fx_lagging_runtime = \<lparr>rt_now = (\<lambda>w. (0, w)), rt_sleep = (\<lambda>d w. w), rt_getenv = (\<lambda>n. []),
     rt_range = (\<lambda>ks w. (ks, w)), rt_rfc3339 = (\<lambda>t. []), rt_rfc3339_utc = (\<lambda>t. ''now''),
     rt_sort_conditions = (\<lambda>cs. cs)\<rparr>"

definition fx_lagging_stored :: "(fx_versions \<times> nat) store" where
  "fx_lagging_stored w = fx_current (fst w)"

definition fx_lagging_versions :: "(fx_versions \<times> nat) history" where
  "fx_lagging_versions w = fx_all (fst w)"

lemma fx_lagging_store:
  "same_store fx_lagging_stored fx_lagging_versions (w, i) (w', j) \<longleftrightarrow> same_store fx_current fx_all w w'"
  "stores fx_lagging_stored fx_lagging_versions (w, i) x (w', j) \<longleftrightarrow> stores fx_current fx_all w x w'"
  "fx_lagging_stored (w, i) = fx_current w"
  by (simp_all add: same_store_def stores_def fx_lagging_stored_def fx_lagging_versions_def)

lemma fx_seen_version: "fx_seen lag w k = Some x \<Longrightarrow> x \<in> fx_all w k"
  by (auto simp: fx_seen_def fx_all_def Let_def split: if_splits)

lemma fx_lagging_laws: "api_laws fx_lagging_runtime fx_lagging fx_lagging_stored fx_lagging_versions"
proof -
  note A = fx_api_laws [unfolded api_laws_def]
  have "version_laws fx_lagging_stored fx_lagging_versions"
    using A unfolding version_laws_def fx_lagging_stored_def fx_lagging_versions_def by blast
  moreover have "get_laws fx_lagging fx_lagging_stored fx_lagging_versions"
    by (auto simp: get_laws_def fx_lagging_def same_store_def fx_lagging_stored_def fx_lagging_versions_def
        fx_seen_version split: option.splits)
  moreover have "secret_update_laws fx_lagging fx_lagging_stored fx_lagging_versions"
    unfolding secret_update_laws_def
  proof (intro allI impI)
    fix x v e v' assume "kube_UpdateSecret fx_lagging x v = (e, v')"
    then obtain w lag w' where v: "v = (w, lag)" "v' = (w', lag)" "kube_UpdateSecret fx_api x w = (e, w')"
      by (cases v) (auto simp: fx_lagging_def split: prod.splits)
    with A show "if e = None then stores fx_lagging_stored fx_lagging_versions v x v' \<and>
        (\<exists>cur. fx_lagging_stored v (secret_key x) = Some cur \<and> sec_ResourceVersion cur = sec_ResourceVersion x)
      else same_store fx_lagging_stored fx_lagging_versions v v'"
      unfolding secret_update_laws_def v(1,2) fx_lagging_store by blast
  qed
  moreover have "create_laws fx_lagging fx_lagging_stored fx_lagging_versions"
    unfolding create_laws_def
  proof (intro allI impI)
    fix x v e v' assume "kube_CreateSecret fx_lagging x v = (e, v')"
    then obtain w lag w' where v: "v = (w, lag)" "v' = (w', lag)" "kube_CreateSecret fx_api x w = (e, w')"
      by (cases v) (auto simp: fx_lagging_def split: prod.splits)
    with A show "case e of
        None \<Rightarrow> stores fx_lagging_stored fx_lagging_versions v x v' \<and> fx_lagging_stored v (secret_key x) = None
      | Some err \<Rightarrow> same_store fx_lagging_stored fx_lagging_versions v v' \<and>
          (IsAlreadyExists err \<longrightarrow> fx_lagging_stored v (secret_key x) \<noteq> None)"
      unfolding create_laws_def v(1,2) fx_lagging_store by blast
  qed
  moreover have "local_laws fx_lagging_runtime fx_lagging fx_lagging_stored fx_lagging_versions"
    by (auto simp: local_laws_def fx_lagging_def fx_lagging_runtime_def same_store_def)
  ultimately show ?thesis by (simp add: api_laws_def)
qed

definition fx_secret :: secret where
  "fx_secret =
     \<lparr>sec_Name = ''c1'', sec_Namespace = ''team'', sec_ResourceVersion = ''7'', sec_Labels = Map.empty,
      sec_Owner = None, sec_Data = Some [KeyKubeConfig \<mapsto> ''config'']\<rparr>"

text \<open>The secret has had the given number of versions; the cache is behind.\<close>

definition fx_behind :: "nat \<Rightarrow> nat \<Rightarrow> (fx_versions \<times> nat) st" where
  "fx_behind n lag = \<lparr>world = ((\<lambda>k. replicate n fx_secret), lag), trace = [],
     vm_cache = \<lparr>vmc_data = Map.empty, vmc_expiry = Map.empty, vmc_ttl = 30\<rparr>,
     class_cache = \<lparr>clc_data = [], clc_expiry = 0, clc_ttl = 30\<rparr>\<rparr>"

definition fx_state_with :: "fx_world \<Rightarrow> fx_world st" where
  "fx_state_with w = fx_state\<lparr>world := w\<rparr>"

lemma fx_found:
  "run_state (GetOrCreateState fx_runtime fx_kube fx_cluster) (fx_state_with [(''c1'', ''team'') \<mapsto> fx_secret]) =
     (Inr fx_secret, (fx_state_with [(''c1'', ''team'') \<mapsto> fx_secret])\<lparr>trace := [SecretGet ''c1'' ''team'' None]\<rparr>)"
  by (simp add: GetOrCreateState_def secretService_GetSecret_def fx_kube_def fx_stored_def fx_secret_def
      fx_state_with_def fx_state_def state_secret_name_def fx_cluster_def)

lemma fx_update_runs:
  "fst (run_state (update_attempts fx_runtime fx_kube fx_cluster edit 3 None)
      (fx_state_with [(''c1'', ''team'') \<mapsto> fx_secret])) = None"
  by (simp add: numeral_3_eq_3 fx_found Let_def) (simp add: fx_kube_def)

lemmas fx_lagging_eval = fx_lagging_def fx_lagging_runtime_def fx_api_def fx_seen_def fx_current_def
  fx_history_def fx_append_def fx_tag_def fx_secret_def secret_key_def fx_cluster_def state_secret_name_def
  data_of_def

text \<open>The read sees the first of two versions.\<close>

lemma fx_behind_read:
  "run_state (GetOrCreateState fx_lagging_runtime fx_lagging fx_cluster) (fx_behind 2 1) =
     (Inr (fx_tag 0 fx_secret), (fx_behind 2 0)\<lparr>trace := [SecretGet ''c1'' ''team'' None]\<rparr>)"
  by (simp add: GetOrCreateState_def secretService_GetSecret_def fx_behind_def fx_lagging_eval Let_def numeral_2_eq_2)

lemma fx_caught_up_read:
  "run_state (GetOrCreateState fx_lagging_runtime fx_lagging fx_cluster) ((fx_behind 2 0)\<lparr>trace := es\<rparr>) =
     (Inr (fx_tag 1 fx_secret), (fx_behind 2 0)\<lparr>trace := es @ [SecretGet ''c1'' ''team'' None]\<rparr>)"
  by (simp add: GetOrCreateState_def secretService_GetSecret_def fx_behind_def fx_lagging_eval Let_def numeral_2_eq_2)

lemma fx_behind_update:
  "kube_UpdateSecret fx_lagging ((fx_tag n fx_secret)\<lparr>sec_Data := d\<rparr>) (world (fx_behind 2 0)) =
     (if replicate n (CHR ''v'') = ''v''
      then (None, (fx_append ((fx_tag n fx_secret)\<lparr>sec_Data := d\<rparr>) (\<lambda>k. replicate 2 fx_secret), 0))
      else (Some \<lparr>err_text = ''conflict'', err_reason = ConflictReason\<rparr>, ((\<lambda>k. replicate 2 fx_secret), 0)))"
  by (auto simp: fx_behind_def fx_lagging_eval Let_def numeral_2_eq_2)

text \<open>An update that starts from the stale version is refused once and then accepted.\<close>

lemma fx_behind_runs:
  "\<exists>s'. run_state (update_attempts fx_lagging_runtime fx_lagging fx_cluster edit 3 None) (fx_behind 2 1) = (None, s')"
proof -
  have zero: "(fx_behind 2 0)\<lparr>world := rt_sleep fx_lagging_runtime d ((\<lambda>k. replicate 2 fx_secret), 0), trace := es\<rparr> =
      (fx_behind 2 0)\<lparr>trace := es\<rparr>"
    "(fx_behind 2 0)\<lparr>trace := es, world := rt_sleep fx_lagging_runtime d ((\<lambda>k. replicate 2 fx_secret), 0)\<rparr> =
      (fx_behind 2 0)\<lparr>trace := es\<rparr>" for es d
    by (simp_all add: fx_behind_def fx_lagging_runtime_def)
  have conflict: "IsConflict \<lparr>err_text = ''conflict'', err_reason = ConflictReason\<rparr>" by (simp add: IsConflict_def)
  show ?thesis
    by (simp add: numeral_3_eq_3 fx_behind_read [simplified One_nat_def] fx_behind_update Let_def zero conflict
        fx_caught_up_read [simplified One_nat_def])
qed

lemma fx_lagging_locking: "locking_laws fx_lagging_runtime fx_lagging fx_lagging_stored fx_lagging_versions"
  by (rule api_laws_locking [OF fx_lagging_laws])

text \<open>The first attempt starts from a stale version and is refused; the second one is accepted.\<close>

theorem update_state_roundtrip_witness:
  "\<exists>s'. run_state (UpdateState fx_lagging_runtime fx_lagging fx_cluster KeyClusterAccess stateTrue) (fx_behind 2 1)
       = (None, s') \<and>
     accepted_edit fx_lagging fx_lagging_stored fx_cluster (\<lambda>d. d(KeyClusterAccess \<mapsto> stateTrue)) (fx_behind 2 1) s'"
proof -
  obtain s' where run: "run_state (UpdateState fx_lagging_runtime fx_lagging fx_cluster KeyClusterAccess stateTrue)
      (fx_behind 2 1) = (None, s')"
    using fx_behind_runs unfolding UpdateState_def by blast
  with update_state_roundtrip [OF fx_lagging_locking run] show ?thesis by blast
qed

theorem set_cluster_provisioned_effect_witness:
  "\<exists>s' x. run_state (SetClusterProvisioned fx_lagging_runtime fx_lagging fx_cluster ''/aks/c1'' ''c1'' ''rg'') (fx_behind 2 1)
       = (None, s') \<and>
     fx_lagging_stored (world s') (''c1'', ''team'') = Some x \<and>
     data_of x KeyClusterProvisioned = Some stateTrue \<and> data_of x KeyAKSResourceID = Some ''/aks/c1''"
proof -
  obtain s' where run: "run_state (SetClusterProvisioned fx_lagging_runtime fx_lagging fx_cluster ''/aks/c1'' ''c1'' ''rg'')
      (fx_behind 2 1) = (None, s')"
    using fx_behind_runs unfolding SetClusterProvisioned_def UpdateStateMultiple_def by blast
  moreover have "state_key fx_cluster = (''c1'', ''team'')"
    by (simp add: state_key_def state_secret_name_def fx_cluster_def)
  ultimately show ?thesis
    using conjunct1 [OF set_cluster_provisioned_effect [OF fx_lagging_locking run]]
    unfolding accepted_edit_def by (fastforce simp: data_of_def)
qed

theorem update_state_bounded_witness:
  "length (filter is_secret_update (trace (snd (run_state
      (UpdateState fx_runtime fx_kube fx_cluster KeyClusterAccess stateTrue)
      (fx_state_with [(''c1'', ''team'') \<mapsto> fx_secret]))))) \<le> 3"
  using update_state_bounded [OF prod.collapse [symmetric],
      of fx_runtime fx_kube fx_cluster KeyClusterAccess stateTrue
      "fx_state_with [(''c1'', ''team'') \<mapsto> fx_secret]"]
  by (auto simp: fx_state_with_def fx_state_def)


end
