(* ===== verification/Status.thy ===== *)
theory Status
  imports Runtime Fixtures "HOL-Library.List_Lexorder" "HOL-Library.Char_ord"
begin

text \<open>
  \<open>internal/controller/kubernetescluster_status.go\<close> and the constants of
  \<open>kubernetescluster_constants.go\<close>: the status of a \<open>KubernetesCluster\<close>. The
  resource is mutated in place, so every operation returns it; a write to the API server returns the
  object as the server sent it back. Timestamps are strings compared bytewise, as Go does.
\<close>

section \<open>Constants\<close>

definition KubernetesClusterFinalizer :: string where
  "KubernetesClusterFinalizer = ''kubernetescluster.vitistack.io/finalizer''"

definition ControllerRequeueDelay :: time where
  "ControllerRequeueDelay = 5 * 1000000000"

definition ControllerRequeueError :: time where
  "ControllerRequeueError = 60 * 1000000000"

definition PhaseCreating :: string where "PhaseCreating = ''Creating''"
definition PhaseProvisioning :: string where "PhaseProvisioning = ''Provisioning''"
definition PhaseReady :: string where "PhaseReady = ''Ready''"
definition PhaseUpdating :: string where "PhaseUpdating = ''Updating''"
definition PhaseDeleting :: string where "PhaseDeleting = ''Deleting''"
definition PhaseFailed :: string where "PhaseFailed = ''Failed''"

definition ConditionClusterProvisioned :: string where
  "ConditionClusterProvisioned = ''ClusterProvisioned''"
definition ConditionClusterReady :: string where
  "ConditionClusterReady = ''ClusterReady''"
definition ConditionKubeConfigReady :: string where
  "ConditionKubeConfigReady = ''KubeConfigReady''"
definition ConditionKubernetesAPIReady :: string where
  "ConditionKubernetesAPIReady = ''KubernetesAPIReady''"
definition ConditionNodePoolsReady :: string where
  "ConditionNodePoolsReady = ''NodePoolsReady''"

definition ConditionStatusOK :: string where "ConditionStatusOK = ''ok''"
definition ConditionStatusError :: string where "ConditionStatusError = ''error''"
definition ConditionStatusWorking :: string where "ConditionStatusWorking = ''working''"
definition ConditionStatusUnknown :: string where "ConditionStatusUnknown = ''unknown''"

definition AnnotationAKSClusterID :: string where
  "AnnotationAKSClusterID = ''vitistack.io/aks-cluster-id''"
definition AnnotationKubeSystemUID :: string where
  "AnnotationKubeSystemUID = ''vitistack.io/kube-system-uid''"

lemmas phase_defs = PhaseCreating_def PhaseProvisioning_def PhaseReady_def PhaseUpdating_def
  PhaseDeleting_def PhaseFailed_def

lemmas condition_defs = ConditionClusterProvisioned_def ConditionClusterReady_def
  ConditionKubeConfigReady_def ConditionKubernetesAPIReady_def ConditionNodePoolsReady_def

lemmas condition_status_defs = ConditionStatusOK_def ConditionStatusError_def
  ConditionStatusWorking_def ConditionStatusUnknown_def

section \<open>Defaults\<close>

definition default_resource :: resource_usage where
  "default_resource = \<lparr>ru_Capacity = 0, ru_Used = 0, ru_Percentage = 0\<rparr>"

definition init_resource :: "resource_usage \<Rightarrow> resource_usage" where
  "init_resource u = (if ru_Capacity u = 0 then default_resource else u)"

definition init_resources :: "resource_set \<Rightarrow> resource_set" where
  "init_resources s =
     \<lparr>rs_CPU = init_resource (rs_CPU s), rs_Memory = init_resource (rs_Memory s),
      rs_Disk = init_resource (rs_Disk s), rs_GPU = init_resource (rs_GPU s)\<rparr>"

definition or_default :: "'a \<Rightarrow> 'a option \<Rightarrow> 'a option" where
  "or_default d x = (case x of None \<Rightarrow> Some d | Some y \<Rightarrow> Some y)"

definition init_state :: "time \<Rightarrow> string \<Rightarrow> status_state \<Rightarrow> status_state" where
  "init_state now version s =
     s\<lparr>ss_Created := (if ss_Created s = 0 then now else ss_Created s),
       ss_LastUpdated := now, ss_LastUpdatedBy := ''aks-operator'',
       ss_Endpoints := or_default [] (ss_Endpoints s),
       ss_Versions := or_default [\<lparr>ver_Name = ''kubernetes'', ver_Version = version, ver_Branch = ''stable''\<rparr>]
         (ss_Versions s),
       ss_EgressIP := (if ss_EgressIP s = [] then ''pending'' else ss_EgressIP s),
       ss_Resources := init_resources (ss_Resources s),
       ss_ControlPlaneResources := init_resources (ss_ControlPlaneResources s),
       ss_ControlPlaneNodes := or_default [] (ss_ControlPlaneNodes s),
       ss_NodePools := or_default [] (ss_NodePools s)\<rparr>"

definition map_status :: "(cluster_status \<Rightarrow> cluster_status) \<Rightarrow> kubernetes_cluster \<Rightarrow> kubernetes_cluster" where
  "map_status f kc = kc\<lparr>kc_Status := f (kc_Status kc)\<rparr>"

definition map_state :: "(status_state \<Rightarrow> status_state) \<Rightarrow> cluster_status \<Rightarrow> cluster_status" where
  "map_state f s = s\<lparr>st_State := f (st_State s)\<rparr>"

definition initializeStatusState :: "'w runtime \<Rightarrow> kubernetes_cluster \<Rightarrow> ('w, kubernetes_cluster) go" where
  "initializeStatusState R kc =
     do {
       now \<leftarrow> time_Now R;
       ret (map_status (map_state (init_state now (tp_Version (kc_Topology kc)))) kc)
     }"

section \<open>Conditions\<close>

text \<open>The list of conditions after \<open>setCondition\<close>, and whether it changed.\<close>

fun set_condition :: "string \<Rightarrow> string \<Rightarrow> string \<Rightarrow> string \<Rightarrow> condition list \<Rightarrow> bool \<times> condition list" where
  "set_condition now ct status message [] =
     (True, [\<lparr>cond_Type = ct, cond_Status = status, cond_Message = message, cond_LastTransitionTime = now\<rparr>])"
| "set_condition now ct status message (c # cs) =
     (if cond_Type c = ct
      then (if cond_Status c = status \<and> cond_Message c = message then (False, c # cs)
            else (True, c\<lparr>cond_Status := status, cond_Message := message, cond_LastTransitionTime := now\<rparr> # cs))
      else (let (changed, cs') = set_condition now ct status message cs in (changed, c # cs')))"

definition set_conditions :: "condition list \<Rightarrow> cluster_status \<Rightarrow> cluster_status" where
  "set_conditions cs s = s\<lparr>st_Conditions := cs\<rparr>"

definition setCondition ::
  "'w runtime \<Rightarrow> string \<Rightarrow> string \<Rightarrow> string \<Rightarrow> kubernetes_cluster \<Rightarrow> ('w, bool \<times> kubernetes_cluster) go" where
  "setCondition R ct status message kc =
     do {
       t \<leftarrow> time_Now R;
       (let (changed, cs) = set_condition (rt_rfc3339 R t) ct status message (st_Conditions (kc_Status kc))
        in ret (changed, map_status (set_conditions cs) kc))
     }"

definition condition_newer :: "condition \<Rightarrow> condition \<Rightarrow> bool" where
  "condition_newer a b \<longleftrightarrow> cond_LastTransitionTime b < cond_LastTransitionTime a"

definition sortConditions :: "'w runtime \<Rightarrow> kubernetes_cluster \<Rightarrow> kubernetes_cluster" where
  "sortConditions R kc =
     map_status (set_conditions (rt_sort_conditions R (st_Conditions (kc_Status kc)))) kc"

definition set_phase :: "string \<Rightarrow> kubernetes_cluster \<Rightarrow> kubernetes_cluster" where
  "set_phase phase kc = map_status (\<lambda>s. s\<lparr>st_Phase := phase\<rparr>) kc"

definition updatePhaseAndCondition ::
  "'w runtime \<Rightarrow> 'w kube_client \<Rightarrow> kubernetes_cluster \<Rightarrow> string \<Rightarrow> string \<Rightarrow> string \<Rightarrow> string \<Rightarrow>
     ('w, go_error option \<times> kubernetes_cluster) go" where
  "updatePhaseAndCondition R K kc phase conditionType status message =
     do {
       kc1 \<leftarrow> initializeStatusState R kc;
       (_, kc2) \<leftarrow> setCondition R conditionType status message (set_phase phase kc1);
       (let kc3 = sortConditions R kc2
        in call (\<lambda>r. KubeUpdateStatus kc3 (fst r)) (kube_StatusUpdate K kc3))
     }"

section \<open>Conditions of a phase\<close>

record phase_conditions =
  pc_provisioned :: string
  pc_ready :: string
  pc_apiReady :: string
  pc_kubeconfig :: string
  pc_nodepools :: string

definition all_conditions :: "string \<Rightarrow> phase_conditions" where
  "all_conditions s = \<lparr>pc_provisioned = s, pc_ready = s, pc_apiReady = s, pc_kubeconfig = s, pc_nodepools = s\<rparr>"

definition conditions_of_phase :: "string \<Rightarrow> phase_conditions" where
  "conditions_of_phase phase =
     (if phase = PhaseReady then all_conditions ConditionStatusOK
      else if phase = PhaseFailed then all_conditions ConditionStatusError
      else if phase = PhaseCreating \<or> phase = PhaseProvisioning
      then (all_conditions ConditionStatusUnknown)
             \<lparr>pc_provisioned := ConditionStatusWorking, pc_ready := ConditionStatusWorking\<rparr>
      else if phase = PhaseUpdating
      then (all_conditions ConditionStatusOK)
             \<lparr>pc_ready := ConditionStatusWorking, pc_nodepools := ConditionStatusWorking\<rparr>
      else if phase = PhaseDeleting
      then (all_conditions ConditionStatusUnknown)
             \<lparr>pc_provisioned := ConditionStatusWorking, pc_ready := ConditionStatusWorking\<rparr>
      else all_conditions ConditionStatusUnknown)"

definition getAPIReadyMessage :: "string \<Rightarrow> string" where
  "getAPIReadyMessage status =
     (if status = ConditionStatusOK then ''Kubernetes API server is accessible''
      else if status = ConditionStatusError then ''Kubernetes API server is not accessible''
      else if status = ConditionStatusWorking then ''Waiting for Kubernetes API server''
      else ''Kubernetes API status unknown'')"

definition getKubeconfigMessage :: "string \<Rightarrow> string" where
  "getKubeconfigMessage status =
     (if status = ConditionStatusOK then ''Kubeconfig is available in cluster state secret''
      else if status = ConditionStatusError then ''Failed to retrieve kubeconfig''
      else if status = ConditionStatusWorking then ''Waiting for kubeconfig''
      else ''Kubeconfig status unknown'')"

definition getNodePoolsMessage :: "string \<Rightarrow> string" where
  "getNodePoolsMessage status =
     (if status = ConditionStatusOK then ''All node pools are ready''
      else if status = ConditionStatusError then ''One or more node pools have errors''
      else if status = ConditionStatusWorking then ''Node pools are being provisioned''
      else ''Node pools status unknown'')"

definition updateConditionsFromState ::
  "'w runtime \<Rightarrow> kubernetes_cluster \<Rightarrow> string \<Rightarrow> string \<Rightarrow> string \<Rightarrow> ('w, kubernetes_cluster) go" where
  "updateConditionsFromState R kc phase provisioningState message =
     (let p = conditions_of_phase phase in
      do {
        (_, kc1) \<leftarrow> setCondition R ConditionClusterProvisioned (pc_provisioned p)
                     (''Azure state: '' @ provisioningState) kc;
        (_, kc2) \<leftarrow> setCondition R ConditionClusterReady (pc_ready p) message kc1;
        (_, kc3) \<leftarrow> setCondition R ConditionKubernetesAPIReady (pc_apiReady p)
                     (getAPIReadyMessage (pc_apiReady p)) kc2;
        (_, kc4) \<leftarrow> setCondition R ConditionKubeConfigReady (pc_kubeconfig p)
                     (getKubeconfigMessage (pc_kubeconfig p)) kc3;
        (_, kc5) \<leftarrow> setCondition R ConditionNodePoolsReady (pc_nodepools p)
                     (getNodePoolsMessage (pc_nodepools p)) kc4;
        ret kc5
      })"

section \<open>The full status\<close>

definition set_external_id :: "managed_cluster \<Rightarrow> kubernetes_cluster \<Rightarrow> kubernetes_cluster" where
  "set_external_id aks kc =
     (case mc_ID aks of
        None \<Rightarrow> kc
      | Some id' \<Rightarrow> map_status (map_state (\<lambda>s. s\<lparr>ss_ExternalId := id'\<rparr>)) kc)"

definition cluster_fqdn :: "managed_cluster \<Rightarrow> string option" where
  "cluster_fqdn aks = Option.bind (mc_Properties aks) mp_Fqdn"

definition set_endpoints :: "managed_cluster \<Rightarrow> kubernetes_cluster \<Rightarrow> kubernetes_cluster" where
  "set_endpoints aks kc =
     (case cluster_fqdn aks of
        None \<Rightarrow> kc
      | Some fqdn \<Rightarrow>
          map_status (map_state (\<lambda>s. s\<lparr>ss_Endpoints :=
            Some [\<lparr>ep_Name = ''kubernetes'', ep_Address = ''https://'' @ fqdn @ '':443''\<rparr>]\<rparr>)) kc)"

text \<open>The annotation is written by an update of the whole resource, only when it differs.\<close>

definition annotation_is :: "kubernetes_cluster \<Rightarrow> string \<Rightarrow> string \<Rightarrow> bool" where
  "annotation_is kc key val \<longleftrightarrow>
     (case kc_Annotations kc of None \<Rightarrow> val = [] | Some m \<Rightarrow> (case m key of None \<Rightarrow> val = [] | Some v \<Rightarrow> v = val))"

definition set_annotation :: "string \<Rightarrow> string \<Rightarrow> kubernetes_cluster \<Rightarrow> kubernetes_cluster" where
  "set_annotation key val kc =
     kc\<lparr>kc_Annotations := Some ((case kc_Annotations kc of None \<Rightarrow> Map.empty | Some m \<Rightarrow> m)(key \<mapsto> val))\<rparr>"

definition ensure_annotations :: "kubernetes_cluster \<Rightarrow> kubernetes_cluster" where
  "ensure_annotations kc = kc\<lparr>kc_Annotations := or_default Map.empty (kc_Annotations kc)\<rparr>"

definition annotate_cluster_id ::
  "'w kube_client \<Rightarrow> managed_cluster \<Rightarrow> kubernetes_cluster \<Rightarrow> ('w, kubernetes_cluster) go" where
  "annotate_cluster_id K aks kc =
     (case mc_ID aks of
        None \<Rightarrow> ret kc
      | Some id' \<Rightarrow>
          if annotation_is kc AnnotationAKSClusterID id' then ret (set_external_id aks (ensure_annotations kc))
          else (let kc1 = set_annotation AnnotationAKSClusterID id' kc in
            do {
              r \<leftarrow> call (\<lambda>r. KubeUpdateCluster kc1 (fst r)) (kube_Update K kc1);
              ret (set_external_id aks (snd r))
            }))"

definition aks_state :: "managed_cluster \<Rightarrow> string option" where
  "aks_state aks = Option.bind (mc_Properties aks) mp_ProvisioningState"

definition status_message :: "string \<Rightarrow> managed_cluster \<Rightarrow> string" where
  "status_message phase aks =
     (case aks_state aks of
        None \<Rightarrow> ''Cluster is '' @ phase
      | Some st \<Rightarrow> ''Cluster is '' @ phase @ '' (Azure state: '' @ st @ '')'')"

definition state_or_unknown :: "managed_cluster \<Rightarrow> string" where
  "state_or_unknown aks = (case aks_state aks of None \<Rightarrow> ''Unknown'' | Some st \<Rightarrow> st)"

definition updateClusterStatus ::
  "'w runtime \<Rightarrow> 'w kube_client \<Rightarrow> kubernetes_cluster \<Rightarrow> managed_cluster \<Rightarrow> string \<Rightarrow>
     ('w, go_error option \<times> kubernetes_cluster) go" where
  "updateClusterStatus R K kc aks phase =
     do {
       kc1 \<leftarrow> initializeStatusState R kc;
       kc2 \<leftarrow> annotate_cluster_id K aks kc1;
       kc3 \<leftarrow> updateConditionsFromState R (set_phase phase (set_endpoints aks kc2)) phase
               (state_or_unknown aks) (status_message phase aks);
       (let kc4 = sortConditions R kc3 in
        do {
          (e, kc5) \<leftarrow> call (\<lambda>r. KubeUpdateStatus kc4 (fst r)) (kube_StatusUpdate K kc4);
          (case e of
             None \<Rightarrow> ret (None, kc5)
           | Some err \<Rightarrow>
               if Contains (err_text err) ''conflict'' \<or> Contains (err_text err) ''modified''
               then do {
                 g \<leftarrow> call (\<lambda>r. KubeGetCluster (kc_Name kc5) (kc_Namespace kc5) (sum_error r))
                        (kube_Get K (kc_Name kc5) (kc_Namespace kc5));
                 (case g of
                    Inl fetchErr \<Rightarrow> ret (Some (wrap_error ''failed to re-fetch cluster'' fetchErr), kc5)
                  | Inr fresh \<Rightarrow>
                      do {
                        kc6 \<leftarrow> initializeStatusState R fresh;
                        kc7 \<leftarrow> updateConditionsFromState R
                                (set_phase phase (set_endpoints aks (set_external_id aks kc6))) phase
                                (state_or_unknown aks) (status_message phase aks);
                        (let kc8 = sortConditions R kc7
                         in call (\<lambda>r. KubeUpdateStatus kc8 (fst r)) (kube_StatusUpdate K kc8))
                      })
               }
               else ret (Some err, kc5))
        })
     }"

section \<open>Setting one condition\<close>

definition condition_of :: "condition list \<Rightarrow> string \<Rightarrow> condition option" where
  "condition_of cs ct = List.find (\<lambda>c. cond_Type c = ct) cs"

definition one_per_type :: "condition list \<Rightarrow> bool" where
  "one_per_type cs \<longleftrightarrow> distinct (map cond_Type cs)"

lemma set_condition_types:
  "map cond_Type (snd (set_condition now ct status message cs)) =
     (if ct \<in> set (map cond_Type cs) then map cond_Type cs else map cond_Type cs @ [ct])"
  by (induction cs) (auto simp: Let_def case_prod_beta)

lemma set_condition_one_per_type [simp]:
  "one_per_type cs \<Longrightarrow> one_per_type (snd (set_condition now ct status message cs))"
  unfolding one_per_type_def set_condition_types by auto

lemma condition_of_set:
  "condition_of (snd (set_condition now ct status message cs)) ct' =
     (if ct' \<noteq> ct then condition_of cs ct'
      else (case condition_of cs ct of
              Some c \<Rightarrow>
                if cond_Status c = status \<and> cond_Message c = message then Some c
                else Some (c\<lparr>cond_Status := status, cond_Message := message, cond_LastTransitionTime := now\<rparr>)
            | None \<Rightarrow> Some \<lparr>cond_Type = ct, cond_Status = status, cond_Message = message,
                            cond_LastTransitionTime = now\<rparr>))"
  by (induction cs) (auto simp: condition_of_def Let_def case_prod_beta)

definition status_of :: "condition list \<Rightarrow> string \<Rightarrow> string option" where
  "status_of cs ct = map_option cond_Status (condition_of cs ct)"

lemma status_of_set [simp]:
  "status_of (snd (set_condition now ct status message cs)) ct' = (if ct' = ct then Some status else status_of cs ct')"
  by (auto simp: status_of_def condition_of_set split: option.splits)

lemma set_condition_changed:
  "fst (set_condition now ct status message cs) \<longleftrightarrow>
     \<not> (\<exists>c. condition_of cs ct = Some c \<and> cond_Status c = status \<and> cond_Message c = message)"
  by (induction cs) (auto simp: condition_of_def Let_def case_prod_beta)

lemma set_condition_unchanged:
  "\<not> fst (set_condition now ct status message cs) \<Longrightarrow> snd (set_condition now ct status message cs) = cs"
  by (induction cs) (auto simp: Let_def case_prod_beta split: if_splits)

text \<open>C21. Setting a condition keeps one condition per type, gives that type the status and the message
  asked for, leaves every other type alone, and moves the transition time only when the status or the
  message changes; setting it again, at any later time, changes nothing.\<close>

theorem set_condition_correct:
  assumes one: "one_per_type cs" and cs': "(changed, cs') = set_condition now ct status message cs"
  shows "one_per_type cs' \<and> set (map cond_Type cs') = insert ct (set (map cond_Type cs)) \<and>
     (\<forall>ct'. ct' \<noteq> ct \<longrightarrow> condition_of cs' ct' = condition_of cs ct') \<and>
     (\<exists>c. condition_of cs' ct = Some c \<and> cond_Status c = status \<and> cond_Message c = message \<and>
        (changed \<longrightarrow> cond_LastTransitionTime c = now)) \<and>
     (\<not> changed \<longrightarrow> cs' = cs) \<and>
     set_condition later ct status message cs' = (False, cs')"
proof -
  have e: "changed = fst (set_condition now ct status message cs)" "cs' = snd (set_condition now ct status message cs)"
    using cs' by (metis fst_conv, metis snd_conv)
  obtain c where c: "condition_of cs' ct = Some c" "cond_Status c = status" "cond_Message c = message"
    "changed \<longrightarrow> cond_LastTransitionTime c = now"
    unfolding e set_condition_changed condition_of_set
    by (cases "condition_of cs ct"; cases "cond_Status (the (condition_of cs ct)) = status \<and>
          cond_Message (the (condition_of cs ct)) = message") auto
  have "\<not> fst (set_condition later ct status message cs')"
    unfolding set_condition_changed using c by blast
  then have again: "set_condition later ct status message cs' = (False, cs')"
    using set_condition_unchanged [of later ct status message cs'] by (simp add: prod_eq_iff)
  have "set (map cond_Type cs') = insert ct (set (map cond_Type cs))"
    unfolding e(2) set_condition_types by auto
  moreover have "\<forall>ct'. ct' \<noteq> ct \<longrightarrow> condition_of cs' ct' = condition_of cs ct'"
    unfolding e(2) condition_of_set by simp
  ultimately show ?thesis
    using one c again set_condition_unchanged e by auto
qed

section \<open>The conditions of a phase\<close>

definition expected_conditions :: "string \<Rightarrow> (string \<times> string) list" where
  "expected_conditions phase =
     (let p = conditions_of_phase phase in
      [(ConditionClusterProvisioned, pc_provisioned p), (ConditionClusterReady, pc_ready p),
       (ConditionKubernetesAPIReady, pc_apiReady p), (ConditionKubeConfigReady, pc_kubeconfig p),
       (ConditionNodePoolsReady, pc_nodepools p)])"

lemma run_setCondition:
  "run_state (setCondition R ct status message kc) s =
     ((fst (set_condition (rt_rfc3339 R (fst (rt_now R (world s)))) ct status message (st_Conditions (kc_Status kc))),
       map_status (set_conditions (snd (set_condition (rt_rfc3339 R (fst (rt_now R (world s)))) ct status message
         (st_Conditions (kc_Status kc))))) kc),
      s\<lparr>world := snd (rt_now R (world s))\<rparr>)"
  by (simp add: setCondition_def case_prod_beta Let_def)

lemma map_status_conditions [simp]:
  "st_Conditions (kc_Status (map_status (set_conditions cs) kc)) = cs"
  "map_status (set_conditions cs') (map_status (set_conditions cs) kc) = map_status (set_conditions cs') kc"
  "st_Phase (kc_Status (map_status (set_conditions cs) kc)) = st_Phase (kc_Status kc)"
  "st_State (kc_Status (map_status (set_conditions cs) kc)) = st_State (kc_Status kc)"
  by (simp_all add: map_status_def set_conditions_def)

lemma condition_types_distinct:
  "distinct [ConditionClusterProvisioned, ConditionClusterReady, ConditionKubernetesAPIReady,
     ConditionKubeConfigReady, ConditionNodePoolsReady]"
  by (simp add: condition_defs)

lemma updateConditionsFromState_run:
  assumes "run_state (updateConditionsFromState R kc phase st message) s = (kc', s')"
    and p: "p = conditions_of_phase phase"
  obtains t1 t2 t3 t4 t5 where "kc' = map_status (set_conditions
      (snd (set_condition t5 ConditionNodePoolsReady (pc_nodepools p) (getNodePoolsMessage (pc_nodepools p))
      (snd (set_condition t4 ConditionKubeConfigReady (pc_kubeconfig p) (getKubeconfigMessage (pc_kubeconfig p))
      (snd (set_condition t3 ConditionKubernetesAPIReady (pc_apiReady p) (getAPIReadyMessage (pc_apiReady p))
      (snd (set_condition t2 ConditionClusterReady (pc_ready p) message
      (snd (set_condition t1 ConditionClusterProvisioned (pc_provisioned p) (''Azure state: '' @ st)
        (st_Conditions (kc_Status kc))))))))))))) kc"
  using assms by (auto simp: updateConditionsFromState_def run_setCondition Let_def)

text \<open>C37. When a resource has at most one condition of each type, deriving the conditions from a
  phase touches nothing but the conditions, keeps one per type, leaves foreign types alone, and afterwards each of the operator's five conditions has the
  status of the phase; the cluster-ready condition is \<open>ok\<close> for the phase Ready only.\<close>

theorem conditions_follow_phase:
  assumes run: "run_state (updateConditionsFromState R kc phase st message) s = (kc', s')"
    and one: "one_per_type (st_Conditions (kc_Status kc))"
  shows "(\<exists>cs. kc' = map_status (set_conditions cs) kc \<and> one_per_type cs \<and>
      (\<forall>ct stat. (ct, stat) \<in> set (expected_conditions phase) \<longrightarrow>
         status_of cs ct = Some stat) \<and>
      (\<forall>ct. ct \<notin> set (map fst (expected_conditions phase)) \<longrightarrow>
         condition_of cs ct = condition_of (st_Conditions (kc_Status kc)) ct) \<and>
      (status_of cs ConditionClusterReady = Some ConditionStatusOK \<longleftrightarrow> phase = PhaseReady))"
proof -
  define p where "p = conditions_of_phase phase"
  obtain t1 t2 t3 t4 t5 where kc': "kc' = map_status (set_conditions
      (snd (set_condition t5 ConditionNodePoolsReady (pc_nodepools p) (getNodePoolsMessage (pc_nodepools p))
      (snd (set_condition t4 ConditionKubeConfigReady (pc_kubeconfig p) (getKubeconfigMessage (pc_kubeconfig p))
      (snd (set_condition t3 ConditionKubernetesAPIReady (pc_apiReady p) (getAPIReadyMessage (pc_apiReady p))
      (snd (set_condition t2 ConditionClusterReady (pc_ready p) message
      (snd (set_condition t1 ConditionClusterProvisioned (pc_provisioned p) (''Azure state: '' @ st)
        (st_Conditions (kc_Status kc))))))))))))) kc"
    using run p_def by (rule updateConditionsFromState_run)
  define cs where "cs = st_Conditions (kc_Status kc')"
  have cs: "kc' = map_status (set_conditions cs) kc" "one_per_type cs"
    unfolding cs_def kc' using one by simp_all
  have status: "status_of cs ct = Some stat" if "(ct, stat) \<in> set (expected_conditions phase)" for ct stat
    using that condition_types_distinct unfolding cs_def kc'
    by (auto simp: expected_conditions_def p_def [symmetric] Let_def)
  have others: "condition_of cs ct = condition_of (st_Conditions (kc_Status kc)) ct"
    if "ct \<notin> set (map fst (expected_conditions phase))" for ct
    using that unfolding cs_def kc' by (auto simp: expected_conditions_def Let_def condition_of_set)
  have "pc_ready (conditions_of_phase phase) = ConditionStatusOK \<longleftrightarrow> phase = PhaseReady"
    by (simp add: conditions_of_phase_def all_conditions_def phase_defs condition_status_defs)
  moreover have "status_of cs ConditionClusterReady = Some (pc_ready (conditions_of_phase phase))"
    by (rule status) (simp add: expected_conditions_def Let_def)
  ultimately show ?thesis using cs status others by (intro exI [of _ cs]) auto
qed

section \<open>What is sent\<close>

lemma condition_newer_strict_weak: "strict_weak_on condition_newer A"
  unfolding strict_weak_on_def condition_newer_def by force

text \<open>What a status that reports a phase of an AKS cluster says.\<close>

definition reports :: "managed_cluster \<Rightarrow> string \<Rightarrow> kubernetes_cluster \<Rightarrow> bool" where
  "reports aks phase kc \<longleftrightarrow>
     st_Phase (kc_Status kc) = phase \<and>
     sorted_wrt (\<lambda>a b. \<not> condition_newer b a) (st_Conditions (kc_Status kc)) \<and>
     (\<forall>(ct, stat) \<in> set (expected_conditions phase).
        \<exists>c\<in>set (st_Conditions (kc_Status kc)). cond_Type c = ct \<and> cond_Status c = stat) \<and>
     (\<forall>i. mc_ID aks = Some i \<longrightarrow> ss_ExternalId (st_State (kc_Status kc)) = i) \<and>
     (\<forall>f. cluster_fqdn aks = Some f \<longrightarrow>
        ss_Endpoints (st_State (kc_Status kc)) =
          Some [\<lparr>ep_Name = ''kubernetes'', ep_Address = ''https://'' @ f @ '':443''\<rparr>])"

lemma updateConditionsFromState_shape:
  assumes "run_state (updateConditionsFromState R kc phase st message) s = (kc', s')"
  shows "\<exists>cs. kc' = map_status (set_conditions cs) kc \<and>
     (\<forall>(ct, stat) \<in> set (expected_conditions phase). \<exists>c\<in>set cs. cond_Type c = ct \<and> cond_Status c = stat)"
proof -
  define p where "p = conditions_of_phase phase"
  obtain t1 t2 t3 t4 t5 where kc': "kc' = map_status (set_conditions
      (snd (set_condition t5 ConditionNodePoolsReady (pc_nodepools p) (getNodePoolsMessage (pc_nodepools p))
      (snd (set_condition t4 ConditionKubeConfigReady (pc_kubeconfig p) (getKubeconfigMessage (pc_kubeconfig p))
      (snd (set_condition t3 ConditionKubernetesAPIReady (pc_apiReady p) (getAPIReadyMessage (pc_apiReady p))
      (snd (set_condition t2 ConditionClusterReady (pc_ready p) message
      (snd (set_condition t1 ConditionClusterProvisioned (pc_provisioned p) (''Azure state: '' @ st)
        (st_Conditions (kc_Status kc))))))))))))) kc"
    using assms p_def by (rule updateConditionsFromState_run)
  define cs where "cs = st_Conditions (kc_Status kc')"
  have cs: "kc' = map_status (set_conditions cs) kc" unfolding cs_def kc' by simp
  have st: "status_of cs ct = Some stat" if "(ct, stat) \<in> set (expected_conditions phase)" for ct stat
    using that condition_types_distinct unfolding cs_def kc'
    by (auto simp: expected_conditions_def p_def [symmetric] Let_def)
  have "\<exists>c\<in>set cs. cond_Type c = ct \<and> cond_Status c = stat"
    if "(ct, stat) \<in> set (expected_conditions phase)" for ct stat
    using st [OF that] by (auto simp: status_of_def condition_of_def find_Some_iff)
  with cs show ?thesis by auto
qed

lemma prepared_status_reports:
  assumes srt: "slice_sort condition_newer (rt_sort_conditions R)"
    and run: "run_state (updateConditionsFromState R (set_phase phase (set_endpoints aks kc)) phase st message) s = (kc', s')"
    and ext: "\<And>i. mc_ID aks = Some i \<Longrightarrow> ss_ExternalId (st_State (kc_Status kc)) = i"
  shows "reports aks phase (sortConditions R kc')"
proof -
  let ?kc = "set_phase phase (set_endpoints aks kc)"
  obtain cs where cs: "kc' = map_status (set_conditions cs) ?kc"
    "\<forall>(ct, stat) \<in> set (expected_conditions phase). \<exists>c\<in>set cs. cond_Type c = ct \<and> cond_Status c = stat"
    using updateConditionsFromState_shape [OF run] by blast
  have "sorted_wrt (\<lambda>a b. \<not> condition_newer b a) (rt_sort_conditions R cs)"
    by (rule slice_sort.sort_sorted [OF srt condition_newer_strict_weak])
  moreover have "st_Phase (kc_Status ?kc) = phase" by (simp add: set_phase_def map_status_def)
  moreover have "ss_ExternalId (st_State (kc_Status ?kc)) = ss_ExternalId (st_State (kc_Status kc))"
    by (simp add: set_phase_def set_endpoints_def map_status_def map_state_def split: option.splits)
  moreover have "cluster_fqdn aks = Some f \<Longrightarrow> ss_Endpoints (st_State (kc_Status ?kc)) =
      Some [\<lparr>ep_Name = ''kubernetes'', ep_Address = ''https://'' @ f @ '':443''\<rparr>]" for f
    by (simp add: set_phase_def set_endpoints_def map_status_def map_state_def)
  ultimately show ?thesis
    using cs ext slice_sort.sort_set [OF srt]
    by (auto simp: reports_def sortConditions_def)
qed

lemma external_id_set:
  "mc_ID aks = Some i \<Longrightarrow> ss_ExternalId (st_State (kc_Status (set_external_id aks kc))) = i"
  by (simp add: set_external_id_def map_status_def map_state_def)

lemma emits_status_reads [emits_intros]:
  "emits P (initializeStatusState R kc)" "emits P (setCondition R ct status message kc)"
  unfolding initializeStatusState_def setCondition_def by (intro emits_intros)+

lemma emits_updateConditions [emits_intros]: "emits P (updateConditionsFromState R kc phase st message)"
  unfolding updateConditionsFromState_def by (intro emits_intros)

definition is_status_update :: "event \<Rightarrow> bool" where
  "is_status_update e \<longleftrightarrow> (\<exists>c r. e = KubeUpdateStatus c r)"

definition status_conflict :: "go_error \<Rightarrow> bool" where
  "status_conflict err \<longleftrightarrow> Contains (err_text err) ''conflict'' \<or> Contains (err_text err) ''modified''"

lemma emits_annotate: "emits (\<lambda>e. \<not> is_status_update e) (annotate_cluster_id K aks kc)"
  unfolding annotate_cluster_id_def by (intro emits_intros) (simp add: is_status_update_def)

lemma annotate_external_id:
  "mc_ID aks = Some i \<Longrightarrow>
     ss_ExternalId (st_State (kc_Status (fst (run_state (annotate_cluster_id K aks kc) s)))) = i"
  by (simp add: annotate_cluster_id_def external_id_set Let_def)

text \<open>What follows a conflict: the resource is read again and sent once more.\<close>

definition retry_status ::
  "'w runtime \<Rightarrow> 'w kube_client \<Rightarrow> managed_cluster \<Rightarrow> string \<Rightarrow> kubernetes_cluster \<Rightarrow>
     ('w, go_error option \<times> kubernetes_cluster) go" where
  "retry_status R K aks phase kc =
     do {
       g \<leftarrow> call (\<lambda>r. KubeGetCluster (kc_Name kc) (kc_Namespace kc) (sum_error r))
              (kube_Get K (kc_Name kc) (kc_Namespace kc));
       (case g of
          Inl fetchErr \<Rightarrow> ret (Some (wrap_error ''failed to re-fetch cluster'' fetchErr), kc)
        | Inr fresh \<Rightarrow>
            do {
              kc6 \<leftarrow> initializeStatusState R fresh;
              kc7 \<leftarrow> updateConditionsFromState R
                      (set_phase phase (set_endpoints aks (set_external_id aks kc6))) phase
                      (state_or_unknown aks) (status_message phase aks);
              (let kc8 = sortConditions R kc7
               in call (\<lambda>r. KubeUpdateStatus kc8 (fst r)) (kube_StatusUpdate K kc8))
            })
     }"

lemma init_trace: "run_state (initializeStatusState R kc) s = (kc', s') \<Longrightarrow> trace s' = trace s"
  by (auto simp: initializeStatusState_def)

lemma conditions_trace:
  assumes "run_state (updateConditionsFromState R kc phase st message) s = (kc', s')"
  shows "trace s' = trace s"
proof -
  obtain ns where "trace s' = trace s @ ns" "\<forall>x\<in>set ns. False"
    using emitsD [OF emits_updateConditions assms, of "\<lambda>x. False"] .
  then show ?thesis by simp
qed

lemma retry_status_calls:
  assumes srt: "slice_sort condition_newer (rt_sort_conditions R)"
    and run: "run_state (retry_status R K aks phase kc) s = ((e, kc'), s')"
  shows "\<exists>name ns g. (e \<noteq> None \<and> trace s' = trace s @ [KubeGetCluster name ns g]) \<or>
     (\<exists>c. reports aks phase c \<and> trace s' = trace s @ [KubeGetCluster name ns g, KubeUpdateStatus c e])"
proof -
  define g where "g = kube_Get K (kc_Name kc) (kc_Namespace kc) (world s)"
  define s1 where "s1 = s\<lparr>world := snd g,
    trace := trace s @ [KubeGetCluster (kc_Name kc) (kc_Namespace kc) (sum_error (fst g))]\<rparr>"
  show ?thesis
  proof (cases "fst g")
    case (Inl f)
    then have "e = Some (wrap_error ''failed to re-fetch cluster'' f)" "s' = s1"
      using run by (auto simp: retry_status_def g_def s1_def)
    then show ?thesis by (auto simp: s1_def)
  next
    case (Inr fresh)
    obtain kc6 s6 where i6: "run_state (initializeStatusState R fresh) s1 = (kc6, s6)" by fastforce
    obtain kc7 s7 where u7: "run_state (updateConditionsFromState R
        (set_phase phase (set_endpoints aks (set_external_id aks kc6))) phase
        (state_or_unknown aks) (status_message phase aks)) s6 = (kc7, s7)" by fastforce
    have "reports aks phase (sortConditions R kc7)"
      using prepared_status_reports [OF srt u7] external_id_set by blast
    moreover have "run_state (call (\<lambda>r. KubeUpdateStatus (sortConditions R kc7) (fst r))
        (kube_StatusUpdate K (sortConditions R kc7))) s7 = ((e, kc'), s')"
      using run Inr i6 u7 by (auto simp: retry_status_def Let_def g_def s1_def)
    then have "trace s' = trace s7 @ [KubeUpdateStatus (sortConditions R kc7) e]" by auto
    ultimately show ?thesis
      using init_trace [OF i6] conditions_trace [OF u7] by (auto simp: s1_def)
  qed
qed

text \<open>The first status, and what is done with the answer.\<close>

lemma updateClusterStatus_retry:
  "updateClusterStatus R K kc aks phase =
     do {
       kc1 \<leftarrow> initializeStatusState R kc;
       kc2 \<leftarrow> annotate_cluster_id K aks kc1;
       kc3 \<leftarrow> updateConditionsFromState R (set_phase phase (set_endpoints aks kc2)) phase
               (state_or_unknown aks) (status_message phase aks);
       (let kc4 = sortConditions R kc3 in
        do {
          (e, kc5) \<leftarrow> call (\<lambda>r. KubeUpdateStatus kc4 (fst r)) (kube_StatusUpdate K kc4);
          (case e of
             None \<Rightarrow> ret (None, kc5)
           | Some err \<Rightarrow> if status_conflict err then retry_status R K aks phase kc5 else ret (Some err, kc5))
        })
     }"
  unfolding updateClusterStatus_def retry_status_def status_conflict_def by (rule refl)

lemma first_status_sent:
  assumes srt: "slice_sort condition_newer (rt_sort_conditions R)"
    and run: "run_state (updateClusterStatus R K kc aks phase) s = ((e, kc'), s')"
  obtains as c e1 kc1 s1 where "trace s1 = trace s @ as @ [KubeUpdateStatus c e1]"
    and "\<forall>x\<in>set as. \<not> is_status_update x" and "reports aks phase c"
    and "if \<exists>err. e1 = Some err \<and> status_conflict err
      then run_state (retry_status R K aks phase kc1) s1 = ((e, kc'), s') else e = e1 \<and> s' = s1"
proof -
  obtain kc1 s1 where i1: "run_state (initializeStatusState R kc) s = (kc1, s1)" by fastforce
  obtain kc2 s2 where a: "run_state (annotate_cluster_id K aks kc1) s1 = (kc2, s2)" by fastforce
  obtain kc3 s3 where u: "run_state (updateConditionsFromState R (set_phase phase (set_endpoints aks kc2)) phase
      (state_or_unknown aks) (status_message phase aks)) s2 = (kc3, s3)" by fastforce
  obtain as where as: "trace s2 = trace s1 @ as" "\<forall>x\<in>set as. \<not> is_status_update x"
    using emitsD [OF emits_annotate a] .
  define kc4 where "kc4 = sortConditions R kc3"
  have r4: "reports aks phase kc4"
    unfolding kc4_def using prepared_status_reports [OF srt u] annotate_external_id a by (metis fst_conv)
  obtain e1 kc5 where p: "fst (kube_StatusUpdate K kc4 (world s3)) = (e1, kc5)" by fastforce
  define s4 where "s4 = s3\<lparr>world := snd (kube_StatusUpdate K kc4 (world s3)), trace := trace s3 @ [KubeUpdateStatus kc4 e1]\<rparr>"
  have c4: "run_state (call (\<lambda>r. KubeUpdateStatus kc4 (fst r)) (kube_StatusUpdate K kc4)) s3 = ((e1, kc5), s4)"
    by (simp add: s4_def p)
  have "if \<exists>err. e1 = Some err \<and> status_conflict err
      then run_state (retry_status R K aks phase kc5) s4 = ((e, kc'), s') else e = e1 \<and> s' = s4"
    using run i1 a u c4
    by (cases e1) (auto simp: updateClusterStatus_retry kc4_def [symmetric] Let_def split: if_splits)
  moreover have "trace s4 = trace s @ as @ [KubeUpdateStatus kc4 e1]"
    using init_trace [OF i1] conditions_trace [OF u] as(1) by (simp add: s4_def)
  ultimately show ?thesis using as(2) r4 that by blast
qed

text \<open>C20. Every status \<open>updateClusterStatus\<close> sends reports the phase it was given: the five
  conditions of the phase, newest first, the Azure ID and the endpoint of the cluster. It sends at most
  two, the second only after a conflict on the first, and it succeeds exactly when the last is accepted.\<close>

theorem update_cluster_status_reports:
  assumes srt: "slice_sort condition_newer (rt_sort_conditions R)"
    and run: "run_state (updateClusterStatus R K kc aks phase) s = ((e, kc'), s')"
  shows "\<exists>es. trace s' = trace s @ es \<and>
     (\<forall>c r. KubeUpdateStatus c r \<in> set es \<longrightarrow> reports aks phase c) \<and>
     ((\<exists>c. filter is_status_update es = [KubeUpdateStatus c e]) \<or>
      (\<exists>c e1. status_conflict e1 \<and> e \<noteq> None \<and> filter is_status_update es = [KubeUpdateStatus c (Some e1)]) \<or>
      (\<exists>c c2 e1. status_conflict e1 \<and>
         filter is_status_update es = [KubeUpdateStatus c (Some e1), KubeUpdateStatus c2 e]))"
proof -
  obtain as c e1 kc1 s1 where t: "trace s1 = trace s @ as @ [KubeUpdateStatus c e1]"
    and as: "\<forall>x\<in>set as. \<not> is_status_update x" and c: "reports aks phase c"
    and rest: "if \<exists>err. e1 = Some err \<and> status_conflict err
      then run_state (retry_status R K aks phase kc1) s1 = ((e, kc'), s') else e = e1 \<and> s' = s1"
    by (rule first_status_sent [OF srt run])
  have quiet: "filter is_status_update as = []" "\<And>c r. KubeUpdateStatus c r \<notin> set as"
    using as by (auto simp: filter_empty_conv is_status_update_def)
  show ?thesis
  proof (cases "\<exists>err. e1 = Some err \<and> status_conflict err")
    case False
    then show ?thesis
      using t quiet c rest by (intro exI [of _ "as @ [KubeUpdateStatus c e1]"]) (auto simp: is_status_update_def)
  next
    case True
    then obtain err where err: "e1 = Some err" "status_conflict err" by blast
    from True rest have "run_state (retry_status R K aks phase kc1) s1 = ((e, kc'), s')" by simp
    from retry_status_calls [OF srt this]
    obtain ge where ge: "\<exists>name ns g. ge = KubeGetCluster name ns g" and
      "(e \<noteq> None \<and> trace s' = trace s1 @ [ge]) \<or>
       (\<exists>c2. reports aks phase c2 \<and> trace s' = trace s1 @ [ge, KubeUpdateStatus c2 e])" by blast
    then consider "e \<noteq> None" "trace s' = trace s1 @ [ge]"
      | c2 where "reports aks phase c2" "trace s' = trace s1 @ [ge, KubeUpdateStatus c2 e]" by blast
    then show ?thesis
    proof cases
      case 1
      then show ?thesis
        using t quiet c err ge by (intro exI [of _ "as @ [KubeUpdateStatus c e1, ge]"]) (auto simp: is_status_update_def)
    next
      case 2
      then show ?thesis
        using t quiet c err ge
        by (intro exI [of _ "as @ [KubeUpdateStatus c e1, ge, KubeUpdateStatus c2 e]"]) (auto simp: is_status_update_def)
    qed
  qed
qed

section \<open>Witnesses\<close>

definition fx_rt :: "fx_world runtime" where
  "fx_rt = fx_runtime\<lparr>rt_sort_conditions := insertion_sort condition_newer\<rparr>"

lemma fx_sorts: "slice_sort condition_newer (rt_sort_conditions fx_rt)"
  by (simp add: fx_rt_def insertion_sort_slice_sort)

theorem set_condition_correct_witness:
  "set_condition ''t2'' ''Ready'' ''ok'' ''up'' (snd (set_condition ''t1'' ''Ready'' ''ok'' ''up'' [])) =
     (False, snd (set_condition ''t1'' ''Ready'' ''ok'' ''up'' []))"
proof -
  have o: "one_per_type []" by (simp add: one_per_type_def)
  show ?thesis
    using set_condition_correct [OF o prod.collapse, of "''t1''" "''Ready''" "''ok''" "''up''" "''t2''"] by blast
qed

theorem conditions_follow_phase_witness:
  "\<exists>cs. fst (run_state (updateConditionsFromState fx_rt fx_cluster PhaseReady ''Succeeded'' ''up'') fx_state) =
       map_status (set_conditions cs) fx_cluster \<and> status_of cs ConditionClusterReady = Some ConditionStatusOK"
proof -
  have o: "one_per_type (st_Conditions (kc_Status fx_cluster))"
    by (simp add: one_per_type_def fx_cluster_def fx_status_def)
  show ?thesis using conditions_follow_phase [OF prod.collapse [symmetric] o] by blast
qed

theorem update_cluster_status_reports_witness:
  "\<exists>es. trace (snd (run_state (updateClusterStatus fx_rt fx_kube fx_cluster (fx_managed (Some ''Succeeded'')) PhaseReady)
       fx_state)) = es \<and> filter is_status_update es \<noteq> []"
proof -
  let ?run = "run_state (updateClusterStatus fx_rt fx_kube fx_cluster (fx_managed (Some ''Succeeded'')) PhaseReady) fx_state"
  have "?run = ((fst (fst ?run), snd (fst ?run)), snd ?run)" by simp
  from update_cluster_status_reports [OF fx_sorts this] show ?thesis
    by (auto simp: fx_state_def)
qed

end
