(* ===== verification/Reconciler.thy ===== *)
theory Reconciler
  imports AKSCluster ClusterState Status
begin

text \<open>
  \<open>internal/controller/kubernetescluster_controller.go\<close> and
  \<open>kubernetescluster_credentials.go\<close>: the reconciliation of one \<open>KubernetesCluster\<close>.
  A panic of the cluster manager propagates. The client for the guest cluster (kubeconfig parsing and
  client-go) is a parameter.
\<close>

record 'w guest_api =
  ga_NewClientConfig :: "string \<Rightarrow> go_error option"
  ga_ClientConfig :: "string \<Rightarrow> go_error option"
  ga_NewForConfig :: "string \<Rightarrow> go_error option"
  ga_GetNamespaceUID :: "string \<Rightarrow> string \<Rightarrow> 'w \<Rightarrow> (go_error + string) \<times> 'w"

text \<open>
  The reconciler: its Kubernetes client, the cluster manager (nil until the Azure services are
  initialised), and whether the cluster state service has been set.
\<close>

record 'w reconciler =
  rec_runtime :: "'w runtime"
  rec_client :: "'w kube_client"
  rec_AKSClusterManager :: "'w aks_cluster_manager option"
  rec_hasStateService :: bool
  rec_guest :: "'w guest_api"

section \<open>Credentials\<close>

definition kubeconfig_of :: "credential_results \<Rightarrow> string option" where
  "kubeconfig_of credentials = (case cr_Kubeconfigs credentials of [] \<Rightarrow> None | v # _ \<Rightarrow> v)"

definition fetchAndStoreKubeconfig ::
  "'w reconciler \<Rightarrow> 'w aks_cluster_manager \<Rightarrow> kubernetes_cluster \<Rightarrow> ('w, go_error + bool) go" where
  "fetchAndStoreKubeconfig r M kc =
     do {
       existing \<leftarrow> GetKubeconfig (rec_runtime r) (rec_client r) kc;
       (if (case existing of Inr (Some c) \<Rightarrow> c \<noteq> [] | _ \<Rightarrow> False) then ret (Inr False)
        else do {
          credentials \<leftarrow> akm_GetClusterCredentials M kc;
          (case credentials of
             Inl err \<Rightarrow> ret (Inl (wrap_error ''failed to get cluster credentials'' err))
           | Inr cr \<Rightarrow>
               (case kubeconfig_of cr of
                  None \<Rightarrow> ret (Inr False)
                | Some kubeconfig \<Rightarrow>
                    do {
                      e \<leftarrow> SetKubeconfig (rec_runtime r) (rec_client r) kc kubeconfig;
                      ret (case e of
                             Some err \<Rightarrow> Inl (wrap_error ''failed to store kubeconfig'' err)
                           | None \<Rightarrow> Inr True)
                    }))
        })
     }"

definition has_annotation :: "kubernetes_cluster \<Rightarrow> string \<Rightarrow> bool" where
  "has_annotation kc key \<longleftrightarrow> (case kc_Annotations kc of None \<Rightarrow> False | Some m \<Rightarrow> m key \<noteq> None)"

text \<open>The calls to the guest cluster, from the kubeconfig to the UID of \<open>kube-system\<close>.\<close>

definition guest_uid :: "'w guest_api \<Rightarrow> string \<Rightarrow> ('w, go_error + string) go" where
  "guest_uid G kubeconfig =
     (case ga_NewClientConfig G kubeconfig of
        Some err \<Rightarrow> ret (Inl (wrap_error ''failed to parse kubeconfig'' err))
      | None \<Rightarrow>
          (case ga_ClientConfig G kubeconfig of
             Some err \<Rightarrow> ret (Inl (wrap_error ''failed to create rest config'' err))
           | None \<Rightarrow>
               (case ga_NewForConfig G kubeconfig of
                  Some err \<Rightarrow> ret (Inl (wrap_error ''failed to create guest cluster client'' err))
                | None \<Rightarrow>
                    do {
                      r \<leftarrow> call (\<lambda>r. GuestGetNamespace ''kube-system'' (sum_error r))
                             (ga_GetNamespaceUID G kubeconfig ''kube-system'');
                      ret (case r of
                             Inl err \<Rightarrow> Inl (wrap_error ''failed to get kube-system namespace'' err)
                           | Inr uid \<Rightarrow> Inr uid)
                    })))"

definition update_object ::
  "'w kube_client \<Rightarrow> kubernetes_cluster \<Rightarrow> ('w, go_error option \<times> kubernetes_cluster) go" where
  "update_object K kc = call (\<lambda>r. KubeUpdateCluster kc (fst r)) (kube_Update K kc)"

text \<open>The result and the resource, which the annotation updates change in place.\<close>

definition fetchAndStoreKubeSystemUID ::
  "'w reconciler \<Rightarrow> kubernetes_cluster \<Rightarrow> ('w, (go_error + bool) \<times> kubernetes_cluster) go" where
  "fetchAndStoreKubeSystemUID r kc =
     (let R = rec_runtime r; K = rec_client r in
      do {
        stored \<leftarrow>
          (if has_annotation kc AnnotationKubeSystemUID
           then do {
             g \<leftarrow> GetKubeSystemUID R K kc;
             ret (case g of Inr uid \<Rightarrow> uid \<noteq> [] | Inl _ \<Rightarrow> False)
           }
           else ret False);
        (if stored then ret (Inr False, kc)
         else do {
           g \<leftarrow> GetKubeSystemUID R K kc;
           (let existingUID = (case g of Inr uid \<Rightarrow> uid | Inl _ \<Rightarrow> []) in
            if existingUID \<noteq> []
            then (if annotation_is (ensure_annotations kc) AnnotationKubeSystemUID existingUID
                  then ret (Inr False, ensure_annotations kc)
                  else do {
                    (e, kc') \<leftarrow> update_object K (set_annotation AnnotationKubeSystemUID existingUID kc);
                    ret (case e of
                           Some err \<Rightarrow> Inl (wrap_error ''failed to update annotation'' err)
                         | None \<Rightarrow> Inr False, kc')
                  })
            else do {
              c \<leftarrow> GetKubeconfig R K kc;
              (case c of
                 Inr (Some kubeconfig) \<Rightarrow>
                   if kubeconfig = [] then ret (Inl (new_error ''kubeconfig not available yet''), kc)
                   else do {
                     u \<leftarrow> guest_uid (rec_guest r) kubeconfig;
                     (case u of
                        Inl err \<Rightarrow> ret (Inl err, kc)
                      | Inr uid \<Rightarrow>
                          do {
                            e \<leftarrow> SetKubeSystemUID R K kc uid;
                            (case e of
                               Some err \<Rightarrow>
                                 ret (Inl (wrap_error ''failed to store kube-system UID in secret'' err), kc)
                             | None \<Rightarrow>
                                 do {
                                   (e2, kc') \<leftarrow> update_object K (set_annotation AnnotationKubeSystemUID uid kc);
                                   ret (case e2 of
                                          Some err \<Rightarrow> Inl (wrap_error ''failed to update annotation'' err)
                                        | None \<Rightarrow> Inr True, kc')
                                 })
                          })
                   }
               | _ \<Rightarrow> ret (Inl (new_error ''kubeconfig not available yet''), kc))
            })
         })
      })"

section \<open>Phases\<close>

definition determinePhaseFromAKS :: "managed_cluster \<Rightarrow> string \<times> string" where
  "determinePhaseFromAKS aks =
     (case aks_state aks of
        None \<Rightarrow> (PhaseProvisioning, ''Unknown'')
      | Some provisioningState \<Rightarrow>
          (if provisioningState = ''Succeeded'' then PhaseReady
           else if provisioningState = ''Creating'' then PhaseCreating
           else if provisioningState = ''Updating'' then PhaseUpdating
           else if provisioningState = ''Deleting'' then PhaseDeleting
           else if provisioningState = ''Failed'' then PhaseFailed
           else PhaseProvisioning, provisioningState))"

section \<open>Reconciliation of a live cluster\<close>

type_synonym ctrl_result = "time \<times> go_error option"  \<comment> \<open>\<open>RequeueAfter\<close> and the error\<close>

text \<open>What the state secret is told when the phase changes; errors are logged.\<close>

definition record_aks_state ::
  "'w reconciler \<Rightarrow> kubernetes_cluster \<Rightarrow> managed_cluster \<Rightarrow> ('w, unit) go" where
  "record_aks_state r kc aks =
     (case mc_ID aks of
        None \<Rightarrow> ret ()
      | Some id' \<Rightarrow>
          (let resourceGroupName = cd_Project (kc_Cluster kc); clusterName = cd_ClusterId (kc_Cluster kc);
               R = rec_runtime r; K = rec_client r
           in do {
             _ \<leftarrow> SetClusterProvisioned R K kc id' clusterName resourceGroupName;
             _ \<leftarrow> (case cluster_fqdn aks of None \<Rightarrow> ret None | Some fqdn \<Rightarrow> SetClusterFQDN R K kc fqdn);
             _ \<leftarrow> (case aks_state aks of None \<Rightarrow> ret None | Some st \<Rightarrow> SetAKSProvisionState R K kc st);
             ret ()
           }))"

definition record_access ::
  "'w reconciler \<Rightarrow> 'w aks_cluster_manager \<Rightarrow> kubernetes_cluster \<Rightarrow> ('w, kubernetes_cluster) go" where
  "record_access r M kc =
     (let R = rec_runtime r; K = rec_client r in
      do {
        u \<leftarrow> fetchAndStoreKubeconfig r M kc;
        (case u of
           Inl _ \<Rightarrow> ret ()
         | Inr updated \<Rightarrow>
             if updated
             then do {
               _ \<leftarrow> SetKubernetesAPIReady R K kc;
               _ \<leftarrow> SetClusterReady R K kc;
               ret ()
             }
             else ret ());
        (_, kc') \<leftarrow> fetchAndStoreKubeSystemUID r kc;
        ret kc'
      })"

definition needs_state_update :: "string \<Rightarrow> string \<Rightarrow> bool" where
  "needs_state_update currentPhase phase \<longleftrightarrow>
     currentPhase \<noteq> phase \<or> currentPhase = [] \<or> currentPhase = PhaseCreating \<or> currentPhase = PhaseProvisioning"

definition record_cluster ::
  "'w reconciler \<Rightarrow> 'w aks_cluster_manager \<Rightarrow> kubernetes_cluster \<Rightarrow> managed_cluster \<Rightarrow> ('w, unit) go" where
  "record_cluster r M kc aks =
     (let (phase, aksState) = determinePhaseFromAKS aks;
          needsStateUpdate = needs_state_update (st_Phase (kc_Status kc)) phase
      in do {
        (if needsStateUpdate then record_aks_state r kc aks else ret ());
        kc' \<leftarrow> (if phase = PhaseReady \<or> aksState = ''Succeeded'' then record_access r M kc else ret kc);
        (if needsStateUpdate
         then do {
           _ \<leftarrow> updateClusterStatus (rec_runtime r) (rec_client r) kc' aks phase;
           ret ()
         }
         else ret ())
      })"

definition reconcileCluster ::
  "'w reconciler \<Rightarrow> 'w aks_cluster_manager \<Rightarrow> kubernetes_cluster \<Rightarrow> ('w, ctrl_result outcome) go" where
  "reconcileCluster r M kc =
     do {
       x \<leftarrow> akm_ReconcileCluster M kc;
       (case x of
          Panicked \<Rightarrow> ret Panicked
        | Returned (aksCluster, failure) \<Rightarrow>
            (case failure of
               Some err \<Rightarrow>
                 do {
                   _ \<leftarrow> SetClusterFailed (rec_runtime r) (rec_client r) kc (err_text err);
                   _ \<leftarrow> updatePhaseAndCondition (rec_runtime r) (rec_client r) kc PhaseFailed
                          ConditionClusterProvisioned ConditionStatusError (err_text err);
                   ret (Returned (ControllerRequeueError, Some err))
                 }
             | None \<Rightarrow>
                 do {
                   (case aksCluster of
                      None \<Rightarrow> ret ()
                    | Some aks \<Rightarrow>
                        (case mc_Properties aks of
                           None \<Rightarrow> ret ()
                         | Some _ \<Rightarrow> record_cluster r M kc aks));
                   ret (Returned (ControllerRequeueDelay, None))
                 }))
     }"

section \<open>Deletion\<close>

definition handleDeletion ::
  "'w reconciler \<Rightarrow> 'w aks_cluster_manager \<Rightarrow> kubernetes_cluster \<Rightarrow> ('w, ctrl_result) go" where
  "handleDeletion r M kc =
     (let K = rec_client r; hasFinalizer = kube_ContainsFinalizer K kc KubernetesClusterFinalizer in
      do {
        (_, kc1) \<leftarrow> updatePhaseAndCondition (rec_runtime r) K kc PhaseDeleting ConditionClusterReady
                     ConditionStatusWorking ''Deleting AKS cluster'';
        d \<leftarrow> akm_DeleteCluster M kc1;
        (case d of
           Some err \<Rightarrow> ret (ControllerRequeueError, Some err)
         | None \<Rightarrow>
             do {
               _ \<leftarrow> DeleteState K kc1;
               (if hasFinalizer
                then do {
                  (e, _) \<leftarrow> update_object K (kube_RemoveFinalizer K kc1 KubernetesClusterFinalizer);
                  ret (0, e)
                }
                else ret (0, None))
             })
      })"

section \<open>Reconcile\<close>

definition Reconcile ::
  "'w reconciler \<Rightarrow> string \<Rightarrow> string \<Rightarrow> ('w, ctrl_result outcome) go" where
  "Reconcile r name namespace =
     (let R = rec_runtime r; K = rec_client r in
      do {
        g \<leftarrow> call (\<lambda>x. KubeGetCluster name namespace (sum_error x)) (kube_Get K name namespace);
        (case g of
           Inl err \<Rightarrow> ret (Returned (0, if IsNotFound err then None else Some err))
         | Inr kc \<Rightarrow>
             (case rec_AKSClusterManager r of
                None \<Rightarrow> ret (Returned (ControllerRequeueError, Some (new_error ''azure services not initialized'')))
              | Some M \<Rightarrow>
                  if \<not> rec_hasStateService r
                  then ret (Returned (ControllerRequeueError,
                              Some (new_error ''cluster state service not initialized'')))
                  else if kc_DeletionTimestamp kc \<noteq> None
                  then do {
                    x \<leftarrow> handleDeletion r M kc;
                    ret (Returned x)
                  }
                  else do {
                    _ \<leftarrow> GetOrCreateState R K kc;
                    (if \<not> kube_ContainsFinalizer K kc KubernetesClusterFinalizer
                     then do {
                       (e, _) \<leftarrow> update_object K (kube_AddFinalizer K kc KubernetesClusterFinalizer);
                       ret (Returned (case e of Some err \<Rightarrow> (0, Some err) | None \<Rightarrow> (ControllerRequeueDelay, None)))
                     }
                     else do {
                       kc1 \<leftarrow>
                         (if st_Phase (kc_Status kc) = []
                          then do {
                            (_, kc') \<leftarrow> updatePhaseAndCondition R K kc PhaseCreating ConditionClusterProvisioned
                                         ConditionStatusWorking ''Cluster creation initiated'';
                            ret kc'
                          }
                          else ret kc);
                       reconcileCluster r M kc1
                     })
                  }))
      })"

section \<open>Event filter and concurrency\<close>

text \<open>The filter of the controller, the same for all four kinds of events.\<close>

definition aksProviderPredicate :: "kubernetes_cluster option \<Rightarrow> bool" where
  "aksProviderPredicate obj =
     (case obj of None \<Rightarrow> False | Some kc \<Rightarrow> EqualFold (cd_Provider (kc_Cluster kc)) ''aks'')"

text \<open>
  \<open>strconv.Atoi\<close>: an optional sign and decimal digits that denote a 64-bit integer.
\<close>

definition digit_value :: "char \<Rightarrow> int option" where
  "digit_value c = (let n = (of_char c :: int) in if 48 \<le> n \<and> n \<le> 57 then Some (n - 48) else None)"

fun digits_value :: "string \<Rightarrow> int \<Rightarrow> int option" where
  "digits_value [] acc = Some acc"
| "digits_value (c # cs) acc =
     (case digit_value c of None \<Rightarrow> None | Some d \<Rightarrow> digits_value cs (10 * acc + d))"

definition unsigned_value :: "string \<Rightarrow> int option" where
  "unsigned_value s = (if s = [] then None else digits_value s 0)"

definition strconv_Atoi :: "string \<Rightarrow> int option" where
  "strconv_Atoi s =
     (let v = (case s of
                 [] \<Rightarrow> None
               | c # cs \<Rightarrow>
                   if c = CHR ''-'' then map_option uminus (unsigned_value cs)
                   else if c = CHR ''+'' then unsigned_value cs
                   else unsigned_value s)
      in case v of
           None \<Rightarrow> None
         | Some n \<Rightarrow> if - (2 ^ 63) \<le> n \<and> n < 2 ^ 63 then Some n else None)"

definition maxConcurrentReconciles :: "'w runtime \<Rightarrow> int" where
  "maxConcurrentReconciles R =
     (let v = TrimSpace (rt_getenv R ''MAX_CONCURRENT_RECONCILES'') in
      if v = [] then 5
      else (case strconv_Atoi v of
              None \<Rightarrow> 5
            | Some n \<Rightarrow> if n < 1 then 5 else n))"

section \<open>The calls of a reconciliation\<close>

definition harmless :: "event \<Rightarrow> bool" where
  "harmless e \<longleftrightarrow> \<not> is_azure_write e"

lemma secret_harmless: "is_secret_event e \<Longrightarrow> harmless e"
  by (auto simp: harmless_def is_azure_write_def is_cluster_write_def is_pool_write_def is_secret_event_def)

lemma harmless_simps [simp]:
  "harmless (KubeUpdateStatus c r)" "harmless (KubeUpdateCluster c r)" "harmless (KubeGetCluster n ns x)"
  "harmless (GuestGetNamespace n x)" "harmless (AzClusterCredentials rg cl x)" "harmless (AzClusterGet rg cl x)"
  by (simp_all add: harmless_def is_azure_write_def is_cluster_write_def is_pool_write_def)

lemma emits_harmless_secrets:
  "emits is_secret_event m \<Longrightarrow> emits harmless m"
  by (erule emits_mono) (rule secret_harmless)

lemmas emits_state_harmless = emits_state_operations [THEN emits_harmless_secrets]
  emits_GetOrCreateState [THEN emits_harmless_secrets]

lemma emits_update_object: "(\<And>r. P (KubeUpdateCluster kc r)) \<Longrightarrow> emits P (update_object K kc)"
  unfolding update_object_def by (intro emits_intros) simp

lemma emits_updatePhase:
  "(\<And>c r. P (KubeUpdateStatus c r)) \<Longrightarrow> emits P (updatePhaseAndCondition R K kc phase ct status message)"
  unfolding updatePhaseAndCondition_def by (intro emits_intros) simp

lemma emits_updateClusterStatus: "emits harmless (updateClusterStatus R K kc aks phase)"
  unfolding updateClusterStatus_def annotate_cluster_id_def by (intro emits_intros) simp_all

lemma emits_guest_uid: "emits harmless (guest_uid G kubeconfig)"
  unfolding guest_uid_def by (intro emits_intros) simp

lemma emits_KubeSystemUID: "emits harmless (fetchAndStoreKubeSystemUID r kc)"
  unfolding fetchAndStoreKubeSystemUID_def
  by (intro emits_intros emits_state_harmless emits_guest_uid emits_update_object harmless_simps)

text \<open>
  What the reconciler relies on from the cluster manager: a deletion is one call to Azure and succeeds
  exactly when Azure says so or says the cluster is gone; credentials are only read; a reconciliation
  never deletes the cluster, never writes any cluster but its own and never touches the Kubernetes API
  but to size machines.
\<close>

definition gone :: "go_error option \<Rightarrow> bool" where
  "gone e = (case e of None \<Rightarrow> True | Some err \<Rightarrow> deleted_already err)"

definition is_manager_event :: "event \<Rightarrow> bool" where
  "is_manager_event e \<longleftrightarrow>
     (\<exists>rg cl c r. e = AzClusterCreateOrUpdate rg cl c r) \<or> (\<exists>rg cl r. e = AzClusterGet rg cl r) \<or>
     is_pool_reconcile_event e"

definition own_write :: "kubernetes_cluster \<Rightarrow> event \<Rightarrow> bool" where
  "own_write kc e \<longleftrightarrow>
     (is_cluster_write e \<longrightarrow> (\<exists>c r. e = AzClusterCreateOrUpdate (getResourceGroupName kc) (getClusterName kc) c r))"

locale cluster_manager =
  fixes M :: "'w aks_cluster_manager"
  assumes delete_call:
      "run_state (akm_DeleteCluster M kc) s = (d, s') \<Longrightarrow>
         \<exists>e. trace s' = trace s @ [AzClusterDelete (getResourceGroupName kc) (getClusterName kc) e] \<and>
             (d = None \<longleftrightarrow> gone e)"
    and emits_credentials: "emits (\<lambda>e. \<exists>rg cl r. e = AzClusterCredentials rg cl r) (akm_GetClusterCredentials M kc)"
    and emits_reconcile: "emits is_manager_event (akm_ReconcileCluster M kc)"
    and emits_own: "emits (own_write kc) (akm_ReconcileCluster M kc)"
begin

lemma emits_fetch: "emits harmless (fetchAndStoreKubeconfig r M kc)"
proof -
  have "emits harmless (akm_GetClusterCredentials M kc)"
    by (rule emits_mono [OF emits_credentials]) auto
  then show ?thesis
    unfolding fetchAndStoreKubeconfig_def by (intro emits_intros emits_state_harmless)
qed

lemma emits_record: "emits harmless (record_cluster r M kc aks)"
  unfolding record_cluster_def record_access_def record_aks_state_def
  by (intro emits_intros emits_state_harmless emits_fetch emits_KubeSystemUID emits_updateClusterStatus)

end

context cluster_services
begin

lemma manager_is_service: "cluster_manager (aks_cluster_manager_of R M)"
proof
  fix kc s d s'
  assume "run_state (akm_DeleteCluster (aks_cluster_manager_of R M) kc) s = (d, s')"
  then show "\<exists>e. trace s' = trace s @ [AzClusterDelete (getResourceGroupName kc) (getClusterName kc) e] \<and>
             (d = None \<longleftrightarrow> gone e)"
    by (intro exI [of _ "fst (mcc_Delete (aki_client M) (getResourceGroupName kc) (getClusterName kc) (world s))"])
      (auto simp: aks_cluster_manager_of_def DeleteCluster_def Let_def gone_def split: option.splits if_splits)
next
  fix kc
  show "emits (\<lambda>e. \<exists>rg cl r. e = AzClusterCredentials rg cl r) (akm_GetClusterCredentials (aks_cluster_manager_of R M) kc)"
    unfolding aks_cluster_manager_of_def aks_cluster_manager.select_convs GetClusterCredentials_def
    by (intro emits_intros) auto
next
  fix kc
  have sizing: "emits is_sizing_event m \<Longrightarrow> emits is_manager_event m" for m :: "('a, 'b) go"
    by (erule emits_mono) (auto simp: is_manager_event_def is_pool_reconcile_event_def)
  have pool: "emits is_manager_event (apm_ReconcileAgentPools A kc)" if "aki_agentPoolManager M = Some A" for A
    by (rule emits_mono [OF agent_pool_service.emits_reconcile [OF pools [OF that]]])
      (simp add: is_manager_event_def)
  have bool: "emits is_manager_event (needsUpdate R M kc c)" for c
    by (rule emits_mono [OF emits_needsUpdate]) (auto simp: is_manager_event_def is_pool_reconcile_event_def)
  show "emits is_manager_event (akm_ReconcileCluster (aks_cluster_manager_of R M) kc)"
    unfolding aks_cluster_manager_of_def aks_cluster_manager.select_convs ReconcileCluster_def
      GetCluster_def CreateCluster_def UpdateCluster_def
    by (intro emits_intros sizing [OF emits_build] bool pool) (auto simp: is_manager_event_def)
next
  fix kc
  have quiet: "own_write kc e" if "is_sizing_event e \<or> is_pool_reconcile_event e" for e
    using that by (auto simp: own_write_def is_cluster_write_def is_pool_reconcile_event_def is_pool_event_def
        is_pool_write_def is_sizing_event_def is_vm_event_def is_class_event_def)
  have pool: "emits (own_write kc) (apm_ReconcileAgentPools A kc)" if "aki_agentPoolManager M = Some A" for A
    by (rule emits_mono [OF agent_pool_service.emits_reconcile [OF pools [OF that]]]) (simp add: quiet)
  have bool: "emits (own_write kc) (needsUpdate R M kc c)" for c
    by (rule emits_mono [OF emits_needsUpdate]) (simp add: quiet)
  have build: "emits (own_write kc) (buildManagedCluster R M kc location)" for location
    by (rule emits_mono [OF emits_build]) (simp add: quiet)
  show "emits (own_write kc) (akm_ReconcileCluster (aks_cluster_manager_of R M) kc)"
    unfolding aks_cluster_manager_of_def aks_cluster_manager.select_convs ReconcileCluster_def
      GetCluster_def CreateCluster_def UpdateCluster_def
    by (intro emits_intros build bool pool) (auto simp: own_write_def is_cluster_write_def)
qed

end

interpretation operator_manager: cluster_manager
  "aks_cluster_manager_of R1 (NewAKSClusterManager CC
     (Some (agent_pool_manager_of R0 (NewAgentPoolManager C (Some (NewVMSizeManager R VC))
        (Some (NewMachineClassMapper R \<lparr>mpr_client = K, mpr_vmSizeManager = NewVMSizeManager R' VC', mpr_sort = srt\<rparr>)))))
     (Some (NewMachineClassMapper R \<lparr>mpr_client = K, mpr_vmSizeManager = NewVMSizeManager R' VC', mpr_sort = srt\<rparr>)))"
  by (rule operator_cluster.manager_is_service)

section \<open>The parts of a reconciliation\<close>

text \<open>The part of \<open>Reconcile\<close> that a live resource runs.\<close>

definition live_part ::
  "'w reconciler \<Rightarrow> 'w aks_cluster_manager \<Rightarrow> kubernetes_cluster \<Rightarrow> ('w, ctrl_result outcome) go" where
  "live_part r M kc =
     do {
       _ \<leftarrow> GetOrCreateState (rec_runtime r) (rec_client r) kc;
       (if \<not> kube_ContainsFinalizer (rec_client r) kc KubernetesClusterFinalizer
        then do {
          (e, _) \<leftarrow> update_object (rec_client r) (kube_AddFinalizer (rec_client r) kc KubernetesClusterFinalizer);
          ret (Returned (case e of Some err \<Rightarrow> (0, Some err) | None \<Rightarrow> (ControllerRequeueDelay, None)))
        }
        else do {
          kc1 \<leftarrow>
            (if st_Phase (kc_Status kc) = []
             then do {
               (_, kc') \<leftarrow> updatePhaseAndCondition (rec_runtime r) (rec_client r) kc PhaseCreating
                            ConditionClusterProvisioned ConditionStatusWorking ''Cluster creation initiated'';
               ret kc'
             }
             else ret kc);
          reconcileCluster r M kc1
        })
     }"

text \<open>
  A run of \<open>Reconcile\<close> reads the resource and then stops, deletes, or runs the live part, as
  the resource and the operator's services say.
\<close>

definition after_get :: "'w reconciler \<Rightarrow> string \<Rightarrow> string \<Rightarrow> 'w st \<Rightarrow> 'w st" where
  "after_get r name namespace s =
     s\<lparr>world := snd (kube_Get (rec_client r) name namespace (world s)),
       trace := trace s @ [KubeGetCluster name namespace
         (sum_error (fst (kube_Get (rec_client r) name namespace (world s))))]\<rparr>"

lemma trace_after_get [simp]:
  "trace (after_get r name namespace s) =
     trace s @ [KubeGetCluster name namespace (sum_error (fst (kube_Get (rec_client r) name namespace (world s))))]"
  by (simp add: after_get_def)

lemma Reconcile_parts:
  assumes run: "run_state (Reconcile r name namespace) s = (x, s')"
  obtains (absent) err where "fst (kube_Get (rec_client r) name namespace (world s)) = Inl err"
      "x = Returned (0, if IsNotFound err then None else Some err)" "s' = after_get r name namespace s"
    | (unready) kc err where "fst (kube_Get (rec_client r) name namespace (world s)) = Inr kc"
      "rec_AKSClusterManager r = None \<or> \<not> rec_hasStateService r"
      "x = Returned (ControllerRequeueError, Some err)" "s' = after_get r name namespace s"
    | (deleted) kc M y where "fst (kube_Get (rec_client r) name namespace (world s)) = Inr kc"
      "rec_AKSClusterManager r = Some M" "rec_hasStateService r" "kc_DeletionTimestamp kc \<noteq> None"
      "run_state (handleDeletion r M kc) (after_get r name namespace s) = (y, s')" "x = Returned y"
    | (live) kc M where "fst (kube_Get (rec_client r) name namespace (world s)) = Inr kc"
      "rec_AKSClusterManager r = Some M" "rec_hasStateService r" "kc_DeletionTimestamp kc = None"
      "run_state (live_part r M kc) (after_get r name namespace s) = (x, s')"
proof (cases "fst (kube_Get (rec_client r) name namespace (world s))")
  case (Inl err)
  with run show ?thesis by (intro absent) (auto simp: Reconcile_def Let_def after_get_def)
next
  case kc: (Inr kc)
  show ?thesis
  proof (cases "\<exists>M. rec_AKSClusterManager r = Some M \<and> rec_hasStateService r")
    case False
    with run kc have "(\<exists>err. x = Returned (ControllerRequeueError, Some err)) \<and> s' = after_get r name namespace s"
      by (auto simp: Reconcile_def Let_def after_get_def split: option.splits if_splits)
    with False show ?thesis using unready [OF kc] by auto
  next
    case True
    then obtain M where wired: "rec_AKSClusterManager r = Some M" "rec_hasStateService r" by blast
    show ?thesis
    proof (cases "kc_DeletionTimestamp kc = None")
      case True
      have "run_state (live_part r M kc) (after_get r name namespace s) = (x, s')"
        using run kc wired True unfolding Reconcile_def live_part_def Let_def
        by (simp add: after_get_def del: bind_assoc)
      then show ?thesis by (rule live [OF kc wired True])
    next
      case False
      with run kc wired obtain y where "run_state (handleDeletion r M kc) (after_get r name namespace s) = (y, s')"
        "x = Returned y"
        by (auto simp: Reconcile_def Let_def after_get_def split: prod.splits)
      then show ?thesis by (rule deleted [OF kc wired False])
    qed
  qed
qed

section \<open>Deletion\<close>

text \<open>
  The documented behaviour of a status update: the status subresource does not change the rest of the
  object, and neither does the answer.
\<close>

definition status_update_laws :: "'w kube_client \<Rightarrow> bool" where
  "status_update_laws K \<longleftrightarrow>
     (\<forall>kc w. let kc' = snd (fst (kube_StatusUpdate K kc w)) in
        kc_Name kc' = kc_Name kc \<and> kc_Namespace kc' = kc_Namespace kc \<and> kc_Cluster kc' = kc_Cluster kc \<and>
        kc_Finalizers kc' = kc_Finalizers kc)"

definition same_spec :: "kubernetes_cluster \<Rightarrow> kubernetes_cluster \<Rightarrow> bool" where
  "same_spec a b \<longleftrightarrow> kc_Name a = kc_Name b \<and> kc_Namespace a = kc_Namespace b \<and>
     kc_Cluster a = kc_Cluster b \<and> kc_Finalizers a = kc_Finalizers b"

lemma same_spec_names:
  "same_spec a b \<Longrightarrow> getResourceGroupName a = getResourceGroupName b \<and> getClusterName a = getClusterName b"
  by (simp add: same_spec_def getResourceGroupName_def getClusterName_def)

lemma map_status_same_spec [simp]: "same_spec (map_status f kc) kc'  = same_spec kc kc'"
  by (simp add: map_status_def same_spec_def)

lemma updatePhase_calls:
  assumes "status_update_laws K"
    and "run_state (updatePhaseAndCondition R K kc phase ct status message) s = ((e, kc'), s')"
  shows "(\<exists>c. trace s' = trace s @ [KubeUpdateStatus c e]) \<and> same_spec kc' kc"
proof -
  obtain kc1 s1 where i1: "run_state (initializeStatusState R kc) s = (kc1, s1)" by fastforce
  then have s1: "trace s1 = trace s" "same_spec kc1 kc"
    by (auto simp: initializeStatusState_def) (simp add: same_spec_def)
  obtain b kc2 s2 where c2: "run_state (setCondition R ct status message (set_phase phase kc1)) s1 = ((b, kc2), s2)"
    by (metis prod.collapse)
  then have s2: "trace s2 = trace s" "same_spec kc2 kc"
    using s1 by (auto simp: run_setCondition set_phase_def)
  let ?c = "sortConditions R kc2"
  have c: "same_spec ?c kc" using s2(2) by (simp add: sortConditions_def)
  have "trace s' = trace s @ [KubeUpdateStatus ?c e]" "kc' = snd (fst (kube_StatusUpdate K ?c (world s2)))"
    using assms(2) i1 c2 s2(1) by (auto simp: updatePhaseAndCondition_def Let_def)
  then show ?thesis
    using assms(1) c by (auto simp: status_update_laws_def same_spec_def Let_def)
qed

text \<open>The part of \<open>handleDeletion\<close> that follows a confirmed deletion.\<close>

definition clean_up ::
  "'w reconciler \<Rightarrow> bool \<Rightarrow> kubernetes_cluster \<Rightarrow> ('w, ctrl_result) go" where
  "clean_up r hasFinalizer kc =
     do {
       _ \<leftarrow> DeleteState (rec_client r) kc;
       (if hasFinalizer
        then do {
          (e, _) \<leftarrow> update_object (rec_client r) (kube_RemoveFinalizer (rec_client r) kc KubernetesClusterFinalizer);
          ret (0, e)
        }
        else ret (0, None))
     }"

definition released :: "kubernetes_cluster \<Rightarrow> kubernetes_cluster \<Rightarrow> bool" where
  "released kc c \<longleftrightarrow> kc_Name c = kc_Name kc \<and> kc_Namespace c = kc_Namespace kc \<and> kc_Cluster c = kc_Cluster kc \<and>
     kc_Finalizers c = filter (\<lambda>f. f \<noteq> KubernetesClusterFinalizer) (kc_Finalizers kc)"

lemma clean_up_calls:
  assumes K: "finalizer_laws (rec_client r)" and spec: "same_spec kc1 kc"
    and run: "run_state (clean_up r b kc1) s = (y, s')"
  shows "\<exists>secrets. (\<forall>v\<in>set secrets. is_secret_event v) \<and>
     (if b then \<exists>c u. trace s' = trace s @ secrets @ [KubeUpdateCluster c u] \<and> y = (0, u) \<and> released kc c
      else trace s' = trace s @ secrets \<and> y = (0, None))"
proof -
  obtain q s1 where q: "run_state (DeleteState (rec_client r) kc1) s = (q, s1)" by fastforce
  obtain secrets where secrets: "trace s1 = trace s @ secrets" "\<forall>v\<in>set secrets. is_secret_event v"
    using emitsD [OF emits_state_operations(16) q] .
  have "released kc (kube_RemoveFinalizer (rec_client r) kc1 KubernetesClusterFinalizer)"
    using K spec by (simp add: finalizer_laws_def released_def same_spec_def)
  then have "if b then \<exists>c u. trace s' = trace s @ secrets @ [KubeUpdateCluster c u] \<and> y = (0, u) \<and> released kc c
      else trace s' = trace s @ secrets \<and> y = (0, None)"
    using run q secrets(1) by (auto simp: clean_up_def update_object_def split: prod.splits)
  with secrets(2) show ?thesis by blast
qed

lemma handleDeletion_calls:
  assumes M: "cluster_manager M" and K: "finalizer_laws (rec_client r)" "status_update_laws (rec_client r)"
    and run: "run_state (handleDeletion r M kc) s = (y, s')"
  shows "\<exists>c e0 e post. trace s' = trace s @
       [KubeUpdateStatus c e0, AzClusterDelete (getResourceGroupName kc) (getClusterName kc) e] @ post \<and>
     (if gone e
      then \<exists>secrets. (\<forall>v\<in>set secrets. is_secret_event v) \<and>
        (if KubernetesClusterFinalizer \<in> set (kc_Finalizers kc)
         then \<exists>c u. post = secrets @ [KubeUpdateCluster c u] \<and> y = (0, u) \<and> released kc c
         else post = secrets \<and> y = (0, None))
      else post = [] \<and> (\<exists>err. y = (ControllerRequeueError, Some err)))"
proof -
  let ?K = "rec_client r"
  obtain e0 kc1 s1 where p: "run_state (updatePhaseAndCondition (rec_runtime r) ?K kc PhaseDeleting
      ConditionClusterReady ConditionStatusWorking ''Deleting AKS cluster'') s = ((e0, kc1), s1)"
    by (metis prod.collapse)
  obtain c where t1: "trace s1 = trace s @ [KubeUpdateStatus c e0]" and spec: "same_spec kc1 kc"
    using updatePhase_calls [OF K(2) p] by blast
  obtain d s2 where d: "run_state (akm_DeleteCluster M kc1) s1 = (d, s2)" by fastforce
  obtain e where t2: "trace s2 = trace s1 @ [AzClusterDelete (getResourceGroupName kc) (getClusterName kc) e]"
    and gone: "d = None \<longleftrightarrow> gone e"
    using cluster_manager.delete_call [OF M d] same_spec_names [OF spec] by auto
  have fin: "kube_ContainsFinalizer ?K kc KubernetesClusterFinalizer \<longleftrightarrow> KubernetesClusterFinalizer \<in> set (kc_Finalizers kc)"
    using K(1) by (simp add: finalizer_laws_def)
  show ?thesis
  proof (cases d)
    case (Some err)
    then have "y = (ControllerRequeueError, Some err)" "s' = s2"
      using run p d by (auto simp: handleDeletion_def Let_def)
    then show ?thesis
      using t1 t2 gone Some by (intro exI [of _ c] exI [of _ e0] exI [of _ e] exI [of _ "[]"]) simp
  next
    case None
    then have "run_state (clean_up r (KubernetesClusterFinalizer \<in> set (kc_Finalizers kc)) kc1) s2 = (y, s')"
      using run p d fin by (simp add: handleDeletion_def clean_up_def Let_def)
    from clean_up_calls [OF K(1) spec this] show ?thesis
      using t1 t2 gone None
      by (auto split: if_splits) (metis append_assoc)+
  qed
qed

text \<open>C2. Deleting a resource: Azure is asked exactly once, to delete this cluster in its resource
  group. The finalizer is removed and the state secret deleted only after Azure confirmed the deletion
  or reported the cluster gone; otherwise nothing else is done and the error is returned for a retry in
  60 seconds.\<close>

theorem deletion_keeps_finalizer_until_gone:
  assumes M: "cluster_manager M" and K: "finalizer_laws (rec_client r)" "status_update_laws (rec_client r)"
    and wired: "rec_AKSClusterManager r = Some M" "rec_hasStateService r"
    and got: "fst (kube_Get (rec_client r) name namespace (world s)) = Inr kc" "kc_DeletionTimestamp kc \<noteq> None"
    and run: "run_state (Reconcile r name namespace) s = (x, s')"
  shows "\<exists>c e0 e post. trace s' = trace s @ [KubeGetCluster name namespace None, KubeUpdateStatus c e0,
        AzClusterDelete (getResourceGroupName kc) (getClusterName kc) e] @ post \<and>
     (if gone e
      then \<exists>secrets. (\<forall>v\<in>set secrets. is_secret_event v) \<and>
        (if KubernetesClusterFinalizer \<in> set (kc_Finalizers kc)
         then \<exists>c u. post = secrets @ [KubeUpdateCluster c u] \<and> x = Returned (0, u) \<and>
                KubernetesClusterFinalizer \<notin> set (kc_Finalizers c)
         else post = secrets \<and> x = Returned (0, None))
      else post = [] \<and> (\<exists>err. x = Returned (ControllerRequeueError, Some err)))"
proof -
  let ?s1 = "after_get r name namespace s"
  obtain y where del: "run_state (handleDeletion r M kc) ?s1 = (y, s')" and x: "x = Returned y"
    by (rule Reconcile_parts [OF run]) (use wired got in auto)
  have fin: "released kc c \<Longrightarrow> KubernetesClusterFinalizer \<notin> set (kc_Finalizers c)" for c
    by (simp add: released_def)
  obtain c e0 e post where calls: "trace s' = trace ?s1 @
       [KubeUpdateStatus c e0, AzClusterDelete (getResourceGroupName kc) (getClusterName kc) e] @ post"
    and post: "if gone e
      then \<exists>secrets. (\<forall>v\<in>set secrets. is_secret_event v) \<and>
        (if KubernetesClusterFinalizer \<in> set (kc_Finalizers kc)
         then \<exists>c u. post = secrets @ [KubeUpdateCluster c u] \<and> y = (0, u) \<and> released kc c
         else post = secrets \<and> y = (0, None))
      else post = [] \<and> (\<exists>err. y = (ControllerRequeueError, Some err))"
    using handleDeletion_calls [OF M K del] by blast
  show ?thesis
    by (rule exI [of _ c], rule exI [of _ e0], rule exI [of _ e], rule exI [of _ post])
      (use calls post x fin got in \<open>auto split: if_splits\<close>)
qed

section \<open>Live clusters\<close>

lemma emits_reconcileCluster:
  assumes "cluster_manager M"
  shows "emits (\<lambda>e. is_manager_event e \<or> harmless e) (reconcileCluster r M kc)"
proof -
  have manager: "emits (\<lambda>e. is_manager_event e \<or> harmless e) (akm_ReconcileCluster M kc)"
    by (rule emits_mono [OF cluster_manager.emits_reconcile [OF assms]]) simp
  have quiet: "emits (\<lambda>e. is_manager_event e \<or> harmless e) m" if "emits harmless m" for m :: "('b, 'c) go"
    using that by (rule emits_mono) simp
  have state: "emits (\<lambda>e. is_manager_event e \<or> harmless e) (SetClusterFailed R K kc reason)" for R K reason
    by (rule emits_mono [OF emits_state_harmless(5)]) simp
  have "emits (\<lambda>e. is_manager_event e \<or> harmless e) (record_cluster r M kc aks)" for aks
    by (rule emits_mono [OF cluster_manager.emits_record [OF assms]]) simp
  with manager state show ?thesis
    unfolding reconcileCluster_def by (intro emits_intros emits_updatePhase) simp_all
qed


lemma emits_handleDeletion:
  assumes "cluster_manager M"
  shows "emits (\<lambda>e. (\<exists>rg cl u. e = AzClusterDelete rg cl u) \<or> harmless e) (handleDeletion r M kc)"
proof -
  have del: "emits (\<lambda>e. (\<exists>rg cl u. e = AzClusterDelete rg cl u) \<or> harmless e) (akm_DeleteCluster M kc')" for kc'
    unfolding emits_def
  proof
    fix s
    obtain d s' where "run_state (akm_DeleteCluster M kc') s = (d, s')" by fastforce
    from this cluster_manager.delete_call [OF assms this]
    show "\<exists>es. trace (snd (run_state (akm_DeleteCluster M kc') s)) = trace s @ es \<and>
        (\<forall>e\<in>set es. (\<exists>rg cl u. e = AzClusterDelete rg cl u) \<or> harmless e)" by auto
  qed
  have state: "emits (\<lambda>e. (\<exists>rg cl u. e = AzClusterDelete rg cl u) \<or> harmless e) (DeleteState K kc')" for K kc'
    by (rule emits_mono [OF emits_state_harmless(16)]) simp
  show ?thesis
    unfolding handleDeletion_def by (intro emits_intros del state emits_updatePhase emits_update_object) simp_all
qed

lemma manager_cluster_write:
  "is_manager_event e \<Longrightarrow> is_cluster_write e \<Longrightarrow> \<exists>rg cl c r. e = AzClusterCreateOrUpdate rg cl c r"
  by (auto simp: is_manager_event_def is_cluster_write_def is_pool_reconcile_event_def is_pool_event_def
      is_pool_write_def is_sizing_event_def is_vm_event_def is_class_event_def)

lemma harmless_cluster_write: "harmless e \<Longrightarrow> \<not> is_cluster_write e"
  by (simp add: harmless_def is_azure_write_def)

text \<open>What the live part calls: the cluster manager only for a resource with the finalizer.\<close>

lemma emits_live_part:
  assumes "cluster_manager M"
  shows "emits (\<lambda>e. harmless e \<or> kube_ContainsFinalizer (rec_client r) kc KubernetesClusterFinalizer \<and> is_manager_event e)
    (live_part r M kc)" (is "emits ?P _")
proof -
  have state: "emits ?P (GetOrCreateState (rec_runtime r) (rec_client r) kc)"
    by (rule emits_mono [OF emits_GetOrCreateState [THEN emits_harmless_secrets]]) simp
  have "emits ?P (reconcileCluster r M kc1)"
    if "\<not> \<not> kube_ContainsFinalizer (rec_client r) kc KubernetesClusterFinalizer" for kc1
    by (rule emits_mono [OF emits_reconcileCluster [OF assms]]) (use that in blast)
  then show ?thesis
    unfolding live_part_def by (intro emits_intros state emits_update_object emits_updatePhase) simp_all
qed

text \<open>C7. Azure is asked to create or update a cluster only for a resource that was found, is not being
  deleted and carries the finalizer, and only when the operator's services are in place; and only a
  resource being deleted is ever deleted from Azure.\<close>

theorem azure_writes_guarded:
  assumes M: "\<And>M. rec_AKSClusterManager r = Some M \<Longrightarrow> cluster_manager M"
    and run: "run_state (Reconcile r name namespace) s = (x, s')"
    and new: "trace s' = trace s @ es" and e: "e \<in> set es" "is_cluster_write e"
  shows "\<exists>kc. fst (kube_Get (rec_client r) name namespace (world s)) = Inr kc \<and>
     rec_AKSClusterManager r \<noteq> None \<and> rec_hasStateService r \<and>
     ((\<exists>rg cl c u. e = AzClusterCreateOrUpdate rg cl c u) \<longrightarrow>
        kc_DeletionTimestamp kc = None \<and> kube_ContainsFinalizer (rec_client r) kc KubernetesClusterFinalizer) \<and>
     ((\<exists>rg cl u. e = AzClusterDelete rg cl u) \<longrightarrow> kc_DeletionTimestamp kc \<noteq> None)"
proof -
  let ?s1 = "after_get r name namespace s"
  have step: "P e" if m: "run_state m ?s1 = (y, s')" and P: "emits P m" for m :: "('a, 'c) go" and y P
  proof -
    obtain fs where "trace s' = trace ?s1 @ fs" "\<forall>v\<in>set fs. P v" using emitsD [OF P m] .
    then show ?thesis using new e by (auto simp: is_cluster_write_def)
  qed
  have stop: False if "s' = ?s1" using that new e by (auto simp: is_cluster_write_def)
  show ?thesis
    using run
  proof (cases rule: Reconcile_parts)
    case (deleted kc M' y)
    have "(\<exists>rg cl u. e = AzClusterDelete rg cl u) \<or> harmless e"
      by (rule step [OF deleted(5) emits_handleDeletion [OF M [OF deleted(2)]]])
    then show ?thesis using e(2) harmless_cluster_write deleted(1-4) by auto
  next
    case (live kc M')
    have "harmless e \<or> kube_ContainsFinalizer (rec_client r) kc KubernetesClusterFinalizer \<and> is_manager_event e"
      by (rule step [OF live(5) emits_live_part [OF M [OF live(2)]]])
    then show ?thesis using e(2) harmless_cluster_write manager_cluster_write live(1-4) by auto
  qed (use stop in simp_all)
qed

section \<open>What is recorded\<close>

text \<open>The reads and updates of secrets among some calls were answered without an error.\<close>

definition answered :: "event list \<Rightarrow> bool" where
  "answered es \<longleftrightarrow>
     (\<forall>n ns e. SecretGet n ns (Some e) \<notin> set es) \<and> (\<forall>x e. SecretUpdate x (Some e) \<notin> set es)"

lemma answered_append [simp]: "answered (es @ fs) \<longleftrightarrow> answered es \<and> answered fs"
  by (auto simp: answered_def)

definition read_event :: "kubernetes_cluster \<Rightarrow> event" where
  "read_event kc = SecretGet (state_secret_name kc) (kc_Namespace kc) None"

lemma run_bindE:
  assumes "run_state (State_Monad.bind m f) s = (y, s2)"
  obtains x s1 where "run_state m s = (x, s1)" "run_state (f x) s1 = (y, s2)"
  using assms by (cases "run_state m s") simp

lemma GetOrCreateState_answered:
  assumes run: "run_state (GetOrCreateState R K kc) s = (q, s')" and es: "trace s' = trace s @ es" "answered es"
  shows "es = [read_event kc] \<and> (\<exists>x. q = Inr x)"
proof -
  let ?rest = "\<lambda>r. (case r of Inr secret \<Rightarrow> ret (Inr secret)
     | Inl err \<Rightarrow> if \<not> IsNotFound err then ret (Inl err)
        else do {
          r2 \<leftarrow> secretService_GetSecret K (state_secret_name kc) (kc_Namespace kc);
          (case r2 of Inr secret \<Rightarrow> ret (Inr secret)
             | Inl err2 \<Rightarrow> if \<not> IsNotFound err2 then ret (Inl err2) else createStateSecret R K kc)
        })"
  obtain r s1 where r: "run_state (secretService_GetSecret K (state_secret_name kc) (kc_Namespace kc)) s = (r, s1)"
    and rest: "run_state (?rest r) s1 = (q, s')"
    using run unfolding GetOrCreateState_def by (rule run_bindE)
  have s1: "trace s1 = trace s @ [SecretGet (state_secret_name kc) (kc_Namespace kc) (sum_error r)]"
    using r by (auto simp: secretService_GetSecret_def)
  have "emits is_secret_event (?rest r)"
    unfolding createStateSecret_def getStateWithRetry_def
    by (intro emits_intros emits_get_state_attempts; simp)
  from emitsD [OF this rest] obtain hs where "trace s' = trace s1 @ hs" by blast
  with es s1 have h: "es = SecretGet (state_secret_name kc) (kc_Namespace kc) (sum_error r) # hs" by simp
  with es(2) obtain x where "r = Inr x" by (cases r) (auto simp: answered_def)
  with rest s1 es h show ?thesis by (auto simp: read_event_def)
qed

text \<open>An update whose calls are answered is one read and one update.\<close>

lemma update_answered:
  assumes run: "run_state (update_attempts R K kc edit (Suc n) err) s = (q, s')"
    and es: "trace s' = trace s @ es" "answered es"
  shows "\<exists>x d. es = [read_event kc, SecretUpdate x None] \<and> data_of x = edit d"
proof -
  let ?rest = "\<lambda>r. (case r of Inl err \<Rightarrow> ret (Some err)
        | Inr secret \<Rightarrow>
            (let secret' = secret\<lparr>sec_Data := Some (edit (data_of secret))\<rparr> in
             do {
               e \<leftarrow> call (SecretUpdate secret') (kube_UpdateSecret K secret');
               (case e of None \<Rightarrow> ret None
                | Some err \<Rightarrow>
                    if IsConflict err \<or> IsNotFound err
                    then do { time_Sleep R retry_delay; update_attempts R K kc edit n (Some err) }
                    else ret (Some err))
             }))"
  obtain r s1 where r: "run_state (GetOrCreateState R K kc) s = (r, s1)" and rest: "run_state (?rest r) s1 = (q, s')"
    using run unfolding update_attempts.simps by (rule run_bindE)
  obtain gs where gs: "trace s1 = trace s @ gs" using emitsD [OF emits_GetOrCreateState r] by blast
  have "emits is_secret_event (?rest r)" by (intro emits_intros emits_update_attempts; simp)
  from emitsD [OF this rest] obtain hs where hs: "trace s' = trace s1 @ hs" by blast
  have split: "es = gs @ hs" using es(1) gs hs by simp
  then obtain x where x: "gs = [read_event kc]" "r = Inr x"
    using GetOrCreateState_answered [OF r gs] es(2) by auto
  define x' where "x' = x\<lparr>sec_Data := Some (edit (data_of x))\<rparr>"
  let ?last = "\<lambda>e. (case e of None \<Rightarrow> ret None
                | Some err \<Rightarrow>
                    if IsConflict err \<or> IsNotFound err
                    then do { time_Sleep R retry_delay; update_attempts R K kc edit n (Some err) }
                    else ret (Some err))"
  obtain e s2 where e: "run_state (call (SecretUpdate x') (kube_UpdateSecret K x')) s1 = (e, s2)"
    and last: "run_state (?last e) s2 = (q, s')"
    using rest unfolding x(2) sum.case Let_def x'_def [symmetric] by (rule run_bindE)
  have s2: "trace s2 = trace s1 @ [SecretUpdate x' e]" using e by auto
  have "emits is_secret_event (?last e)" by (intro emits_intros emits_update_attempts)
  from emitsD [OF this last] obtain ks where "trace s' = trace s2 @ ks" by blast
  with hs s2 have h: "hs = SecretUpdate x' e # ks" by simp
  have "answered hs" using es(2) split by simp
  with h have None: "e = None" by (cases e) (auto simp: answered_def)
  then have "ks = []" using last h s2 hs by auto
  with h None split x(1) show ?thesis by (auto simp: x'_def data_of_def)
qed

text \<open>The calls that report a provisioned cluster, its FQDN and its provisioning state.\<close>

definition provisioned_updates :: "kubernetes_cluster \<Rightarrow> managed_cluster \<Rightarrow> string \<Rightarrow> event list \<Rightarrow> bool" where
  "provisioned_updates kc aks i es \<longleftrightarrow>
     (\<exists>x1 x2 x3. es = [read_event kc, SecretUpdate x1 None] @
         (if cluster_fqdn aks = None then [] else [read_event kc, SecretUpdate x2 None]) @
         (if aks_state aks = None then [] else [read_event kc, SecretUpdate x3 None]) \<and>
        data_of x1 KeyClusterProvisioned = Some stateTrue \<and> data_of x1 KeyClusterProvisioning = Some stateFalse \<and>
        data_of x1 KeyAKSResourceID = Some i \<and> data_of x1 KeyAKSClusterName = Some (cd_ClusterId (kc_Cluster kc)) \<and>
        data_of x1 KeyResourceGroupName = Some (cd_Project (kc_Cluster kc)) \<and>
        (cluster_fqdn aks \<noteq> None \<longrightarrow> data_of x2 KeyAKSClusterFQDN = cluster_fqdn aks) \<and>
        (aks_state aks \<noteq> None \<longrightarrow> data_of x3 KeyAKSProvisionState = aks_state aks))"

lemma record_aks_state_answered:
  assumes run: "run_state (record_aks_state r kc aks) s = (u, s')" and i: "mc_ID aks = Some i"
    and es: "trace s' = trace s @ es" "answered es"
  shows "provisioned_updates kc aks i es"
proof -
  let ?R = "rec_runtime r" and ?K = "rec_client r"
  let ?f = "case cluster_fqdn aks of None \<Rightarrow> ret None | Some fqdn \<Rightarrow> SetClusterFQDN ?R ?K kc fqdn"
  let ?p = "case aks_state aks of None \<Rightarrow> ret None | Some st \<Rightarrow> SetAKSProvisionState ?R ?K kc st"
  obtain q1 s1 where s1: "run_state (SetClusterProvisioned ?R ?K kc i (cd_ClusterId (kc_Cluster kc))
      (cd_Project (kc_Cluster kc))) s = (q1, s1)" by fastforce
  obtain q2 s2 where s2: "run_state ?f s1 = (q2, s2)" by fastforce
  obtain q3 s3 where s3: "run_state ?p s2 = (q3, s3)" by fastforce
  have s': "s' = s3" using run i s1 s2 s3 by (simp add: record_aks_state_def Let_def)
  obtain es1 where es1: "trace s1 = trace s @ es1" using emitsD [OF emits_state_operations(6) s1] by blast
  have "emits is_secret_event ?f" by (intro emits_intros)
  then obtain es2 where es2: "trace s2 = trace s1 @ es2" using emitsD [OF _ s2] by blast
  have "emits is_secret_event ?p" by (intro emits_intros)
  then obtain es3 where es3: "trace s3 = trace s2 @ es3" using emitsD [OF _ s3] by blast
  have es_eq: "es = es1 @ es2 @ es3" using es(1) es1 es2 es3 s' by simp
  then have ok: "answered es1" "answered es2" "answered es3" using es(2) by simp_all
  obtain x1 d where x1: "es1 = [read_event kc, SecretUpdate x1 None]"
    "data_of x1 = d ++ [KeyClusterProvisioning \<mapsto> stateFalse, KeyClusterProvisioned \<mapsto> stateTrue,
        KeyAKSResourceID \<mapsto> i, KeyAKSClusterName \<mapsto> cd_ClusterId (kc_Cluster kc),
        KeyResourceGroupName \<mapsto> cd_Project (kc_Cluster kc)]"
    using update_answered [OF s1 [unfolded SetClusterProvisioned_def UpdateStateMultiple_def numeral_3_eq_3] es1 ok(1)]
    by blast
  have "\<exists>x2. es2 = (if cluster_fqdn aks = None then [] else [read_event kc, SecretUpdate x2 None]) \<and>
      (cluster_fqdn aks \<noteq> None \<longrightarrow> data_of x2 KeyAKSClusterFQDN = cluster_fqdn aks)"
  proof (cases "cluster_fqdn aks")
    case None
    then show ?thesis using s2 es2 by simp
  next
    case (Some f)
    with s2 have "run_state (update_attempts ?R ?K kc (\<lambda>d. d(KeyAKSClusterFQDN \<mapsto> f)) 3 None) s1 = (q2, s2)"
      by (simp add: SetClusterFQDN_def UpdateState_def)
    from update_answered [OF this [unfolded numeral_3_eq_3] es2 ok(2)] Some show ?thesis by auto
  qed
  moreover have "\<exists>x3. es3 = (if aks_state aks = None then [] else [read_event kc, SecretUpdate x3 None]) \<and>
      (aks_state aks \<noteq> None \<longrightarrow> data_of x3 KeyAKSProvisionState = aks_state aks)"
  proof (cases "aks_state aks")
    case None
    then show ?thesis using s3 es3 by simp
  next
    case (Some st)
    with s3 have "run_state (update_attempts ?R ?K kc (\<lambda>d. d(KeyAKSProvisionState \<mapsto> st)) 3 None) s2 = (q3, s3)"
      by (simp add: SetAKSProvisionState_def UpdateState_def)
    from update_answered [OF this [unfolded numeral_3_eq_3] es3 ok(3)] Some show ?thesis by auto
  qed
  ultimately show ?thesis
    unfolding provisioned_updates_def es_eq x1(1)
    by (elim exE conjE) (intro exI conjI; assumption | simp add: x1(2))+
qed

text \<open>C17. When the phase read off Azure's answer differs from the one in the status, or the status says
  Creating, Provisioning or nothing, recording the cluster begins by telling the state secret that the
  cluster is provisioned, whatever Azure says of it: even for a cluster in state Failed the secret then
  says provisioned, with that state written next to it; the resource group recorded is the project as
  written, empty when the operator falls back to the namespace. Otherwise nothing of this is
  written: the run is that of the access part alone when the phase is Ready, and makes no call when it
  is not. This is stated of runs in which every read and update of a secret is answered without an
  error, and of a cluster that has an ID.\<close>

theorem recorded_state:
  assumes M: "cluster_manager M" and run: "run_state (record_cluster r M kc aks) s = (u, s')"
    and es: "trace s' = trace s @ es" "answered es" and i: "mc_ID aks = Some i"
    and p: "phase = fst (determinePhaseFromAKS aks)" "current = st_Phase (kc_Status kc)"
  shows "if current \<noteq> phase \<or> current \<in> {[], PhaseCreating, PhaseProvisioning}
     then \<exists>us rest. es = us @ rest \<and> provisioned_updates kc aks i us
     else if phase = PhaseReady then s' = snd (run_state (record_access r M kc) s)
     else es = []"
proof -
  obtain state where d: "determinePhaseFromAKS aks = (phase, state)" using p(1) by (cases "determinePhaseFromAKS aks") simp
  have ready: "phase = PhaseReady \<or> state = ''Succeeded'' \<longleftrightarrow> phase = PhaseReady"
    using d by (auto simp: determinePhaseFromAKS_def phase_defs split: option.splits if_splits)
  have needs: "needs_state_update current phase \<longleftrightarrow> current \<noteq> phase \<or> current \<in> {[], PhaseCreating, PhaseProvisioning}"
    by (auto simp: needs_state_update_def)
  show ?thesis
  proof (cases "needs_state_update current phase")
    case True
    let ?rest = "do {
        kc' \<leftarrow> (if phase = PhaseReady \<or> state = ''Succeeded'' then record_access r M kc else ret kc);
        do { _ \<leftarrow> updateClusterStatus (rec_runtime r) (rec_client r) kc' aks phase; ret () } }"
    obtain v s1 where s1: "run_state (record_aks_state r kc aks) s = (v, s1)"
      by (cases "run_state (record_aks_state r kc aks) s")
    then have rest: "run_state ?rest s1 = (u, s')"
      using run d True p(2) by (simp add: record_cluster_def)
    have "emits is_secret_event (record_aks_state r kc aks)"
      unfolding record_aks_state_def by (intro emits_intros)
    then obtain us where us: "trace s1 = trace s @ us" using emitsD [OF _ s1] by blast
    have "emits harmless ?rest"
      unfolding record_access_def
      by (intro emits_intros emits_state_harmless cluster_manager.emits_fetch [OF M] emits_KubeSystemUID
          emits_updateClusterStatus)
    then obtain hs where "trace s' = trace s1 @ hs" using emitsD [OF _ rest] by blast
    with es us have "es = us @ hs" by simp
    moreover have "provisioned_updates kc aks i us"
      using record_aks_state_answered [OF s1 i us] es(2) calculation by simp
    ultimately show ?thesis using True needs by auto
  next
    case False
    then have "snd (run_state (if phase = PhaseReady then record_access r M kc else ret kc) s) = s'"
      using run d p(2) ready by (auto simp: record_cluster_def split: prod.splits)
    then show ?thesis using False needs es(1) by (cases "phase = PhaseReady") auto
  qed
qed

text \<open>The outcome of a reconciliation of a live cluster is the cluster manager's: its error is
  returned for a retry in 60 seconds, its success asks to be called again in 5 seconds, whatever the
  bookkeeping in between runs into; a panic is passed on.\<close>

theorem reconcile_outcome:
  "fst (run_state (reconcileCluster r M kc) s) =
     (case fst (run_state (akm_ReconcileCluster M kc) s) of
        Panicked \<Rightarrow> Panicked
      | Returned (c, Some err) \<Rightarrow> Returned (ControllerRequeueError, Some err)
      | Returned (c, None) \<Rightarrow> Returned (ControllerRequeueDelay, None))"
  by (auto simp: reconcileCluster_def split: prod.splits outcome.splits option.splits)

text \<open>The phase of a cluster is Ready exactly when Azure reports \<open>Succeeded\<close>, and the conditions
  derived from it follow: cluster-ready is \<open>ok\<close> exactly then, and a cluster in state Failed has all
  five conditions in error.\<close>

theorem phase_of_aks_state:
  "(fst (determinePhaseFromAKS aks) = PhaseReady \<longleftrightarrow> aks_state aks = Some ''Succeeded'') \<and>
   ((ConditionClusterReady, ConditionStatusOK) \<in> set (expected_conditions (fst (determinePhaseFromAKS aks)))
      \<longleftrightarrow> aks_state aks = Some ''Succeeded'') \<and>
   (snd ` set (expected_conditions (fst (determinePhaseFromAKS aks))) = {ConditionStatusError}
      \<longleftrightarrow> aks_state aks = Some ''Failed'')"
  by (auto simp: determinePhaseFromAKS_def expected_conditions_def conditions_of_phase_def all_conditions_def
      phase_defs condition_defs condition_status_defs Let_def split: option.splits if_splits)

text \<open>A kubeconfig that is already stored is not fetched again: Azure is not called and nothing is
  written.\<close>

theorem kubeconfig_fetched_once:
  assumes "run_state (GetKubeconfig (rec_runtime r) (rec_client r) kc) s = (Inr (Some c), s')" and "c \<noteq> []"
  shows "run_state (fetchAndStoreKubeconfig r M kc) s = (Inr False, s')"
  using assms by (simp add: fetchAndStoreKubeconfig_def)

section \<open>Concurrency\<close>

text \<open>The number of parallel reconciliations is positive and fits the machine's int, whatever the
  environment holds; unset, malformed, out of range and non-positive values all give 5.\<close>

theorem max_concurrent_reconciles_positive:
  "1 \<le> maxConcurrentReconciles R \<and> maxConcurrentReconciles R < 2 ^ 63 \<and>
   (maxConcurrentReconciles R = 5 \<or>
      strconv_Atoi (TrimSpace (rt_getenv R ''MAX_CONCURRENT_RECONCILES'')) = Some (maxConcurrentReconciles R))"
  by (auto simp: maxConcurrentReconciles_def Let_def strconv_Atoi_def split: option.splits if_splits)

section \<open>Witnesses\<close>

definition fx_manager :: "fx_world aks_cluster_manager" where
  "fx_manager = aks_cluster_manager_of fx_rt (fx_cluster_manager (Inr (fx_managed (Some ''Succeeded''))))"

lemma fx_manager_ok: "cluster_manager fx_manager"
  unfolding fx_manager_def by (rule cluster_services.manager_is_service [OF fx_cluster_services])

definition fx_guest :: "fx_world guest_api" where
  "fx_guest =
     \<lparr>ga_NewClientConfig = (\<lambda>k. None), ga_ClientConfig = (\<lambda>k. None), ga_NewForConfig = (\<lambda>k. None),
      ga_GetNamespaceUID = (\<lambda>k n w. (Inr ''uid'', w))\<rparr>"

definition fx_reconciler :: "kubernetes_cluster \<Rightarrow> fx_world reconciler" where
  "fx_reconciler kc =
     \<lparr>rec_runtime = fx_rt, rec_client = fx_kube\<lparr>kube_Get := \<lambda>n ns w. (Inr kc, w)\<rparr>,
      rec_AKSClusterManager = Some fx_manager, rec_hasStateService = True, rec_guest = fx_guest\<rparr>"

lemma fx_reconciler_simps [simp]:
  "rec_AKSClusterManager (fx_reconciler kc) = Some fx_manager" "rec_hasStateService (fx_reconciler kc)"
  "rec_runtime (fx_reconciler kc) = fx_rt"
  "fst (kube_Get (rec_client (fx_reconciler kc)) n ns w) = Inr kc"
  "finalizer_laws (rec_client (fx_reconciler kc))" "status_update_laws (rec_client (fx_reconciler kc))"
  by (simp_all add: fx_reconciler_def fx_kube_def finalizer_laws_def status_update_laws_def)

definition fx_deleted :: kubernetes_cluster where
  "fx_deleted = fx_cluster\<lparr>kc_DeletionTimestamp := Some 50\<rparr>"

theorem deletion_keeps_finalizer_until_gone_witness:
  "\<exists>e. AzClusterDelete ''team'' ''c1'' e \<in>
     set (trace (snd (run_state (Reconcile (fx_reconciler fx_deleted) ''demo'' ''team'') fx_state)))"
proof -
  have n: "getResourceGroupName fx_deleted = ''team''" "getClusterName fx_deleted = ''c1''"
    by (simp_all add: fx_deleted_def getResourceGroupName_def getClusterName_def fx_cluster_def)
  have d: "kc_DeletionTimestamp fx_deleted \<noteq> None" by (simp add: fx_deleted_def)
  obtain c e0 e post where "trace (snd (run_state (Reconcile (fx_reconciler fx_deleted) ''demo'' ''team'') fx_state)) =
      trace fx_state @ [KubeGetCluster ''demo'' ''team'' None, KubeUpdateStatus c e0,
        AzClusterDelete (getResourceGroupName fx_deleted) (getClusterName fx_deleted) e] @ post"
    using deletion_keeps_finalizer_until_gone [OF fx_manager_ok, of "fx_reconciler fx_deleted" "''demo''" "''team''"
        fx_state fx_deleted, OF _ _ _ _ _ d prod.collapse [symmetric]] by auto
  then show ?thesis unfolding n by auto
qed


theorem azure_writes_guarded_witness:
  "AzClusterDelete ''team'' ''c1'' None \<notin>
     set (trace (snd (run_state (Reconcile (fx_reconciler fx_cluster) ''demo'' ''team'') fx_state)))"
proof
  let ?run = "run_state (Reconcile (fx_reconciler fx_cluster) ''demo'' ''team'') fx_state"
  assume e: "AzClusterDelete ''team'' ''c1'' None \<in> set (trace (snd ?run))"
  have t: "trace (snd ?run) = trace fx_state @ trace (snd ?run)" by simp
  have m: "cluster_manager M" if "rec_AKSClusterManager (fx_reconciler fx_cluster) = Some M" for M
    using that fx_manager_ok by simp
  have w: "is_cluster_write (AzClusterDelete ''team'' ''c1'' None)" by (simp add: is_cluster_write_def)
  show False
    using azure_writes_guarded [OF m prod.collapse [symmetric] t e w] by (simp add: fx_cluster_def)
qed

lemma fx_update_answered:
  assumes "fx_stored (world s) (''c1'', ''team'') \<noteq> None"
    and run: "run_state (update_attempts fx_rt fx_kube fx_cluster edit 3 err) s = (q, s')"
  shows "fx_stored (world s') (''c1'', ''team'') \<noteq> None \<and> (answered (trace s) \<longrightarrow> answered (trace s'))"
proof -
  obtain x where x: "fx_stored (world s) (''c1'', ''team'') = Some x" using assms(1) by blast
  then have k: "sec_Name x = ''c1''" "sec_Namespace x = ''team''"
    by (auto simp: fx_stored_def split: option.splits if_splits)
  have "run_state (GetOrCreateState fx_rt fx_kube fx_cluster) s =
      (Inr x, s\<lparr>trace := trace s @ [SecretGet ''c1'' ''team'' None]\<rparr>)"
    using x by (simp add: GetOrCreateState_def secretService_GetSecret_def fx_kube_def state_secret_name_def fx_cluster_def)
  then show ?thesis
    using run k by (auto simp: numeral_3_eq_3 Let_def) (auto simp: fx_kube_def fx_stored_def answered_def)
qed

lemma fx_records:
  assumes "fx_stored (world s) (''c1'', ''team'') \<noteq> None" "answered (trace s)"
    and run: "run_state (record_aks_state ((fx_reconciler fx_cluster)\<lparr>rec_client := fx_kube\<rparr>) fx_cluster
      (fx_managed (Some ''Failed''))) s = ((), s')"
  shows "answered (trace s')"
proof -
  obtain q1 s1 where s1: "run_state (SetClusterProvisioned fx_rt fx_kube fx_cluster ''/aks/c1'' ''c1'' []) s = (q1, s1)"
    by fastforce
  obtain q2 s2 where s2: "run_state (SetClusterFQDN fx_rt fx_kube fx_cluster ''c1.azmk8s.io'') s1 = (q2, s2)"
    by fastforce
  obtain q3 s3 where s3: "run_state (SetAKSProvisionState fx_rt fx_kube fx_cluster ''Failed'') s2 = (q3, s3)"
    by fastforce
  note one = fx_update_answered [OF assms(1) s1 [unfolded SetClusterProvisioned_def UpdateStateMultiple_def]]
  note two = fx_update_answered [OF conjunct1 [OF one] s2 [unfolded SetClusterFQDN_def UpdateState_def]]
  note three = fx_update_answered [OF conjunct1 [OF two] s3 [unfolded SetAKSProvisionState_def UpdateState_def]]
  have "s' = s3"
    using run s1 s2 s3
    by (simp add: record_aks_state_def fx_managed_def aks_state_def cluster_fqdn_def fx_cluster_def)
  then show ?thesis using one two three assms(2) by simp
qed

text \<open>Azure reports a failed cluster whose status says it is being updated.\<close>

theorem recorded_state_witness:
  "\<exists>us rest. trace (snd (run_state (record_cluster ((fx_reconciler fx_cluster)\<lparr>rec_client := fx_kube\<rparr>) fx_manager
        fx_cluster (fx_managed (Some ''Failed''))) (fx_state_with [(''c1'', ''team'') \<mapsto> fx_secret]))) = us @ rest \<and>
     provisioned_updates fx_cluster (fx_managed (Some ''Failed'')) ''/aks/c1'' us"
proof -
  let ?r = "(fx_reconciler fx_cluster)\<lparr>rec_client := fx_kube\<rparr>" and ?s = "fx_state_with [(''c1'', ''team'') \<mapsto> fx_secret]"
  let ?run = "run_state (record_cluster ?r fx_manager fx_cluster (fx_managed (Some ''Failed''))) ?s"
  have i: "mc_ID (fx_managed (Some ''Failed'')) = Some ''/aks/c1''" by (simp add: fx_managed_def)
  have t: "trace (snd ?run) = trace ?s @ trace (snd ?run)" by (simp add: fx_state_with_def fx_state_def)
  obtain s1 where s1: "run_state (record_aks_state ?r fx_cluster (fx_managed (Some ''Failed''))) ?s = ((), s1)"
    by (cases "run_state (record_aks_state ?r fx_cluster (fx_managed (Some ''Failed''))) ?s") simp
  have run: "?run = (let (x, s2) = run_state (updateClusterStatus fx_rt fx_kube fx_cluster
      (fx_managed (Some ''Failed'')) PhaseFailed) s1 in ((), s2))"
    using s1 by (simp add: record_cluster_def determinePhaseFromAKS_def aks_state_def fx_managed_def fx_cluster_def
        needs_state_update_def fx_status_def phase_defs split: prod.splits)
  have "emits (\<lambda>e. \<not> is_secret_event e) (updateClusterStatus fx_rt fx_kube fx_cluster (fx_managed (Some ''Failed'')) PhaseFailed)"
    unfolding updateClusterStatus_def annotate_cluster_id_def
    by (intro emits_intros) (simp_all add: is_secret_event_def)
  moreover obtain x s2 where s2: "run_state (updateClusterStatus fx_rt fx_kube fx_cluster
      (fx_managed (Some ''Failed'')) PhaseFailed) s1 = (x, s2)" by fastforce
  ultimately obtain hs where "trace s2 = trace s1 @ hs" "\<forall>e\<in>set hs. \<not> is_secret_event e"
    by (rule emitsD)
  then have hs: "trace (snd ?run) = trace s1 @ hs" "\<forall>e\<in>set hs. \<not> is_secret_event e"
    using run s2 by simp_all
  then have "answered hs" by (auto simp: answered_def)
  moreover have "answered (trace s1)"
    by (rule fx_records [OF _ _ s1])
      (simp_all add: fx_state_with_def fx_state_def fx_secret_def fx_stored_def answered_def)
  ultimately have "answered (trace (snd ?run))" using hs(1) by simp
  from recorded_state [OF fx_manager_ok prod.collapse [symmetric] t this i refl refl]
  show ?thesis
    by (simp add: determinePhaseFromAKS_def aks_state_def fx_managed_def fx_cluster_def fx_status_def phase_defs)
qed

theorem kubeconfig_fetched_once_witness:
  "fst (run_state (fetchAndStoreKubeconfig ((fx_reconciler fx_cluster)\<lparr>rec_client := fx_kube\<rparr>) fx_manager fx_cluster)
     (fx_state_with [(''c1'', ''team'') \<mapsto> fx_secret])) = Inr False"
proof -
  let ?r = "(fx_reconciler fx_cluster)\<lparr>rec_client := fx_kube\<rparr>"
  have found: "run_state (GetOrCreateState (rec_runtime ?r) (rec_client ?r) fx_cluster)
      (fx_state_with [(''c1'', ''team'') \<mapsto> fx_secret]) =
     (Inr fx_secret, (fx_state_with [(''c1'', ''team'') \<mapsto> fx_secret])\<lparr>trace := [SecretGet ''c1'' ''team'' None]\<rparr>)"
    by (simp add: GetOrCreateState_def secretService_GetSecret_def fx_kube_def fx_stored_def fx_secret_def
        fx_state_with_def fx_state_def state_secret_name_def fx_cluster_def)
  have c: "data_of fx_secret KeyKubeConfig = Some ''config''" by (simp add: fx_secret_def data_of_def)
  have "run_state (GetKubeconfig (rec_runtime ?r) (rec_client ?r) fx_cluster)
      (fx_state_with [(''c1'', ''team'') \<mapsto> fx_secret]) =
     (Inr (Some ''config''), (fx_state_with [(''c1'', ''team'') \<mapsto> fx_secret])\<lparr>trace := [SecretGet ''c1'' ''team'' None]\<rparr>)"
    using found c by (simp add: GetKubeconfig_def)
  from kubeconfig_fetched_once [OF this] show ?thesis by simp
qed

end
