(* ===== verification/AzureClient.thy ===== *)
theory AzureClient
  imports VMSize
begin

text \<open>
  \<open>pkg/clients/azure\<close>: the wrappers around the Azure SDK that implement the client
  interfaces. A long-running operation is polled every 30 seconds by \<open>pollWithLogging\<close>,
  which may poll for ever: the loop is a \<^theory_text>\<open>partial_function (option)\<close>, so not
  returning is \<^const>\<open>None\<close>. The SDK (pollers, pagers, service calls) and the Go context are
  parameters; a poller's and a service call's effect is on the world \<open>'w\<close>.
\<close>

section \<open>The SDK\<close>

record ('w, 'r) poller =
  pl_Poll :: "'w \<Rightarrow> (go_error + string) \<times> 'w"  \<comment> \<open>the response's status line\<close>
  pl_Done :: "'w \<Rightarrow> bool"
  pl_Result :: "'w \<Rightarrow> (go_error + 'r) \<times> 'w"
  pl_PollUntilDone :: "'w \<Rightarrow> (go_error + 'r) \<times> 'w"

text \<open>
  The context: \<open>cx_check\<close> is the \<open>select\<close> with a \<open>default\<close> branch, \<open>cx_wait d\<close> the
  \<open>select\<close> between \<open>ctx.Done()\<close> and \<open>time.After(d)\<close>. Both give \<open>ctx.Err()\<close> when
  the context's branch is taken.
\<close>

record 'w go_context =
  cx_check :: "'w \<Rightarrow> go_error option \<times> 'w"
  cx_wait :: "time \<Rightarrow> 'w \<Rightarrow> go_error option \<times> 'w"

record 'w managed_clusters_sdk =
  sdk_BeginCreateOrUpdate ::
    "string \<Rightarrow> string \<Rightarrow> managed_cluster \<Rightarrow> 'w \<Rightarrow> (go_error + ('w, managed_cluster) poller) \<times> 'w"
  sdk_Get :: "string \<Rightarrow> string \<Rightarrow> 'w \<Rightarrow> (go_error + managed_cluster) \<times> 'w"
  sdk_BeginDelete :: "string \<Rightarrow> string \<Rightarrow> 'w \<Rightarrow> (go_error + ('w, unit) poller) \<times> 'w"
  sdk_GetAccessProfile ::
    "string \<Rightarrow> string \<Rightarrow> string \<Rightarrow> 'w \<Rightarrow> (go_error + access_profile) \<times> 'w"
  sdk_ListClusterAdminCredentials ::
    "string \<Rightarrow> string \<Rightarrow> 'w \<Rightarrow> (go_error + credential_results) \<times> 'w"
  sdk_ListClusterUserCredentials ::
    "string \<Rightarrow> string \<Rightarrow> 'w \<Rightarrow> (go_error + credential_results) \<times> 'w"

record ('w, 'p, 'x) pager =
  pg_More :: "'p \<Rightarrow> bool"
  pg_NextPage :: "'p \<Rightarrow> 'w \<Rightarrow> (go_error + 'x list) \<times> 'p \<times> 'w"

record ('w, 'p) agent_pools_sdk =
  sdkp_BeginCreateOrUpdate ::
    "string \<Rightarrow> string \<Rightarrow> string \<Rightarrow> agent_pool \<Rightarrow> 'w \<Rightarrow> (go_error + ('w, agent_pool) poller) \<times> 'w"
  sdkp_Get :: "string \<Rightarrow> string \<Rightarrow> string \<Rightarrow> 'w \<Rightarrow> (go_error + agent_pool) \<times> 'w"
  sdkp_BeginDelete ::
    "string \<Rightarrow> string \<Rightarrow> string \<Rightarrow> 'w \<Rightarrow> (go_error + ('w, unit) poller) \<times> 'w"
  sdkp_NewListPager :: "string \<Rightarrow> string \<Rightarrow> 'p"
  sdkp_pager :: "('w, 'p, agent_pool) pager"

record ('w, 'p) vm_sizes_sdk =
  sdkv_NewListPager :: "string \<Rightarrow> 'p"
  sdkv_pager :: "('w, 'p, vm_size) pager"

section \<open>Polling a long-running operation\<close>

definition seconds :: "int \<Rightarrow> time" where
  "seconds n = n * 1000000000"

definition pollInterval :: time where
  "pollInterval = seconds 30"

definition logInterval :: time where
  "logInterval = seconds 60"

lemma interval_simps [simp]: "0 < pollInterval" "0 < logInterval" "pollInterval \<noteq> 0"
  by (simp_all add: pollInterval_def logInterval_def seconds_def)

text \<open>\<open>Duration.Round\<close>: to the nearest multiple, halves away from zero.\<close>

definition Duration_Round :: "time \<Rightarrow> time \<Rightarrow> time" where
  "Duration_Round d m =
     (if m \<le> 0 then d
      else if d < 0 then - ((2 * - d + m) div (2 * m) * m)
      else (2 * d + m) div (2 * m) * m)"

datatype poll_log =
    OperationStarted
  | OperationProgress time string
  | OperationCompleted time

fun is_progress :: "poll_log \<Rightarrow> bool" where
  "is_progress (OperationProgress d st) = True"
| "is_progress l = False"

text \<open>
  One turn of the loop: \<^const>\<open>Inl\<close> is a return from the function, \<^const>\<open>Inr\<close> the next
  turn with the new \<open>lastLogTime\<close>.
\<close>

definition poll_turn ::
  "'w runtime \<Rightarrow> 'w go_context \<Rightarrow> ('w, 'r) poller \<Rightarrow> time \<Rightarrow> time \<Rightarrow> 'w \<Rightarrow>
     ((go_error + 'r) + time) \<times> poll_log list \<times> 'w" where
  "poll_turn R X p startTime lastLogTime w =
     (case cx_check X w of
        (Some cancelled, w1) \<Rightarrow> (Inl (Inl cancelled), [], w1)
      | (None, w1) \<Rightarrow>
          (case pl_Poll p w1 of
             (Inl err, w2) \<Rightarrow> (Inl (Inl (wrap_error ''polling failed'' err)), [], w2)
           | (Inr status, w2) \<Rightarrow>
               (let (t, w3) = rt_now R w2;
                    elapsed = Duration_Round (t - startTime) (seconds 1)
                in if pl_Done p w3
                   then (case pl_Result p w3 of
                           (Inl err, w4) \<Rightarrow>
                             (Inl (Inl (wrap_error ''failed to get operation result'' err)),
                              [OperationCompleted elapsed], w4)
                         | (Inr result, w4) \<Rightarrow>
                             (Inl (Inr result), [OperationCompleted elapsed], w4))
                   else
                     (let (since, w4) = rt_now R w3;
                          (lastLog, logs, w5) =
                            (if since - lastLogTime \<ge> logInterval
                             then (let (now, w5) = rt_now R w4
                                   in (now, [OperationProgress elapsed status], w5))
                             else (lastLogTime, [], w4))
                      in (case cx_wait X pollInterval w5 of
                            (Some cancelled, w6) \<Rightarrow> (Inl (Inl cancelled), logs, w6)
                          | (None, w6) \<Rightarrow> (Inr lastLog, logs, w6))))))"

partial_function (option) poll_loop ::
  "'w runtime \<Rightarrow> 'w go_context \<Rightarrow> ('w, 'r) poller \<Rightarrow> time \<Rightarrow> time \<Rightarrow> poll_log list \<Rightarrow> 'w \<Rightarrow>
     ((go_error + 'r) \<times> poll_log list \<times> 'w) option" where
  "poll_loop R X p startTime lastLogTime logs w =
     (case poll_turn R X p startTime lastLogTime w of
        (Inl r, l, w') \<Rightarrow> Some (r, logs @ l, w')
      | (Inr lastLog, l, w') \<Rightarrow> poll_loop R X p startTime lastLog (logs @ l) w')"

definition pollWithLogging ::
  "'w runtime \<Rightarrow> 'w go_context \<Rightarrow> ('w, 'r) poller \<Rightarrow> 'w \<Rightarrow>
     ((go_error + 'r) \<times> poll_log list \<times> 'w) option" where
  "pollWithLogging R X p w =
     (let (startTime, w1) = rt_now R w
      in poll_loop R X p startTime startTime [OperationStarted] w1)"

section \<open>The managed-cluster client\<close>

text \<open>A poll's result with the wrapper's message around the error; the log lines are dropped.\<close>

definition polled ::
  "string \<Rightarrow> ((go_error + 'r) \<times> poll_log list \<times> 'w) option \<Rightarrow> ((go_error + 'r) \<times> 'w) option" where
  "polled msg r =
     (case r of
        None \<Rightarrow> None
      | Some (Inl err, logs, w) \<Rightarrow> Some (Inl (wrap_error msg err), w)
      | Some (Inr x, logs, w) \<Rightarrow> Some (Inr x, w))"

definition clusterClient_CreateOrUpdate ::
  "'w runtime \<Rightarrow> 'w go_context \<Rightarrow> 'w managed_clusters_sdk \<Rightarrow> string \<Rightarrow> string \<Rightarrow> managed_cluster \<Rightarrow>
     'w \<Rightarrow> ((go_error + managed_cluster) \<times> 'w) option" where
  "clusterClient_CreateOrUpdate R X S rg name cluster w =
     (case sdk_BeginCreateOrUpdate S rg name cluster w of
        (Inl err, w1) \<Rightarrow>
          Some (Inl (wrap_error ''failed to begin create/update managed cluster'' err), w1)
      | (Inr p, w1) \<Rightarrow>
          polled ''failed to create/update managed cluster'' (pollWithLogging R X p w1))"

definition wrapped :: "string \<Rightarrow> (go_error + 'a) \<times> 'w \<Rightarrow> (go_error + 'a) \<times> 'w" where
  "wrapped msg r =
     (case r of (Inl err, w) \<Rightarrow> (Inl (wrap_error msg err), w) | (Inr x, w) \<Rightarrow> (Inr x, w))"

definition clusterClient_Get ::
  "'w managed_clusters_sdk \<Rightarrow> string \<Rightarrow> string \<Rightarrow> 'w \<Rightarrow> (go_error + managed_cluster) \<times> 'w" where
  "clusterClient_Get S rg name w = wrapped ''failed to get managed cluster'' (sdk_Get S rg name w)"

definition clusterClient_Delete ::
  "'w runtime \<Rightarrow> 'w go_context \<Rightarrow> 'w managed_clusters_sdk \<Rightarrow> string \<Rightarrow> string \<Rightarrow>
     'w \<Rightarrow> (go_error option \<times> 'w) option" where
  "clusterClient_Delete R X S rg name w =
     (case sdk_BeginDelete S rg name w of
        (Inl err, w1) \<Rightarrow> Some (Some (wrap_error ''failed to begin delete managed cluster'' err), w1)
      | (Inr p, w1) \<Rightarrow>
          (case polled ''failed to delete managed cluster'' (pollWithLogging R X p w1) of
             None \<Rightarrow> None
           | Some (Inl err, w2) \<Rightarrow> Some (Some err, w2)
           | Some (Inr u, w2) \<Rightarrow> Some (None, w2)))"

definition clusterClient_GetAccessProfile ::
  "'w managed_clusters_sdk \<Rightarrow> string \<Rightarrow> string \<Rightarrow> string \<Rightarrow> 'w \<Rightarrow> (go_error + access_profile) \<times> 'w"
where
  "clusterClient_GetAccessProfile S rg name role w =
     wrapped ''failed to get access profile'' (sdk_GetAccessProfile S rg name role w)"

definition clusterClient_ListClusterAdminCredentials ::
  "'w managed_clusters_sdk \<Rightarrow> string \<Rightarrow> string \<Rightarrow> 'w \<Rightarrow> (go_error + credential_results) \<times> 'w" where
  "clusterClient_ListClusterAdminCredentials S rg name w =
     wrapped ''failed to list cluster admin credentials''
       (sdk_ListClusterAdminCredentials S rg name w)"

definition clusterClient_ListClusterUserCredentials ::
  "'w managed_clusters_sdk \<Rightarrow> string \<Rightarrow> string \<Rightarrow> 'w \<Rightarrow> (go_error + credential_results) \<times> 'w" where
  "clusterClient_ListClusterUserCredentials S rg name w =
     wrapped ''failed to list cluster user credentials''
       (sdk_ListClusterUserCredentials S rg name w)"

section \<open>The agent-pool and VM-size clients\<close>

definition poolClient_CreateOrUpdate ::
  "('w, 'p) agent_pools_sdk \<Rightarrow> string \<Rightarrow> string \<Rightarrow> string \<Rightarrow> agent_pool \<Rightarrow> 'w \<Rightarrow>
     (go_error + agent_pool) \<times> 'w" where
  "poolClient_CreateOrUpdate S rg cl name pool w =
     (case sdkp_BeginCreateOrUpdate S rg cl name pool w of
        (Inl err, w1) \<Rightarrow> (Inl (wrap_error ''failed to begin create/update agent pool'' err), w1)
      | (Inr p, w1) \<Rightarrow> wrapped ''failed to create/update agent pool'' (pl_PollUntilDone p w1))"

definition poolClient_Get ::
  "('w, 'p) agent_pools_sdk \<Rightarrow> string \<Rightarrow> string \<Rightarrow> string \<Rightarrow> 'w \<Rightarrow> (go_error + agent_pool) \<times> 'w" where
  "poolClient_Get S rg cl name w = wrapped ''failed to get agent pool'' (sdkp_Get S rg cl name w)"

definition poolClient_Delete ::
  "('w, 'p) agent_pools_sdk \<Rightarrow> string \<Rightarrow> string \<Rightarrow> string \<Rightarrow> 'w \<Rightarrow> go_error option \<times> 'w" where
  "poolClient_Delete S rg cl name w =
     (case sdkp_BeginDelete S rg cl name w of
        (Inl err, w1) \<Rightarrow> (Some (wrap_error ''failed to begin delete agent pool'' err), w1)
      | (Inr p, w1) \<Rightarrow>
          (case pl_PollUntilDone p w1 of
             (Inl err, w2) \<Rightarrow> (Some (wrap_error ''failed to delete agent pool'' err), w2)
           | (Inr u, w2) \<Rightarrow> (None, w2)))"

text \<open>The pager loop of both \<open>List\<close> methods: pages are appended until there are no more.\<close>

partial_function (option) list_pages ::
  "string \<Rightarrow> ('w, 'p, 'x) pager \<Rightarrow> 'p \<Rightarrow> 'x list \<Rightarrow> 'w \<Rightarrow> ((go_error + 'x list) \<times> 'w) option" where
  "list_pages msg G p xs w =
     (if pg_More G p
      then (case pg_NextPage G p w of
              (Inl err, p', w') \<Rightarrow> Some (Inl (wrap_error msg err), w')
            | (Inr page, p', w') \<Rightarrow> list_pages msg G p' (xs @ page) w')
      else Some (Inr xs, w))"

definition poolClient_List ::
  "('w, 'p) agent_pools_sdk \<Rightarrow> string \<Rightarrow> string \<Rightarrow> 'w \<Rightarrow> ((go_error + agent_pool list) \<times> 'w) option"
where
  "poolClient_List S rg cl w =
     list_pages ''failed to list agent pools'' (sdkp_pager S) (sdkp_NewListPager S rg cl) [] w"

definition vmSizeClient_List ::
  "('w, 'p) vm_sizes_sdk \<Rightarrow> string \<Rightarrow> 'w \<Rightarrow> ((go_error + vm_size list) \<times> 'w) option" where
  "vmSizeClient_List S location w =
     list_pages ''failed to list VM sizes'' (sdkv_pager S) (sdkv_NewListPager S location) [] w"

definition vmSizeClient_GetVMSize ::
  "('w, 'p) vm_sizes_sdk \<Rightarrow> string \<Rightarrow> string \<Rightarrow> 'w \<Rightarrow> ((go_error + vm_size) \<times> 'w) option" where
  "vmSizeClient_GetVMSize S location vmSizeName w =
     (case vmSizeClient_List S location w of
        None \<Rightarrow> None
      | Some (Inl err, w') \<Rightarrow> Some (Inl err, w')
      | Some (Inr sizes, w') \<Rightarrow>
          Some (case find_vm_size sizes vmSizeName of
                  Some sz \<Rightarrow> Inr sz
                | None \<Rightarrow> Inl (vm_size_not_found vmSizeName location), w'))"

section \<open>Rounds of polling\<close>

text \<open>The loop cut off after a number of turns, to count them.\<close>

fun poll_rounds ::
  "nat \<Rightarrow> 'w runtime \<Rightarrow> 'w go_context \<Rightarrow> ('w, 'r) poller \<Rightarrow> time \<Rightarrow> time \<Rightarrow> poll_log list \<Rightarrow> 'w \<Rightarrow>
     ((go_error + 'r) \<times> poll_log list \<times> 'w) option" where
  "poll_rounds 0 R X p startTime lastLogTime logs w = None"
| "poll_rounds (Suc n) R X p startTime lastLogTime logs w =
     (case poll_turn R X p startTime lastLogTime w of
        (Inl r, l, w') \<Rightarrow> Some (r, logs @ l, w')
      | (Inr lastLog, l, w') \<Rightarrow> poll_rounds n R X p startTime lastLog (logs @ l) w')"

lemma poll_rounds_loop:
  "poll_rounds n R X p st lst logs w = Some out \<Longrightarrow> poll_loop R X p st lst logs w = Some out"
proof (induction n arbitrary: lst logs w)
  case (Suc n)
  then show ?case
    by (subst poll_loop.simps) (auto split: prod.splits sum.splits)
qed simp

lemma poll_loop_rounds:
  fixes R :: "'w runtime" and p :: "('w, 'r) poller"
  assumes "poll_loop R X p st lst logs w = Some out"
  obtains n where "poll_rounds n R X p st lst logs w = Some out"
proof -
  have "\<exists>n. poll_rounds n R X p st lst logs w = Some out"
  proof (rule poll_loop.raw_induct
      [where P = "\<lambda>R X p st lst logs w out. \<exists>n. poll_rounds n R X p st lst logs w = Some out",
        OF _ assms])
    fix loop :: "'w runtime \<Rightarrow> 'w go_context \<Rightarrow> ('w, 'r) poller \<Rightarrow> time \<Rightarrow> time \<Rightarrow> poll_log list \<Rightarrow> 'w \<Rightarrow>
        ((go_error + 'r) \<times> poll_log list \<times> 'w) option"
      and R X st lst logs w out and p :: "('w, 'r) poller"
    assume IH: "\<And>R X p st lst logs w out. loop R X p st lst logs w = Some out \<Longrightarrow>
        \<exists>n. poll_rounds n R X p st lst logs w = Some out"
      and turn: "(case poll_turn R X p st lst w of
          (Inl r, l, w') \<Rightarrow> Some (r, logs @ l, w')
        | (Inr lastLog, l, w') \<Rightarrow> loop R X p st lastLog (logs @ l) w') = Some out"
    show "\<exists>n. poll_rounds n R X p st lst logs w = Some out"
    proof (cases "fst (poll_turn R X p st lst w)")
      case (Inl r)
      with turn have "poll_rounds (Suc 0) R X p st lst logs w = Some out"
        by (simp add: case_prod_beta)
      then show ?thesis ..
    next
      case (Inr lastLog)
      with turn have "loop R X p st lastLog (logs @ fst (snd (poll_turn R X p st lst w)))
          (snd (snd (poll_turn R X p st lst w))) = Some out"
        by (simp add: case_prod_beta)
      from IH [OF this] obtain n where "poll_rounds n R X p st lastLog
          (logs @ fst (snd (poll_turn R X p st lst w))) (snd (snd (poll_turn R X p st lst w))) = Some out"
        ..
      with Inr have "poll_rounds (Suc n) R X p st lst logs w = Some out"
        by (simp add: case_prod_beta)
      then show ?thesis ..
    qed
  qed
  then show ?thesis using that by blast
qed

lemma poll_loop_iff:
  "poll_loop R X p st lst logs w = Some out \<longleftrightarrow> (\<exists>n. poll_rounds n R X p st lst logs w = Some out)"
  by (blast elim: poll_loop_rounds intro: poll_rounds_loop)

text \<open>An invariant of the turns that a return turns into a fact about the result.\<close>

lemma poll_rounds_invariant:
  assumes out: "poll_rounds n R X p st lst logs w = Some (r, logs', w')"
    and init: "I lst logs w"
    and continue: "\<And>lst logs w lastLog l w1. I lst logs w \<Longrightarrow>
      poll_turn R X p st lst w = (Inr lastLog, l, w1) \<Longrightarrow> I lastLog (logs @ l) w1"
    and finish: "\<And>lst logs w r l w1. I lst logs w \<Longrightarrow>
      poll_turn R X p st lst w = (Inl r, l, w1) \<Longrightarrow> Q r (logs @ l) w1"
  shows "Q r logs' w'"
  using out init
proof (induction n arbitrary: lst logs w)
  case (Suc n)
  then show ?case
    by (auto split: prod.splits sum.splits dest: finish continue)
qed simp

section \<open>What a returned operation means\<close>

definition operation_error :: "go_error \<Rightarrow> 'w go_context \<Rightarrow> ('w, 'r) poller \<Rightarrow> bool" where
  "operation_error e X p \<longleftrightarrow>
     (\<exists>w w'. cx_check X w = (Some e, w') \<or> cx_wait X pollInterval w = (Some e, w')) \<or>
     (\<exists>w w' err. pl_Poll p w = (Inl err, w') \<and> e = wrap_error ''polling failed'' err) \<or>
     (\<exists>w w' err. pl_Done p w \<and> pl_Result p w = (Inl err, w') \<and>
        e = wrap_error ''failed to get operation result'' err)"

definition operation_result :: "'r \<Rightarrow> 'w \<Rightarrow> ('w, 'r) poller \<Rightarrow> bool" where
  "operation_result x w' p \<longleftrightarrow> (\<exists>w. pl_Done p w \<and> pl_Result p w = (Inr x, w'))"

lemma poll_turn_returns:
  assumes "poll_turn R X p st lst w = (Inl r, l, w')"
  shows "case r of Inl e \<Rightarrow> operation_error e X p | Inr x \<Rightarrow> operation_result x w' p"
  using assms unfolding poll_turn_def operation_error_def operation_result_def Let_def
  by (auto split: prod.splits sum.splits option.splits if_splits)

lemma pollWithLogging_returns:
  assumes "pollWithLogging R X p w = Some (r, logs, w')"
  shows "case r of Inl e \<Rightarrow> operation_error e X p | Inr x \<Rightarrow> operation_result x w' p"
proof -
  obtain n where "poll_rounds n R X p (fst (rt_now R w)) (fst (rt_now R w)) [OperationStarted]
      (snd (rt_now R w)) = Some (r, logs, w')"
    using assms by (auto simp: pollWithLogging_def case_prod_beta Let_def elim: poll_loop_rounds)
  then show ?thesis
    by (rule poll_rounds_invariant [where I = "\<lambda>_ _ _. True" and
          Q = "\<lambda>r _ w'. case r of Inl e \<Rightarrow> operation_error e X p | Inr x \<Rightarrow> operation_result x w' p"])
      (auto dest: poll_turn_returns)
qed

lemma polled_returns:
  assumes "polled msg (pollWithLogging R X p w) = Some (r, w')"
  shows "case r of
      Inl e \<Rightarrow> (\<exists>cause. operation_error cause X p \<and> e = wrap_error msg cause)
    | Inr x \<Rightarrow> operation_result x w' p"
proof (cases "pollWithLogging R X p w")
  case None
  then show ?thesis using assms by (simp add: polled_def)
next
  case (Some out)
  obtain r' logs w'' where "out = (r', logs, w'')" by (cases out)
  then show ?thesis
    using assms Some pollWithLogging_returns [of R X p w r' logs w'']
    by (cases r') (auto simp: polled_def)
qed

lemma client_delete:
  assumes "clusterClient_Delete R X S rg name w = Some (e, w')"
  shows "case e of
      None \<Rightarrow> \<exists>p w1. sdk_BeginDelete S rg name w = (Inr p, w1) \<and> operation_result () w' p
    | Some err \<Rightarrow>
        (\<exists>refused. sdk_BeginDelete S rg name w = (Inl refused, w') \<and>
           err = wrap_error ''failed to begin delete managed cluster'' refused) \<or>
        (\<exists>p w1 cause. sdk_BeginDelete S rg name w = (Inr p, w1) \<and> operation_error cause X p \<and>
           err = wrap_error ''failed to delete managed cluster'' cause)"
  using assms
  by (auto simp: clusterClient_Delete_def split: prod.splits sum.splits option.splits dest: polled_returns)

text \<open>C18. Creating, updating and deleting a cluster is reported as successful only when the
  service accepted the request and its poller was done with a result; every error that is reported
  wraps the refusal, the end of the context, a failed poll or a failed result, and keeps the API
  reason of its cause.\<close>

theorem cluster_client_confirms:
  "(clusterClient_CreateOrUpdate R X S rg name cluster w = Some (Inr created, w') \<longrightarrow>
      (\<exists>p w1. sdk_BeginCreateOrUpdate S rg name cluster w = (Inr p, w1) \<and>
         operation_result created w' p)) \<and>
   (clusterClient_CreateOrUpdate R X S rg name cluster w = Some (Inl e, w') \<longrightarrow>
      (\<exists>err. sdk_BeginCreateOrUpdate S rg name cluster w = (Inl err, w') \<and>
         e = wrap_error ''failed to begin create/update managed cluster'' err) \<or>
      (\<exists>p w1 cause. sdk_BeginCreateOrUpdate S rg name cluster w = (Inr p, w1) \<and>
         operation_error cause X p \<and>
         e = wrap_error ''failed to create/update managed cluster'' cause)) \<and>
   (clusterClient_Delete R X S rg name w = Some (None, w') \<longrightarrow>
      (\<exists>p w1. sdk_BeginDelete S rg name w = (Inr p, w1) \<and> operation_result () w' p)) \<and>
   (clusterClient_Delete R X S rg name w = Some (Some e, w') \<longrightarrow>
      (\<exists>err. sdk_BeginDelete S rg name w = (Inl err, w') \<and>
         e = wrap_error ''failed to begin delete managed cluster'' err) \<or>
      (\<exists>p w1 cause. sdk_BeginDelete S rg name w = (Inr p, w1) \<and> operation_error cause X p \<and>
         e = wrap_error ''failed to delete managed cluster'' cause))"
proof (intro conjI impI)
  assume "clusterClient_CreateOrUpdate R X S rg name cluster w = Some (Inr created, w')"
  then show "\<exists>p w1. sdk_BeginCreateOrUpdate S rg name cluster w = (Inr p, w1) \<and>
         operation_result created w' p"
    by (auto simp: clusterClient_CreateOrUpdate_def split: prod.splits sum.splits
        dest: polled_returns)
next
  assume "clusterClient_CreateOrUpdate R X S rg name cluster w = Some (Inl e, w')"
  then show "(\<exists>err. sdk_BeginCreateOrUpdate S rg name cluster w = (Inl err, w') \<and>
         e = wrap_error ''failed to begin create/update managed cluster'' err) \<or>
      (\<exists>p w1 cause. sdk_BeginCreateOrUpdate S rg name cluster w = (Inr p, w1) \<and>
         operation_error cause X p \<and>
         e = wrap_error ''failed to create/update managed cluster'' cause)"
    by (auto simp: clusterClient_CreateOrUpdate_def split: prod.splits sum.splits
        dest: polled_returns)
qed (use client_delete [of R X S rg name w] in \<open>fastforce+\<close>)

section \<open>Polling ends with the context\<close>

text \<open>
  The documented behaviour of the clock and of a context with deadline \<open>D\<close>: readings do not
  go backwards, a wait that ends by its timer lasted at least that long, and the context is done
  from its deadline on.
\<close>

definition reads_clock :: "('w \<Rightarrow> time) \<Rightarrow> 'w runtime \<Rightarrow> 'w go_context \<Rightarrow> ('w, 'r) poller \<Rightarrow> bool" where
  "reads_clock clock R X p \<longleftrightarrow>
     (\<forall>w. clock w \<le> fst (rt_now R w) \<and> fst (rt_now R w) \<le> clock (snd (rt_now R w))) \<and>
     (\<forall>w. clock w \<le> clock (snd (cx_check X w))) \<and>
     (\<forall>w d. clock w \<le> clock (snd (cx_wait X d w))) \<and>
     (\<forall>w d. fst (cx_wait X d w) = None \<longrightarrow> clock w + d \<le> clock (snd (cx_wait X d w))) \<and>
     (\<forall>w. clock w \<le> clock (snd (pl_Poll p w))) \<and>
     (\<forall>w. clock w \<le> clock (snd (pl_Result p w)))"

definition has_deadline :: "('w \<Rightarrow> time) \<Rightarrow> 'w go_context \<Rightarrow> time \<Rightarrow> bool" where
  "has_deadline clock X D \<longleftrightarrow> (\<forall>w. D \<le> clock w \<longrightarrow> fst (cx_check X w) \<noteq> None)"

lemma reads_clockD:
  assumes "reads_clock clock R X p"
  shows "rt_now R w = (t, w') \<Longrightarrow> clock w \<le> t \<and> t \<le> clock w'"
    and "cx_check X w = (c, w') \<Longrightarrow> clock w \<le> clock w'"
    and "cx_wait X d w = (c, w') \<Longrightarrow> clock w \<le> clock w'"
    and "cx_wait X d w = (None, w') \<Longrightarrow> clock w + d \<le> clock w'"
    and "pl_Poll p w = (q, w') \<Longrightarrow> clock w \<le> clock w'"
    and "pl_Result p w = (res, w') \<Longrightarrow> clock w \<le> clock w'"
  using assms unfolding reads_clock_def by (metis fst_conv snd_conv)+

lemma poll_turn_continues:
  assumes clk: "reads_clock clock R X p" and turn: "poll_turn R X p st lst w = (Inr lst', l, w')"
  shows "clock w + pollInterval \<le> clock w'" and "fst (cx_check X w) = None"
    and "lst \<le> clock w \<Longrightarrow> lst' \<le> clock w'"
    and "lst + logInterval * int (length (filter is_progress l)) \<le> lst'"
  using turn unfolding poll_turn_def Let_def
  by (auto split: prod.splits sum.splits option.splits if_splits dest!: reads_clockD [OF clk])
    (use interval_simps(1) in linarith)+


lemma poll_rounds_deadline:
  assumes clk: "reads_clock clock R X p" and D: "has_deadline clock X D"
  shows "D \<le> clock w + int n * pollInterval \<Longrightarrow> \<exists>out. poll_rounds (Suc n) R X p st lst logs w = Some out"
proof (induction n arbitrary: lst logs w)
  case 0
  then have "fst (cx_check X w) \<noteq> None" using D by (simp add: has_deadline_def)
  then show ?case
    by (auto simp: poll_turn_def split: prod.splits option.splits)
next
  case (Suc n)
  show ?case
  proof (cases "poll_turn R X p st lst w")
    case (fields turn l w')
    show ?thesis
    proof (cases turn)
      case (Inl r)
      then show ?thesis using fields by simp
    next
      case (Inr lst')
      have "clock w + pollInterval \<le> clock w'"
        using poll_turn_continues(1) [OF clk] fields Inr by blast
      then have "D \<le> clock w' + int n * pollInterval"
        using Suc.prems by (simp add: algebra_simps)
      from Suc.IH [OF this] show ?thesis using fields Inr by simp
    qed
  qed
qed

lemma polling_bounded:
  assumes "reads_clock clock R X p" and "has_deadline clock X D"
  shows "\<exists>out. pollWithLogging R X p w = Some out \<and>
    poll_rounds (Suc (nat ((D - clock w + pollInterval - 1) div pollInterval))) R X p
      (fst (rt_now R w)) (fst (rt_now R w)) [OperationStarted] (snd (rt_now R w)) = Some out"
proof -
  let ?n = "nat ((D - clock w + pollInterval - 1) div pollInterval)"
  have "D - clock w \<le> ((D - clock w + pollInterval - 1) div pollInterval) * pollInterval"
    using pos_mod_bound [OF interval_simps(1), of "D - clock w + pollInterval - 1"]
      minus_mod_eq_div_mult [of "D - clock w + pollInterval - 1" pollInterval] by linarith
  also have "\<dots> \<le> int ?n * pollInterval"
    by (intro mult_right_mono) (auto simp: less_imp_le)
  finally have "D - clock w \<le> int ?n * pollInterval" .
  moreover have "clock w \<le> clock (snd (rt_now R w))"
    using reads_clockD(1) [OF assms(1), of w] by (metis order_trans prod.collapse)
  ultimately have "D \<le> clock (snd (rt_now R w)) + int ?n * pollInterval" by simp
  from poll_rounds_deadline [OF assms this] show ?thesis
    by (metis (mono_tags, lifting) case_prod_beta pollWithLogging_def poll_rounds_loop)
qed

text \<open>C19. Waiting for a long-running operation ends with the context: under a context with
  deadline \<open>D\<close> the polling loop returns, after at most one turn for every 30 seconds left and
  one more.\<close>

theorem polling_ends_with_context:
  assumes "reads_clock clock R X p" and "has_deadline clock X D"
  shows "\<exists>out. pollWithLogging R X p w = Some out \<and>
    poll_rounds (Suc (nat ((D - clock w + pollInterval - 1) div pollInterval))) R X p
      (fst (rt_now R w)) (fst (rt_now R w)) [OperationStarted] (snd (rt_now R w)) = Some out"
  by (rule polling_bounded [OF assms])

text \<open>Without an end of the context, of the operation or of the polling the loop never returns.\<close>

lemma polling_without_end:
  assumes "\<And>w. fst (cx_check X w) = None" and "\<And>d w. fst (cx_wait X d w) = None"
    and "\<And>w. fst (pl_Poll p w) = Inr (status w)" and "\<And>w. \<not> pl_Done p w"
  shows "pollWithLogging R X p w = None"
proof -
  have turn: "\<exists>lst' l w'. poll_turn R X p st lst w = (Inr lst', l, w')" for st lst w
    using assms
    by (auto simp: poll_turn_def Let_def split: prod.splits sum.splits option.splits)
      (metis fst_conv option.distinct(1) sum.distinct(1))+
  have rounds: "poll_rounds n R X p st lst logs w = None" for n st lst logs w
  proof (induction n arbitrary: lst logs w)
    case (Suc n)
    obtain lst' l w' where "poll_turn R X p st lst w = (Inr lst', l, w')" using turn by blast
    then show ?case using Suc by simp
  qed simp
  show ?thesis
  proof (rule ccontr)
    assume "pollWithLogging R X p w \<noteq> None"
    then show False
      by (auto simp: pollWithLogging_def Let_def case_prod_beta rounds elim: poll_loop_rounds)
  qed
qed


section \<open>Pages\<close>

text \<open>
  \<open>served G p w pages p' w'\<close>: from the pager \<open>p\<close> and the world \<open>w\<close> the service
  serves \<open>pages\<close>, one after the other, and leaves the pager \<open>p'\<close> and the world \<open>w'\<close>.
\<close>

inductive served ::
  "('w, 'p, 'x) pager \<Rightarrow> 'p \<Rightarrow> 'w \<Rightarrow> 'x list list \<Rightarrow> 'p \<Rightarrow> 'w \<Rightarrow> bool" for G where
  served_Nil: "served G p w [] p w"
| served_Cons: "pg_More G p \<Longrightarrow> pg_NextPage G p w = (Inr page, p1, w1) \<Longrightarrow>
    served G p1 w1 pages p' w' \<Longrightarrow> served G p w (page # pages) p' w'"

inductive_cases served_NilE: "served G p w [] p' w'"
inductive_cases served_ConsE: "served G p w (page # pages) p' w'"

lemma list_pages_served:
  "served G p w pages p' w' \<Longrightarrow> list_pages msg G p xs w = list_pages msg G p' (xs @ concat pages) w'"
proof (induction arbitrary: xs rule: served.induct)
  case (served_Cons p w page p1 w1 pages p' w')
  from served_Cons.hyps(1,2) have "list_pages msg G p xs w = list_pages msg G p1 (xs @ page) w1"
    by (subst list_pages.simps) simp
  then show ?case using served_Cons.IH by simp
qed simp

definition pages_end ::
  "string \<Rightarrow> ('w, 'p, 'x) pager \<Rightarrow> 'p \<Rightarrow> 'w \<Rightarrow> 'x list \<Rightarrow> (go_error + 'x list) \<times> 'w \<Rightarrow> bool" where
  "pages_end msg G p w xs out \<longleftrightarrow>
     (\<exists>pages p' w'. served G p w pages p' w' \<and>
        (if pg_More G p'
         then \<exists>err p2 w2. pg_NextPage G p' w' = (Inl err, p2, w2) \<and> out = (Inl (wrap_error msg err), w2)
         else out = (Inr (xs @ concat pages), w')))"

lemma list_pages_ends:
  fixes G :: "('w, 'p, 'x) pager"
  assumes "list_pages msg G p xs w = Some out"
  shows "pages_end msg G p w xs out"
proof (rule list_pages.raw_induct
    [where P = "\<lambda>msg G p xs w out. pages_end msg G p w xs out", OF _ assms])
  fix loop :: "string \<Rightarrow> ('w, 'p, 'x) pager \<Rightarrow> 'p \<Rightarrow> 'x list \<Rightarrow> 'w \<Rightarrow> ((go_error + 'x list) \<times> 'w) option"
    and msg and G :: "('w, 'p, 'x) pager" and p xs w out
  assume IH: "\<And>msg G p xs w out. loop msg G p xs w = Some out \<Longrightarrow> pages_end msg G p w xs out"
    and step: "(if pg_More G p
      then (case pg_NextPage G p w of
              (Inl err, p', w') \<Rightarrow> Some (Inl (wrap_error msg err), w')
            | (Inr page, p', w') \<Rightarrow> loop msg G p' (xs @ page) w')
      else Some (Inr xs, w)) = Some out"
  show "pages_end msg G p w xs out"
  proof (cases "pg_More G p")
    case False
    with step show ?thesis
      by (auto simp: pages_end_def intro!: exI [of _ "[]"] exI [of _ p] exI [of _ w] served_Nil)
  next
    case More: True
    obtain r p1 w1 where nxt: "pg_NextPage G p w = (r, p1, w1)" by (cases "pg_NextPage G p w")
    show ?thesis
    proof (cases r)
      case (Inl err)
      with step More nxt show ?thesis
        by (auto simp: pages_end_def intro!: exI [of _ "[]"] exI [of _ p] exI [of _ w] served_Nil)
    next
      case (Inr page)
      with step More nxt have "pages_end msg G p1 w1 (xs @ page) out" by (auto intro: IH)
      then obtain pages p' w' where srv: "served G p1 w1 pages p' w'"
        and out: "if pg_More G p'
          then \<exists>err p2 w2. pg_NextPage G p' w' = (Inl err, p2, w2) \<and> out = (Inl (wrap_error msg err), w2)
          else out = (Inr ((xs @ page) @ concat pages), w')"
        unfolding pages_end_def by blast
      from More nxt Inr srv have "served G p w (page # pages) p' w'"
        by (auto intro: served_Cons)
      with out show ?thesis
        unfolding pages_end_def by (intro exI [of _ "page # pages"] exI [of _ p'] exI [of _ w']) simp
    qed
  qed
qed

lemma list_pages_iff: "list_pages msg G p xs w = Some out \<longleftrightarrow> pages_end msg G p w xs out"
proof
  assume "pages_end msg G p w xs out"
  then obtain pages p' w' where srv: "served G p w pages p' w'"
    and "if pg_More G p'
      then \<exists>err p2 w2. pg_NextPage G p' w' = (Inl err, p2, w2) \<and> out = (Inl (wrap_error msg err), w2)
      else out = (Inr (xs @ concat pages), w')"
    unfolding pages_end_def by blast
  then show "list_pages msg G p xs w = Some out"
    unfolding list_pages_served [OF srv] by (subst list_pages.simps) (auto split: if_splits)
qed (rule list_pages_ends)

lemma list_pages_ok:
  "list_pages msg G p [] w = Some (Inr xs, w') \<longleftrightarrow>
     (\<exists>pages p'. served G p w pages p' w' \<and> \<not> pg_More G p' \<and> xs = concat pages)"
  by (auto simp: list_pages_iff pages_end_def split: if_splits)

lemma list_pages_err:
  "list_pages msg G p [] w = Some (Inl e, w') \<longleftrightarrow>
     (\<exists>pages p1 w1 err p2. served G p w pages p1 w1 \<and> pg_More G p1 \<and>
        pg_NextPage G p1 w1 = (Inl err, p2, w') \<and> e = wrap_error msg err)"
  unfolding list_pages_iff pages_end_def by (fastforce split: if_splits)

text \<open>C33. Listing agent pools or VM sizes returns exactly when the service's pages end: the list
  is all pages in order when the last one was served, and an error, without the pages before it,
  when a page could not be fetched.\<close>

theorem lists_all_pages:
  "(poolClient_List S rg cl w = Some (Inr pools, w') \<longleftrightarrow>
      (\<exists>pages p'. served (sdkp_pager S) (sdkp_NewListPager S rg cl) w pages p' w' \<and>
         \<not> pg_More (sdkp_pager S) p' \<and> pools = concat pages)) \<and>
   (vmSizeClient_List V location v = Some (Inr sizes, v') \<longleftrightarrow>
      (\<exists>pages p'. served (sdkv_pager V) (sdkv_NewListPager V location) v pages p' v' \<and>
         \<not> pg_More (sdkv_pager V) p' \<and> sizes = concat pages)) \<and>
   (poolClient_List S rg cl w = Some (Inl e, w') \<longleftrightarrow>
      (\<exists>pages p1 w1 err p2. served (sdkp_pager S) (sdkp_NewListPager S rg cl) w pages p1 w1 \<and>
         pg_More (sdkp_pager S) p1 \<and> pg_NextPage (sdkp_pager S) p1 w1 = (Inl err, p2, w') \<and>
         e = wrap_error ''failed to list agent pools'' err)) \<and>
   (vmSizeClient_List V location v = Some (Inl e, v') \<longleftrightarrow>
      (\<exists>pages p1 v1 err p2. served (sdkv_pager V) (sdkv_NewListPager V location) v pages p1 v1 \<and>
         pg_More (sdkv_pager V) p1 \<and> pg_NextPage (sdkv_pager V) p1 v1 = (Inl err, p2, v') \<and>
         e = wrap_error ''failed to list VM sizes'' err))"
  unfolding poolClient_List_def vmSizeClient_List_def
  by (intro conjI list_pages_ok list_pages_err)

section \<open>Concrete executions\<close>

text \<open>
  A world that is a clock in nanoseconds, a context that ends after 200 seconds, and an operation
  that is done after 70.
\<close>

definition fx_clock :: "time runtime" where
  "fx_clock = \<lparr>rt_now = (\<lambda>w. (w, w)), rt_sleep = (\<lambda>d w. w + d), rt_getenv = (\<lambda>n. []),
     rt_range = (\<lambda>ks w. (ks, w)), rt_rfc3339 = (\<lambda>t. []), rt_rfc3339_utc = (\<lambda>t. []),
     rt_sort_conditions = (\<lambda>cs. cs)\<rparr>"

definition fx_context :: "time go_context" where
  "fx_context = \<lparr>cx_check = (\<lambda>w. (if seconds 200 \<le> w
       then Some (new_error ''context deadline exceeded'') else None, w)),
     cx_wait = (\<lambda>d w. (None, max w (w + d)))\<rparr>"

definition fx_poller :: "(time, unit) poller" where
  "fx_poller = \<lparr>pl_Poll = (\<lambda>w. (Inr ''202 Accepted'', w)), pl_Done = (\<lambda>w. seconds 70 \<le> w),
     pl_Result = (\<lambda>w. (Inr (), w)), pl_PollUntilDone = (\<lambda>w. (Inr (), max w (seconds 70)))\<rparr>"

definition fx_clusters_sdk :: "time managed_clusters_sdk" where
  "fx_clusters_sdk = \<lparr>sdk_BeginCreateOrUpdate = (\<lambda>rg n c w. (Inl (new_error ''409 Conflict''), w)),
     sdk_Get = (\<lambda>rg n w. (Inl (new_error ''404''), w)),
     sdk_BeginDelete = (\<lambda>rg n w. (Inr fx_poller, w)),
     sdk_GetAccessProfile = (\<lambda>rg n r w. (Inl (new_error ''404''), w)),
     sdk_ListClusterAdminCredentials = (\<lambda>rg n w. (Inl (new_error ''404''), w)),
     sdk_ListClusterUserCredentials = (\<lambda>rg n w. (Inl (new_error ''404''), w))\<rparr>"

lemmas fx_polling = fx_clock_def fx_context_def fx_poller_def fx_clusters_sdk_def seconds_def

lemma fx_reads_clock: "reads_clock (\<lambda>w. w) fx_clock fx_context fx_poller"
  by (simp add: reads_clock_def fx_polling)

lemma fx_polls:
  "pollWithLogging fx_clock fx_context fx_poller 0 =
     Some (Inr (), [OperationStarted, OperationProgress (seconds 60) ''202 Accepted'',
                    OperationCompleted (seconds 90)], seconds 90)"
proof -
  have "poll_rounds 4 fx_clock fx_context fx_poller 0 0 [OperationStarted] 0 =
     Some (Inr (), [OperationStarted, OperationProgress (seconds 60) ''202 Accepted'',
                    OperationCompleted (seconds 90)], seconds 90)"
    by code_simp
  then show ?thesis
    by (simp add: pollWithLogging_def poll_rounds_loop fx_clock_def)
qed

lemma fx_deletes:
  "clusterClient_Delete fx_clock fx_context fx_clusters_sdk rg name 0 = Some (None, seconds 90)"
  by (simp add: clusterClient_Delete_def fx_clusters_sdk_def fx_polls polled_def)

theorem polling_ends_with_context_witness:
  "\<exists>out. pollWithLogging fx_clock fx_context fx_poller 0 = Some out \<and>
     poll_rounds 8 fx_clock fx_context fx_poller 0 0 [OperationStarted] 0 = Some out"
  using polling_ends_with_context [OF fx_reads_clock, of "seconds 200" 0]
  by (simp add: has_deadline_def fx_polling pollInterval_def)


theorem cluster_client_confirms_witness:
  "\<exists>p w1. sdk_BeginDelete fx_clusters_sdk ''rg'' ''aks'' 0 = (Inr p, w1) \<and>
     operation_result () (seconds 90) p"
  using cluster_client_confirms [of fx_clock fx_context fx_clusters_sdk "''rg''" "''aks''" "fx_managed None" 0
      "fx_managed None" "seconds 90" "new_error []"]
    fx_deletes [of "''rg''" "''aks''"] by blast

end
