(* ===== verification/Settings.thy ===== *)
theory Settings
  imports Prelude
begin

text \<open>
  The configuration of the process: \<open>internal/settings/settings.go\<close>, which registers the
  defaults, and the part of \<open>main\<close> (\<open>cmd/main.go\<close>) that turns the command line and the
  settings into the options of the logger, the two servers and the controller-runtime manager. Parsing
  the command line and looking a setting up (viper, with the environment and the dotenv file) are
  parameters.
\<close>

section \<open>Settings\<close>

definition DEVELOPMENT :: string where "DEVELOPMENT = ''DEVELOPMENT''"
definition LOG_LEVEL :: string where "LOG_LEVEL = ''LOG_LEVEL''"
definition LOG_JSON :: string where "LOG_JSON = ''LOG_JSON''"
definition LOG_ADD_CALLER :: string where "LOG_ADD_CALLER = ''LOG_ADD_CALLER''"
definition LOG_DISABLE_STACKTRACE :: string where "LOG_DISABLE_STACKTRACE = ''LOG_DISABLE_STACKTRACE''"
definition LOG_UNESCAPED_MULTILINE :: string where "LOG_UNESCAPED_MULTILINE = ''LOG_UNESCAPED_MULTILINE''"
definition LOG_COLORIZE_LINE :: string where "LOG_COLORIZE_LINE = ''LOG_COLORIZE_LINE''"
definition AZURE_VALIDATE_CONNECTIVITY :: string where
  "AZURE_VALIDATE_CONNECTIVITY = ''AZURE_VALIDATE_CONNECTIVITY''"
definition VITISTACK_NAME :: string where "VITISTACK_NAME = ''VITISTACK_NAME''"
definition NAME_KUBERNETES_PROVIDER :: string where "NAME_KUBERNETES_PROVIDER = ''NAME_KUBERNETES_PROVIDER''"
definition TENANT_CONFIGMAP_NAME :: string where "TENANT_CONFIGMAP_NAME = ''TENANT_CONFIGMAP_NAME''"
definition TENANT_CONFIGMAP_NAMESPACE :: string where
  "TENANT_CONFIGMAP_NAMESPACE = ''TENANT_CONFIGMAP_NAMESPACE''"
definition TENANT_CONFIGMAP_DATA_KEY :: string where "TENANT_CONFIGMAP_DATA_KEY = ''TENANT_CONFIGMAP_DATA_KEY''"
definition DEFAULT_KUBERNETES_VERSION :: string where
  "DEFAULT_KUBERNETES_VERSION = ''DEFAULT_KUBERNETES_VERSION''"

lemmas setting_names = DEVELOPMENT_def LOG_LEVEL_def LOG_JSON_def LOG_ADD_CALLER_def
  LOG_DISABLE_STACKTRACE_def LOG_UNESCAPED_MULTILINE_def LOG_COLORIZE_LINE_def
  AZURE_VALIDATE_CONNECTIVITY_def VITISTACK_NAME_def NAME_KUBERNETES_PROVIDER_def
  TENANT_CONFIGMAP_NAME_def TENANT_CONFIGMAP_NAMESPACE_def TENANT_CONFIGMAP_DATA_KEY_def
  DEFAULT_KUBERNETES_VERSION_def

datatype setting = BoolSetting bool | StringSetting string

type_synonym defaults = "string \<rightharpoonup> setting"

definition SetDefault :: "string \<Rightarrow> setting \<Rightarrow> defaults \<Rightarrow> defaults" where
  "SetDefault key v d = d(key \<mapsto> v)"

definition settings_Init :: "defaults \<Rightarrow> defaults" where
  "settings_Init =
     SetDefault AZURE_VALIDATE_CONNECTIVITY (BoolSetting True) \<circ>
     SetDefault DEFAULT_KUBERNETES_VERSION (StringSetting ''1.34.1'') \<circ>
     SetDefault TENANT_CONFIGMAP_DATA_KEY (StringSetting ''config.yaml'') \<circ>
     SetDefault TENANT_CONFIGMAP_NAMESPACE (StringSetting ''default'') \<circ>
     SetDefault TENANT_CONFIGMAP_NAME (StringSetting ''aks-tenant-config'') \<circ>
     SetDefault NAME_KUBERNETES_PROVIDER (StringSetting ''aks-provider'') \<circ>
     SetDefault VITISTACK_NAME (StringSetting ''vitistack'') \<circ>
     SetDefault LOG_LEVEL (StringSetting ''info'') \<circ>
     SetDefault LOG_JSON (BoolSetting True) \<circ>
     SetDefault DEVELOPMENT (BoolSetting False)"

text \<open>Looking a setting up, over the registered defaults.\<close>

record viper =
  viper_GetBool :: "defaults \<Rightarrow> string \<Rightarrow> bool"
  viper_GetString :: "defaults \<Rightarrow> string \<Rightarrow> string"

section \<open>The command line\<close>

record command_line =
  fl_metricsAddr :: string
  fl_probeAddr :: string
  fl_enableLeaderElection :: bool
  fl_secureMetrics :: bool
  fl_webhookCertPath :: string
  fl_webhookCertName :: string
  fl_webhookCertKey :: string
  fl_metricsCertPath :: string
  fl_metricsCertName :: string
  fl_metricsCertKey :: string
  fl_enableHTTP2 :: bool

definition flag_defaults :: command_line where
  "flag_defaults =
     \<lparr>fl_metricsAddr = ''0'', fl_probeAddr = '':9995'', fl_enableLeaderElection = False,
      fl_secureMetrics = True, fl_webhookCertPath = [], fl_webhookCertName = ''tls.crt'',
      fl_webhookCertKey = ''tls.key'', fl_metricsCertPath = [], fl_metricsCertName = ''tls.crt'',
      fl_metricsCertKey = ''tls.key'', fl_enableHTTP2 = False\<rparr>"

section \<open>The logger\<close>

record vlog_options =
  vl_Level :: string
  vl_ColorizeLine :: bool
  vl_AddCaller :: bool
  vl_DisableStacktrace :: bool
  vl_UnescapeMultiline :: bool
  vl_JSON :: bool

definition vlogSetup :: "viper \<Rightarrow> defaults \<Rightarrow> vlog_options" where
  "vlogSetup V d =
     \<lparr>vl_Level = viper_GetString V d LOG_LEVEL,
      vl_ColorizeLine = viper_GetBool V d LOG_COLORIZE_LINE,
      vl_AddCaller = viper_GetBool V d LOG_ADD_CALLER,
      vl_DisableStacktrace = viper_GetBool V d LOG_DISABLE_STACKTRACE,
      vl_UnescapeMultiline = viper_GetBool V d LOG_UNESCAPED_MULTILINE,
      vl_JSON = viper_GetBool V d LOG_JSON\<rparr>"

section \<open>The servers\<close>

text \<open>A TLS configuration, as far as it is touched: the protocols offered, none for the default.\<close>

record tls_config =
  NextProtos :: "string list option"

definition disableHTTP2 :: "tls_config \<Rightarrow> tls_config" where
  "disableHTTP2 c = c\<lparr>NextProtos := Some [''http/1.1'']\<rparr>"

definition tlsOpts :: "command_line \<Rightarrow> (tls_config \<Rightarrow> tls_config) list" where
  "tlsOpts fl = (if \<not> fl_enableHTTP2 fl then [disableHTTP2] else [])"

record webhook_options =
  wh_TLSOpts :: "(tls_config \<Rightarrow> tls_config) list"
  wh_CertDir :: string
  wh_CertName :: string
  wh_KeyName :: string

definition webhookServerOptions :: "command_line \<Rightarrow> webhook_options" where
  "webhookServerOptions fl =
     (let opts = \<lparr>wh_TLSOpts = tlsOpts fl, wh_CertDir = [], wh_CertName = [], wh_KeyName = []\<rparr> in
      if length (fl_webhookCertPath fl) > 0
      then opts\<lparr>wh_CertDir := fl_webhookCertPath fl, wh_CertName := fl_webhookCertName fl,
                wh_KeyName := fl_webhookCertKey fl\<rparr>
      else opts)"

datatype filter_provider = WithAuthenticationAndAuthorization

record metrics_options =
  me_BindAddress :: string
  me_SecureServing :: bool
  me_TLSOpts :: "(tls_config \<Rightarrow> tls_config) list"
  me_FilterProvider :: "filter_provider option"
  me_CertDir :: string
  me_CertName :: string
  me_KeyName :: string

definition metricsServerOptions :: "command_line \<Rightarrow> metrics_options" where
  "metricsServerOptions fl =
     (let opts0 = \<lparr>me_BindAddress = fl_metricsAddr fl, me_SecureServing = fl_secureMetrics fl,
            me_TLSOpts = tlsOpts fl, me_FilterProvider = None, me_CertDir = [], me_CertName = [],
            me_KeyName = []\<rparr>;
          opts1 = (if fl_secureMetrics fl
                   then opts0\<lparr>me_FilterProvider := Some WithAuthenticationAndAuthorization\<rparr> else opts0)
      in if length (fl_metricsCertPath fl) > 0
         then opts1\<lparr>me_CertDir := fl_metricsCertPath fl, me_CertName := fl_metricsCertName fl,
                    me_KeyName := fl_metricsCertKey fl\<rparr>
         else opts1)"

record manager_options =
  mo_Metrics :: metrics_options
  mo_WebhookServer :: webhook_options
  mo_HealthProbeBindAddress :: string
  mo_LeaderElection :: bool
  mo_LeaderElectionID :: string

definition managerOptions :: "command_line \<Rightarrow> manager_options" where
  "managerOptions fl =
     \<lparr>mo_Metrics = metricsServerOptions fl, mo_WebhookServer = webhookServerOptions fl,
      mo_HealthProbeBindAddress = fl_probeAddr fl, mo_LeaderElection = fl_enableLeaderElection fl,
      mo_LeaderElectionID = ''64ef3f7d.vitistack.io''\<rparr>"

section \<open>What is served\<close>

text \<open>The protocols a server offers: its TLS options applied in order to the configuration it starts with.\<close>

definition offered :: "(tls_config \<Rightarrow> tls_config) list \<Rightarrow> tls_config \<Rightarrow> string list option" where
  "offered opts c = NextProtos (fold (\<lambda>f. f) opts c)"

text \<open>Both servers are kept to HTTP/1.1 unless HTTP/2 is asked for, the metrics endpoint is behind
  authentication exactly when it is served securely, a certificate directory is used only when one is
  given, and without any flag the metrics service is off.\<close>

theorem servers_hardened:
  "offered (wh_TLSOpts (mo_WebhookServer (managerOptions fl))) c =
      (if fl_enableHTTP2 fl then NextProtos c else Some [''http/1.1'']) \<and>
   offered (me_TLSOpts (mo_Metrics (managerOptions fl))) c =
      (if fl_enableHTTP2 fl then NextProtos c else Some [''http/1.1'']) \<and>
   (me_FilterProvider (mo_Metrics (managerOptions fl)) \<noteq> None \<longleftrightarrow> me_SecureServing (mo_Metrics (managerOptions fl))) \<and>
   me_CertDir (mo_Metrics (managerOptions fl)) = fl_metricsCertPath fl \<and>
   wh_CertDir (mo_WebhookServer (managerOptions fl)) = fl_webhookCertPath fl \<and>
   me_BindAddress (mo_Metrics (managerOptions flag_defaults)) = ''0''"
  by (simp add: managerOptions_def webhookServerOptions_def metricsServerOptions_def tlsOpts_def disableHTTP2_def
      offered_def flag_defaults_def Let_def)

lemma setting_defaults:
  "settings_Init d AZURE_VALIDATE_CONNECTIVITY = Some (BoolSetting True)"
  "settings_Init d DEFAULT_KUBERNETES_VERSION = Some (StringSetting ''1.34.1'')"
  "settings_Init d LOG_ADD_CALLER = d LOG_ADD_CALLER"
  by (simp_all add: settings_Init_def SetDefault_def setting_names)

end
