(* ===== verification/Startup.thy ===== *)
theory Startup
  imports Reconciler AzureClient Settings
begin

text \<open>
  The start of the operator: \<open>internal/services/initializationservice\<close>, the client factory of
  \<open>pkg/clients/azure/factory.go\<close>, and \<open>main\<close> (\<open>cmd/main.go\<close>), which registers
  the settings, creates the controller-runtime manager with the options of \<open>Settings\<close>, checks the
  environment, builds the Azure services, optionally lists the VM sizes of one location, registers the
  reconciler and the health checks, and starts the manager.
\<close>

section \<open>Environment variables\<close>

definition AZURE_SUBSCRIPTION_ID :: string where
  "AZURE_SUBSCRIPTION_ID = ''AZURE_SUBSCRIPTION_ID''"
definition AZURE_TENANT_ID :: string where
  "AZURE_TENANT_ID = ''AZURE_TENANT_ID''"
definition AZURE_CLIENT_ID :: string where
  "AZURE_CLIENT_ID = ''AZURE_CLIENT_ID''"
definition AZURE_OBJECT_ID :: string where
  "AZURE_OBJECT_ID = ''AZURE_OBJECT_ID''"
definition AZURE_CLIENT_SECRET :: string where
  "AZURE_CLIENT_SECRET = ''AZURE_CLIENT_SECRET''"

lemmas env_names = AZURE_SUBSCRIPTION_ID_def AZURE_TENANT_ID_def AZURE_CLIENT_ID_def
  AZURE_OBJECT_ID_def AZURE_CLIENT_SECRET_def

text \<open>\<open>%v\<close> of a slice of strings.\<close>

fun join_words :: "string list \<Rightarrow> string" where
  "join_words [] = []"
| "join_words [x] = x"
| "join_words (x # y # ys) = x @ '' '' @ join_words (y # ys)"

definition format_strings :: "string list \<Rightarrow> string" where
  "format_strings xs = ''['' @ join_words xs @ '']''"

definition maskString :: "string \<Rightarrow> string" where
  "maskString s =
     (if length s \<le> 8 then ''****'' else take 4 s @ ''****'' @ drop (length s - 4) s)"

definition missing_variables :: "(string \<Rightarrow> string) \<Rightarrow> string list" where
  "missing_variables getenv = filter (\<lambda>v. getenv v = []) [AZURE_SUBSCRIPTION_ID]"

definition credential_client_id :: "(string \<Rightarrow> string) \<Rightarrow> string" where
  "credential_client_id getenv =
     (if getenv AZURE_CLIENT_ID = [] then getenv AZURE_OBJECT_ID else getenv AZURE_CLIENT_ID)"

definition CheckAzureEnvironment :: "(string \<Rightarrow> string) \<Rightarrow> go_error option" where
  "CheckAzureEnvironment getenv =
     (if missing_variables getenv \<noteq> []
      then Some (new_error (''missing required Azure environment variables: '' @
             format_strings (missing_variables getenv)))
      else
        let clientID = credential_client_id getenv;
            hasClientCredentials = (clientID \<noteq> [] \<and> getenv AZURE_CLIENT_SECRET \<noteq> []);
            hasManagedIdentity =
              (getenv ''AZURE_CLIENT_ID'' \<noteq> [] \<or> getenv ''AZURE_FEDERATED_TOKEN_FILE'' \<noteq> [])
        in if \<not> hasClientCredentials \<and> \<not> hasManagedIdentity then None
           else if hasClientCredentials
           then (if getenv AZURE_TENANT_ID = []
                 then Some (new_error
                   ''AZURE_TENANT_ID is required when using service principal authentication (AZURE_CLIENT_ID + AZURE_CLIENT_SECRET)'')
                 else None)
           else None)"

section \<open>The client factory\<close>

text \<open>
  The SDK's constructors are parameters; \<open>'cred\<close>, \<open>'cs\<close> and \<open>'cp\<close> are the opaque
  credential, container-service factory and compute factory. The last three give the client objects
  that wrap the SDK clients of a factory.
\<close>

record ('w, 'cred, 'cs, 'cp) azure_sdk =
  az_NewDefaultAzureCredential :: "go_error + 'cred"
  az_NewContainerServiceFactory :: "string \<Rightarrow> 'cred \<Rightarrow> go_error + 'cs"
  az_NewComputeFactory :: "string \<Rightarrow> 'cred \<Rightarrow> go_error + 'cp"
  az_ManagedClusters :: "'cs \<Rightarrow> 'w managed_cluster_client"
  az_AgentPools :: "'cs \<Rightarrow> 'w agent_pool_client"
  az_VirtualMachineSizes :: "'cp \<Rightarrow> 'w vm_size_client"

record ('cred, 'cs, 'cp) client_factory =
  cf_subscriptionID :: string
  cf_credential :: 'cred
  cf_containerServiceFactory :: 'cs
  cf_computeFactory :: 'cp

definition NewClientFactory ::
  "(string \<Rightarrow> string) \<Rightarrow> ('w, 'cred, 'cs, 'cp) azure_sdk \<Rightarrow> go_error + ('cred, 'cs, 'cp) client_factory"
where
  "NewClientFactory getenv S =
     (let subscriptionID = getenv AZURE_SUBSCRIPTION_ID in
      if subscriptionID = []
      then Inl (new_error (''environment variable '' @ AZURE_SUBSCRIPTION_ID @ '' is not set''))
      else (case az_NewDefaultAzureCredential S of
          Inl err \<Rightarrow> Inl (wrap_error ''failed to create Azure credential'' err)
        | Inr cred \<Rightarrow>
            (case az_NewContainerServiceFactory S subscriptionID cred of
               Inl err \<Rightarrow> Inl (wrap_error ''failed to create container service client factory'' err)
             | Inr containerService \<Rightarrow>
                 (case az_NewComputeFactory S subscriptionID cred of
                    Inl err \<Rightarrow> Inl (wrap_error ''failed to create compute client factory'' err)
                  | Inr compute \<Rightarrow>
                      Inr \<lparr>cf_subscriptionID = subscriptionID, cf_credential = cred,
                           cf_containerServiceFactory = containerService,
                           cf_computeFactory = compute\<rparr>))))"

definition NewManagedClusterClient ::
  "('w, 'cred, 'cs, 'cp) azure_sdk \<Rightarrow> ('cred, 'cs, 'cp) client_factory \<Rightarrow>
     go_error + 'w managed_cluster_client" where
  "NewManagedClusterClient S f = Inr (az_ManagedClusters S (cf_containerServiceFactory f))"

definition NewAgentPoolClient ::
  "('w, 'cred, 'cs, 'cp) azure_sdk \<Rightarrow> ('cred, 'cs, 'cp) client_factory \<Rightarrow>
     go_error + 'w agent_pool_client" where
  "NewAgentPoolClient S f = Inr (az_AgentPools S (cf_containerServiceFactory f))"

definition NewVMSizeClient ::
  "('w, 'cred, 'cs, 'cp) azure_sdk \<Rightarrow> ('cred, 'cs, 'cp) client_factory \<Rightarrow>
     go_error + 'w vm_size_client" where
  "NewVMSizeClient S f = Inr (az_VirtualMachineSizes S (cf_computeFactory f))"

definition GetSubscriptionID :: "('cred, 'cs, 'cp) client_factory \<Rightarrow> string" where
  "GetSubscriptionID f = cf_subscriptionID f"

text \<open>The interface \<open>AzureClientFactory\<close>, which the factory implements.\<close>

record 'w azure_client_factory =
  acf_NewManagedClusterClient :: "go_error + 'w managed_cluster_client"
  acf_NewAgentPoolClient :: "go_error + 'w agent_pool_client"
  acf_NewVMSizeClient :: "go_error + 'w vm_size_client"

definition azure_client_factory_of ::
  "('w, 'cred, 'cs, 'cp) azure_sdk \<Rightarrow> ('cred, 'cs, 'cp) client_factory \<Rightarrow> 'w azure_client_factory" where
  "azure_client_factory_of S f =
     \<lparr>acf_NewManagedClusterClient = NewManagedClusterClient S f, acf_NewAgentPoolClient = NewAgentPoolClient S f,
      acf_NewVMSizeClient = NewVMSizeClient S f\<rparr>"

section \<open>The services\<close>

record 'w azure_services =
  svc_ClientFactory :: "'w azure_client_factory"
  svc_VMSizeManager :: "'w vm_size_manager"
  svc_AgentPoolManager :: "'w agent_pool_manager"
  svc_AKSClusterManager :: "'w aks_cluster_manager"
  svc_MachineClassMapper :: "'w machine_class_mapper"

definition InitializeAzureServices ::
  "'w runtime \<Rightarrow> ('w, 'cred, 'cs, 'cp) azure_sdk \<Rightarrow> (scored_vm list \<Rightarrow> scored_vm list) \<Rightarrow>
     'w kube_client \<Rightarrow> go_error + 'w azure_services" where
  "InitializeAzureServices R S srt k8sClient =
     (case NewClientFactory (rt_getenv R) S of
        Inl err \<Rightarrow> Inl (wrap_error ''failed to create Azure client factory'' err)
      | Inr factory \<Rightarrow>
          (case NewVMSizeClient S factory of
             Inl err \<Rightarrow> Inl (wrap_error ''failed to create VM size client'' err)
           | Inr vmSizeClient \<Rightarrow>
               (let vmSizeManager = NewVMSizeManager R vmSizeClient;
                    machineClassMapper = NewMachineClassMapper R
                      \<lparr>mpr_client = k8sClient, mpr_vmSizeManager = vmSizeManager, mpr_sort = srt\<rparr>
                in (case NewAgentPoolClient S factory of
                      Inl err \<Rightarrow> Inl (wrap_error ''failed to create agent pool client'' err)
                    | Inr agentPoolClient \<Rightarrow>
                        (let agentPoolManager = agent_pool_manager_of R
                               (NewAgentPoolManager agentPoolClient (Some vmSizeManager)
                                  (Some machineClassMapper))
                         in (case NewManagedClusterClient S factory of
                               Inl err \<Rightarrow> Inl (wrap_error ''failed to create managed cluster client'' err)
                             | Inr managedClusterClient \<Rightarrow>
                                 Inr \<lparr>svc_ClientFactory = azure_client_factory_of S factory,
                                   svc_VMSizeManager = vmSizeManager,
                                   svc_AgentPoolManager = agentPoolManager,
                                   svc_AKSClusterManager = aks_cluster_manager_of R
                                     (NewAKSClusterManager managedClusterClient
                                        (Some agentPoolManager) (Some machineClassMapper)),
                                   svc_MachineClassMapper = machineClassMapper\<rparr>))))))"

definition ValidateAzureConnectivity ::
  "'w runtime \<Rightarrow> 'w azure_services \<Rightarrow> ('w, go_error option) go" where
  "ValidateAzureConnectivity R services =
     (let configured = rt_getenv R ''AZURE_DEFAULT_LOCATION'';
          testLocation = (if configured = [] then ''westeurope'' else configured)
      in do {
        r \<leftarrow> vsm_ListVMSizes (svc_VMSizeManager services) testLocation;
        ret (case r of
               Inl err \<Rightarrow> Some (wrap_error ''azure connectivity check failed'' err)
             | Inr sizes \<Rightarrow> None)
      })"

section \<open>Prerequisites\<close>

text \<open>
  \<open>crdcheck.MustEnsureInstalled\<close> is a parameter. Nothing in the program calls
  \<open>CheckPrerequisites\<close>.
\<close>

record crd_ref =
  crd_Group :: string
  crd_Version :: string
  crd_Resource :: string

definition prerequisite_crds :: "crd_ref list" where
  "prerequisite_crds =
     map (\<lambda>resource. \<lparr>crd_Group = ''vitistack.io'', crd_Version = ''v1alpha1'', crd_Resource = resource\<rparr>)
       [''machines'', ''kubernetesclusters'', ''kubernetesproviders'', ''machineproviders'',
        ''networknamespaces'', ''networkconfigurations'', ''vitistacks'', ''machineclasses'']"

definition CheckPrerequisites :: "(crd_ref list \<Rightarrow> 'a) \<Rightarrow> 'a" where
  "CheckPrerequisites mustEnsureInstalled = mustEnsureInstalled prerequisite_crds"

section \<open>The controller\<close>

text \<open>
  The events of a watch, with the object they carry, \<open>None\<close> for one that is no
  \<open>KubernetesCluster\<close>, and the controller that \<open>SetupWithManager\<close> describes to
  controller-runtime.
\<close>

datatype watch_event =
    CreateEvent "kubernetes_cluster option"
  | UpdateEvent "kubernetes_cluster option" "kubernetes_cluster option"  \<comment> \<open>old and new\<close>
  | DeleteEvent "kubernetes_cluster option"
  | GenericEvent "kubernetes_cluster option"

fun provider_filter :: "watch_event \<Rightarrow> bool" where
  "provider_filter (CreateEvent obj) = aksProviderPredicate obj"
| "provider_filter (UpdateEvent old new) = aksProviderPredicate new"
| "provider_filter (DeleteEvent obj) = aksProviderPredicate obj"
| "provider_filter (GenericEvent obj) = aksProviderPredicate obj"

record 'w controller =
  ctl_Name :: string
  ctl_Filter :: "watch_event \<Rightarrow> bool"
  ctl_MaxConcurrentReconciles :: int
  ctl_Reconcile :: "string \<Rightarrow> string \<Rightarrow> ('w, ctrl_result outcome) go"

definition SetupWithManager :: "('w controller \<Rightarrow> go_error option) \<Rightarrow> 'w reconciler \<Rightarrow> 'w controller \<times> go_error option"
where
  "SetupWithManager build r =
     (let c = \<lparr>ctl_Name = ''kubernetescluster'', ctl_Filter = provider_filter,
               ctl_MaxConcurrentReconciles = maxConcurrentReconciles (rec_runtime r), ctl_Reconcile = Reconcile r\<rparr>
      in (c, build c))"

section \<open>main\<close>

text \<open>
  \<open>ctrl.NewManager\<close> and what \<open>main\<close> asks of the manager are parameters;
  \<open>mgr_Start\<close> runs the registered controller until the process is told to stop.
\<close>

record 'w ctrl_manager =
  mgr_New :: "manager_options \<Rightarrow> go_error option"
  mgr_Complete :: "'w controller \<Rightarrow> go_error option"
  mgr_AddHealthzCheck :: "go_error option"
  mgr_AddReadyzCheck :: "go_error option"
  mgr_Start :: "'w controller \<Rightarrow> ('w, go_error option) go"

datatype exit = ExitFailure string | ExitSuccess

definition operator_main ::
  "'w runtime \<Rightarrow> ('w, 'cred, 'cs, 'cp) azure_sdk \<Rightarrow> (scored_vm list \<Rightarrow> scored_vm list) \<Rightarrow> 'w kube_client \<Rightarrow>
     'w guest_api \<Rightarrow> 'w ctrl_manager \<Rightarrow> viper \<Rightarrow> command_line \<Rightarrow> ('w, exit) go" where
  "operator_main R S srt k8sClient guest mgr V flags =
     (let viper_defaults = settings_Init Map.empty in
      case mgr_New mgr (managerOptions flags) of
        Some err \<Rightarrow> ret (ExitFailure ''unable to start manager'')
      | None \<Rightarrow>
     (case CheckAzureEnvironment (rt_getenv R) of
        Some err \<Rightarrow> ret (ExitFailure ''Azure environment check failed'')
      | None \<Rightarrow>
     (case InitializeAzureServices R S srt k8sClient of
        Inl err \<Rightarrow> ret (ExitFailure ''failed to initialize Azure services'')
      | Inr azureServices \<Rightarrow>
          do {
            invalid \<leftarrow> (if viper_GetBool V viper_defaults AZURE_VALIDATE_CONNECTIVITY
                        then ValidateAzureConnectivity R azureServices
                        else ret None);
            (case invalid of
               Some err \<Rightarrow> ret (ExitFailure ''Azure connectivity validation failed'')
             | None \<Rightarrow>
                 (let reconciler =
                    \<lparr>rec_runtime = R, rec_client = k8sClient,
                     rec_AKSClusterManager = Some (svc_AKSClusterManager azureServices),
                     rec_hasStateService = True, rec_guest = guest\<rparr>
                  in (case SetupWithManager (mgr_Complete mgr) reconciler of
                        (_, Some err) \<Rightarrow> ret (ExitFailure ''unable to create controller'')
                      | (controller, None) \<Rightarrow>
                          if mgr_AddHealthzCheck mgr \<noteq> None
                          then ret (ExitFailure ''unable to set up health check'')
                          else if mgr_AddReadyzCheck mgr \<noteq> None
                          then ret (ExitFailure ''unable to set up ready check'')
                          else do {
                            e \<leftarrow> mgr_Start mgr controller;
                            ret (case e of
                                   Some err \<Rightarrow> ExitFailure ''problem running manager''
                                 | None \<Rightarrow> ExitSuccess)
                          })))
          })))"

section \<open>What the start guarantees\<close>

lemma factory_subscription:
  "NewClientFactory getenv S = Inr f \<Longrightarrow> cf_subscriptionID f = getenv AZURE_SUBSCRIPTION_ID"
  by (auto simp: NewClientFactory_def Let_def split: sum.splits if_splits)

lemma init_services:
  assumes "InitializeAzureServices R S srt K = Inr services"
  shows "cluster_manager (svc_AKSClusterManager services)"
    and "\<exists>C. svc_VMSizeManager services = NewVMSizeManager R C"
    and "\<exists>f. svc_ClientFactory services = azure_client_factory_of S f \<and>
      GetSubscriptionID f = rt_getenv R AZURE_SUBSCRIPTION_ID"
proof -
  obtain f where f: "NewClientFactory (rt_getenv R) S = Inr f"
    using assms by (cases "NewClientFactory (rt_getenv R) S") (simp_all add: InitializeAzureServices_def)
  note init = assms [unfolded InitializeAzureServices_def NewVMSizeClient_def
      NewAgentPoolClient_def NewManagedClusterClient_def f Let_def, simplified, symmetric]
  show "cluster_manager (svc_AKSClusterManager services)"
    unfolding init azure_services.simps by (rule operator_manager.cluster_manager_axioms)
  show "\<exists>C. svc_VMSizeManager services = NewVMSizeManager R C"
    unfolding init azure_services.simps by blast
  show "\<exists>f. svc_ClientFactory services = azure_client_factory_of S f \<and>
      GetSubscriptionID f = rt_getenv R AZURE_SUBSCRIPTION_ID"
    unfolding init azure_services.simps GetSubscriptionID_def using factory_subscription [OF f] by blast
qed

lemma validate_connectivity_run:
  assumes "InitializeAzureServices R S srt K = Inr services"
    and "run_state (ValidateAzureConnectivity R services) s = (e, s')"
  obtains es where "trace s' = trace s @ es" and "\<forall>v\<in>set es. is_vm_event v"
proof -
  obtain C where "svc_VMSizeManager services = NewVMSizeManager R C"
    using init_services(2) [OF assms(1)] ..
  then have "emits is_vm_event (ValidateAzureConnectivity R services)"
    unfolding ValidateAzureConnectivity_def Let_def
    by (intro emits_intros) (simp add: vm_size_impl.emits_list)
  from emitsD [OF this assms(2)] that show ?thesis .
qed

text \<open>Masking shows at most eight characters of a secret, and none of a short one.\<close>

lemma maskString_shows:
  "maskString s = ''****'' \<and> length s \<le> 8 \<or>
   (\<exists>a b c. s = a @ b @ c \<and> length a = 4 \<and> length c = 4 \<and> b \<noteq> [] \<and> maskString s = a @ ''****'' @ c)"
proof (cases "length s \<le> 8")
  case False
  let ?n = "length s - 4"
  have "drop ?n s = drop (?n - 4) (drop 4 s)" using False by simp
  then have "s = take 4 s @ take (?n - 4) (drop 4 s) @ drop ?n s"
    by (simp only: append_take_drop_id)
  with False show ?thesis
    by (intro disjI2 exI [of _ "take 4 s"] exI [of _ "take (?n - 4) (drop 4 s)"] exI [of _ "drop ?n s"])
      (auto simp: maskString_def)
qed (simp add: maskString_def)

text \<open>The environment check passes exactly when the subscription is set and no client secret
  comes with a client id (or the deprecated object id) but without a tenant.\<close>

theorem environment_check_decides:
  "CheckAzureEnvironment getenv = None \<longleftrightarrow>
     getenv AZURE_SUBSCRIPTION_ID \<noteq> [] \<and>
     \<not> (\<not> (getenv AZURE_CLIENT_ID = [] \<and> getenv AZURE_OBJECT_ID = []) \<and>
        getenv AZURE_CLIENT_SECRET \<noteq> [] \<and> getenv AZURE_TENANT_ID = [])"
  by (auto simp: CheckAzureEnvironment_def missing_variables_def credential_client_id_def Let_def)

text \<open>The object a watch event is about.\<close>

fun concerns :: "watch_event \<Rightarrow> kubernetes_cluster option" where
  "concerns (UpdateEvent old new) = new"
| "concerns (CreateEvent obj) = obj"
| "concerns (DeleteEvent obj) = obj"
| "concerns (GenericEvent obj) = obj"

lemma provider_filter_iff:
  "provider_filter event \<longleftrightarrow> (\<exists>kc. concerns event = Some kc \<and> EqualFold (cd_Provider (kc_Cluster kc)) ''aks'')"
  by (cases event) (auto simp: aksProviderPredicate_def split: option.splits)

lemma controller_made:
  obtains ctl where "SetupWithManager build r = (ctl, build ctl)" and "ctl_Reconcile ctl = Reconcile r"
    and "1 \<le> ctl_MaxConcurrentReconciles ctl" and "ctl_Filter ctl = provider_filter"
proof -
  let ?c = "fst (SetupWithManager build r)"
  have "SetupWithManager build r = (?c, build ?c)" "ctl_Reconcile ?c = Reconcile r" "ctl_Filter ?c = provider_filter"
    "1 \<le> ctl_MaxConcurrentReconciles ?c"
    using max_concurrent_reconciles_positive [of "rec_runtime r"] by (simp_all add: SetupWithManager_def Let_def)
  with that show ?thesis by blast
qed

lemma validation_calls:
  assumes init: "InitializeAzureServices R S srt K = Inr services"
    and v: "run_state (if validate then ValidateAzureConnectivity R services else ret None) s = (c, s1)"
  obtains es where "trace s1 = trace s @ es" and "\<forall>v\<in>set es. is_vm_event v"
proof (cases validate)
  case True
  with v have "run_state (ValidateAzureConnectivity R services) s = (c, s1)" by simp
  from validate_connectivity_run [OF init this] that show ?thesis .
next
  case False
  with v that [of "[]"] show ?thesis by simp
qed

text \<open>C22. The operator starts reconciling only after the environment check passed, the Azure
  services were built for the configured subscription and, where it is enabled, the VM sizes of the
  test location could be listed; it then runs the reconciler over those services, whose cluster
  manager meets the contract the reconciler relies on, for resources of the provider AKS only and in at
  least one worker. Otherwise it exits with a failure, having called nothing but that listing.\<close>

theorem starts_only_when_checked:
  assumes "run_state (operator_main R S srt K guest mgr V flags) s = (x, s')"
    and validate: "validate = viper_GetBool V (settings_Init Map.empty) AZURE_VALIDATE_CONNECTIVITY"
  shows "(\<exists>message es. x = ExitFailure message \<and> trace s' = trace s @ es \<and> (\<forall>v\<in>set es. is_vm_event v)) \<or>
    (\<exists>services f r ctl s1 es e.
       CheckAzureEnvironment (rt_getenv R) = None \<and>
       InitializeAzureServices R S srt K = Inr services \<and>
       svc_ClientFactory services = azure_client_factory_of S f \<and>
       GetSubscriptionID f = rt_getenv R AZURE_SUBSCRIPTION_ID \<and>
       run_state (if validate then ValidateAzureConnectivity R services else ret None) s = (None, s1) \<and>
       trace s1 = trace s @ es \<and> (\<forall>v\<in>set es. is_vm_event v) \<and>
       rec_AKSClusterManager r = Some (svc_AKSClusterManager services) \<and>
       cluster_manager (svc_AKSClusterManager services) \<and> rec_hasStateService r \<and>
       ctl_Reconcile ctl = Reconcile r \<and> 1 \<le> ctl_MaxConcurrentReconciles ctl \<and>
       (\<forall>event. ctl_Filter ctl event \<longleftrightarrow>
          (\<exists>kc. concerns event = Some kc \<and> EqualFold (cd_Provider (kc_Cluster kc)) ''aks'')) \<and>
       run_state (mgr_Start mgr ctl) s1 = (e, s') \<and> (x = ExitSuccess \<longleftrightarrow> e = None))"
proof (cases "mgr_New mgr (managerOptions flags) = None \<and> CheckAzureEnvironment (rt_getenv R) = None \<and>
    (\<exists>services. InitializeAzureServices R S srt K = Inr services)")
  case False
  then have "\<exists>message. x = ExitFailure message" "s' = s"
    using assms by (auto simp: operator_main_def Let_def split: option.splits sum.splits)
  then show ?thesis by (intro disjI1) auto
next
  case True
  then obtain services where env: "CheckAzureEnvironment (rt_getenv R) = None" and
    new: "mgr_New mgr (managerOptions flags) = None" and init: "InitializeAzureServices R S srt K = Inr services" by blast
  obtain c s1 where v: "run_state (if validate then ValidateAzureConnectivity R services else ret None) s = (c, s1)"
    by fastforce
  obtain es where es: "trace s1 = trace s @ es" "\<forall>v\<in>set es. is_vm_event v"
    by (rule validation_calls [OF init v])
  define r where "r = \<lparr>rec_runtime = R, rec_client = K,
    rec_AKSClusterManager = Some (svc_AKSClusterManager services),
    rec_hasStateService = True, rec_guest = guest\<rparr>"
  obtain ctl where made: "SetupWithManager (mgr_Complete mgr) r = (ctl, mgr_Complete mgr ctl)"
    and ctl: "ctl_Reconcile ctl = Reconcile r" "1 \<le> ctl_MaxConcurrentReconciles ctl" "ctl_Filter ctl = provider_filter"
    by (rule controller_made)
  obtain f where f: "svc_ClientFactory services = azure_client_factory_of S f"
    "GetSubscriptionID f = rt_getenv R AZURE_SUBSCRIPTION_ID" using init_services(3) [OF init] by blast
  show ?thesis
  proof (cases "c = None \<and> mgr_Complete mgr ctl = None \<and> mgr_AddHealthzCheck mgr = None \<and> mgr_AddReadyzCheck mgr = None")
    case False
    then have "\<exists>message. x = ExitFailure message" "s' = s1"
      using assms env new init v
      by (auto simp: operator_main_def r_def [symmetric] made Let_def split: option.splits if_splits)
    then show ?thesis using es by (intro disjI1) auto
  next
    case True
    obtain e s2 where start: "run_state (mgr_Start mgr ctl) s1 = (e, s2)" by fastforce
    then have "s' = s2" "x = ExitSuccess \<longleftrightarrow> e = None"
      using assms env new init v True
      by (auto simp: operator_main_def r_def [symmetric] made Let_def split: option.splits)
    then show ?thesis
      using env init v True es start init_services(1) [OF init] f ctl
      by (intro disjI2 exI [of _ services] exI [of _ f] exI [of _ r] exI [of _ ctl] exI [of _ s1] exI [of _ es]
          exI [of _ e]) (simp add: r_def provider_filter_iff)
  qed
qed

section \<open>A start\<close>

definition fx_env :: "fx_world runtime" where
  "fx_env = fx_runtime\<lparr>rt_getenv := (\<lambda>v. if v = ''AZURE_SUBSCRIPTION_ID'' then ''0000'' else [])\<rparr>"

definition fx_sdk :: "(fx_world, unit, unit, unit) azure_sdk" where
  "fx_sdk = \<lparr>az_NewDefaultAzureCredential = Inr (), az_NewContainerServiceFactory = (\<lambda>s c. Inr ()),
     az_NewComputeFactory = (\<lambda>s c. Inr ()),
     az_ManagedClusters = (\<lambda>f. fx_azure (Inr (fx_managed None)) (Inr (fx_managed None)) None),
     az_AgentPools = (\<lambda>f. fx_pools []), az_VirtualMachineSizes = (\<lambda>f. fx_sizes)\<rparr>"

definition fx_mgr :: "fx_world ctrl_manager" where
  "fx_mgr = \<lparr>mgr_New = (\<lambda>opts. None), mgr_Complete = (\<lambda>c. None), mgr_AddHealthzCheck = None,
     mgr_AddReadyzCheck = None, mgr_Start = (\<lambda>c. ret None)\<rparr>"

definition fx_viper :: viper where
  "fx_viper =
     \<lparr>viper_GetBool = (\<lambda>d key. d key = Some (BoolSetting True)),
      viper_GetString = (\<lambda>d key. case d key of Some (StringSetting v) \<Rightarrow> v | _ \<Rightarrow> [])\<rparr>"

lemma fx_checked: "CheckAzureEnvironment (rt_getenv fx_env) = None"
  by (simp add: CheckAzureEnvironment_def missing_variables_def env_names credential_client_id_def fx_env_def)

lemma fx_initialized:
  obtains services where "InitializeAzureServices fx_env fx_sdk (\<lambda>xs. xs) fx_kube = Inr services"
    and "svc_VMSizeManager services = NewVMSizeManager fx_env fx_sizes"
  by (auto simp: InitializeAzureServices_def NewClientFactory_def NewVMSizeClient_def
      NewAgentPoolClient_def NewManagedClusterClient_def fx_sdk_def fx_env_def env_names Let_def)

lemma fx_start_lists: "fst (run_state (ListVMSizes fx_env fx_sizes location) fx_state) = Inr [fx_d4, fx_d2]"
  by (simp add: ListVMSizes_def vmSizeCache_get_def vmSizeCache_set_def fx_state_def fx_sizes_def
      case_prod_beta)

lemma fx_starts:
  "fst (run_state (operator_main fx_env fx_sdk (\<lambda>xs. xs) fx_kube fx_guest fx_mgr fx_viper flag_defaults) fx_state) =
     ExitSuccess"
proof -
  obtain services where s: "InitializeAzureServices fx_env fx_sdk (\<lambda>xs. xs) fx_kube = Inr services"
    "svc_VMSizeManager services = NewVMSizeManager fx_env fx_sizes" by (rule fx_initialized)
  have "fst (run_state (ValidateAzureConnectivity fx_env services) fx_state) = None"
    by (simp add: ValidateAzureConnectivity_def s(2) NewVMSizeManager_def Let_def case_prod_beta fx_start_lists)
  then show ?thesis
    by (simp add: operator_main_def fx_checked s(1) fx_mgr_def fx_viper_def setting_defaults case_prod_beta
        SetupWithManager_def Let_def)
qed

theorem starts_only_when_checked_witness:
  "\<exists>services. InitializeAzureServices fx_env fx_sdk (\<lambda>xs. xs) fx_kube = Inr services \<and>
     cluster_manager (svc_AKSClusterManager services) \<and>
     fst (run_state (ValidateAzureConnectivity fx_env services) fx_state) = None"
  using starts_only_when_checked [OF prod.collapse [symmetric] refl,
      of fx_env fx_sdk "\<lambda>xs. xs" fx_kube fx_guest fx_mgr fx_viper flag_defaults fx_state] fx_starts
  by (auto simp: fx_viper_def setting_defaults)

end
