(* ===== verification/StateRace.thy ===== *)
theory StateRace
  imports ClusterState
begin

text \<open>
  Reconciliations of different resources run in parallel, so several goroutines may create and update
  state secrets at the same time. Here \<open>UpdateState\<close> (and with it \<open>GetOrCreateState\<close>,
  \<open>createStateSecret\<close> and \<open>getStateWithRetry\<close>) is cut into turns of one API call each; a
  configuration interleaves the turns of any number of goroutines over one world and the creation
  locks of \<open>ClusterStateService\<close>. Alone, a goroutine does what the sequential model of
  \<open>ClusterState\<close> does.
\<close>

section \<open>A goroutine\<close>

text \<open>
  Where a goroutine stands: before the first read, waiting for the creation lock, before the second
  read, before the create, before one of the remaining reads of \<open>getStateWithRetry\<close>, before the
  update of the secret it read, or returned.
\<close>

datatype pc =
    Reading
  | AwaitingLock
  | Rechecking
  | Creating
  | Refetching nat
  | Writing secret
  | Finished "go_error option"

record goroutine =
  g_cluster :: kubernetes_cluster
  g_edit :: "(string \<rightharpoonup> string) \<Rightarrow> string \<rightharpoonup> string"
  g_left :: nat  \<comment> \<open>attempts of the update loop, the current one included\<close>
  g_pc :: pc

definition g_key :: "goroutine \<Rightarrow> string \<times> string" where
  "g_key g = state_key (g_cluster g)"

definition update_goroutine ::
  "kubernetes_cluster \<Rightarrow> ((string \<rightharpoonup> string) \<Rightarrow> string \<rightharpoonup> string) \<Rightarrow> goroutine" where
  "update_goroutine kc edit = \<lparr>g_cluster = kc, g_edit = edit, g_left = 3, g_pc = Reading\<rparr>"

text \<open>\<open>lock.Lock()\<close> happens on the step to \<^const>\<open>Rechecking\<close>; the deferred unlock when
  \<open>GetOrCreateState\<close> returns.\<close>

fun holds_lock :: "pc \<Rightarrow> bool" where
  "holds_lock Rechecking = True"
| "holds_lock Creating = True"
| "holds_lock (Refetching n) = True"
| "holds_lock p = False"

fun runnable :: "pc \<Rightarrow> bool" where
  "runnable AwaitingLock = False"
| "runnable (Finished r) = False"
| "runnable p = True"

fun succeeded :: "pc \<Rightarrow> bool" where
  "succeeded (Finished None) = True"
| "succeeded p = False"

fun awaiting :: "pc \<Rightarrow> bool" where
  "awaiting AwaitingLock = True"
| "awaiting p = False"

lemma pc_tests [simp]: "succeeded p \<longleftrightarrow> p = Finished None" "awaiting p \<longleftrightarrow> p = AwaitingLock"
  by (cases p rule: succeeded.cases, simp_all) (cases p, simp_all)

definition retryable :: "go_error \<Rightarrow> bool" where
  "retryable err \<longleftrightarrow> IsConflict err \<or> IsNotFound err"

definition written :: "goroutine \<Rightarrow> secret \<Rightarrow> secret" where
  "written g x = x\<lparr>sec_Data := Some (g_edit g (data_of x))\<rparr>"

definition new_state_secret :: "'w runtime \<Rightarrow> 'w kube_client \<Rightarrow> kubernetes_cluster \<Rightarrow> time \<Rightarrow> secret" where
  "new_state_secret R K kc now =
     snd (kube_SetControllerReference K kc
       \<lparr>sec_Name = state_secret_name kc, sec_Namespace = kc_Namespace kc, sec_ResourceVersion = [],
        sec_Labels = [LabelClusterID \<mapsto> cd_ClusterId (kc_Cluster kc)],
        sec_Owner = None, sec_Data = Some (initial_data (rt_rfc3339_utc R now))\<rparr>)"

definition at_pc :: "goroutine \<Rightarrow> pc \<Rightarrow> goroutine" where
  "at_pc g p = g\<lparr>g_pc := p\<rparr>"

definition turn :: "'w runtime \<Rightarrow> 'w kube_client \<Rightarrow> goroutine \<Rightarrow> ('w, goroutine) go" where
  "turn R K g =
     (let kc = g_cluster g;
          read = secretService_GetSecret K (state_secret_name kc) (kc_Namespace kc)
      in case g_pc g of
        Reading \<Rightarrow>
          do {
            r \<leftarrow> read;
            ret (at_pc g (case r of
                   Inr x \<Rightarrow> Writing x
                 | Inl err \<Rightarrow> if IsNotFound err then AwaitingLock else Finished (Some err)))
          }
      | Rechecking \<Rightarrow>
          do {
            r \<leftarrow> read;
            ret (at_pc g (case r of
                   Inr x \<Rightarrow> Writing x
                 | Inl err \<Rightarrow> if IsNotFound err then Creating else Finished (Some err)))
          }
      | Creating \<Rightarrow>
          do {
            now \<leftarrow> time_Now R;
            (let x = new_state_secret R K kc now in
             do {
               e \<leftarrow> call (SecretCreate x) (kube_CreateSecret K x);
               ret (at_pc g (case e of
                      Some err \<Rightarrow> if IsAlreadyExists err then Refetching 3 else Finished (Some err)
                    | None \<Rightarrow> Refetching 3))
             })
          }
      | Refetching n \<Rightarrow>
          do {
            r \<leftarrow> read;
            (case r of
               Inr x \<Rightarrow> ret (at_pc g (Writing x))
             | Inl err \<Rightarrow>
                 if \<not> IsNotFound err then ret (at_pc g (Finished (Some err)))
                 else do {
                   time_Sleep R retry_delay;
                   ret (at_pc g (if n \<le> 1 then Finished (Some err) else Refetching (n - 1)))
                 })
          }
      | Writing x \<Rightarrow>
          do {
            e \<leftarrow> call (SecretUpdate (written g x)) (kube_UpdateSecret K (written g x));
            (case e of
               None \<Rightarrow> ret (at_pc g (Finished None))
             | Some err \<Rightarrow>
                 if retryable err
                 then do {
                   time_Sleep R retry_delay;
                   ret (if g_left g \<le> 1 then g\<lparr>g_left := 0, g_pc := Finished (Some err)\<rparr>
                        else g\<lparr>g_left := g_left g - 1, g_pc := Reading\<rparr>)
                 }
                 else ret (at_pc g (Finished (Some err))))
          }
      | AwaitingLock \<Rightarrow> ret g
      | Finished r \<Rightarrow> ret g)"

section \<open>A goroutine alone\<close>

text \<open>Without contention the lock is free: waiting for it is one step.\<close>

inductive alone :: "'w runtime \<Rightarrow> 'w kube_client \<Rightarrow> goroutine \<Rightarrow> 'w st \<Rightarrow> goroutine \<Rightarrow> 'w st \<Rightarrow> bool"
  for R K where
  alone_refl: "alone R K g s g s"
| alone_lock: "g_pc g = AwaitingLock \<Longrightarrow> alone R K (at_pc g Rechecking) s g' s' \<Longrightarrow> alone R K g s g' s'"
| alone_turn: "runnable (g_pc g) \<Longrightarrow> run_state (turn R K g) s = (g1, s1) \<Longrightarrow>
    alone R K g1 s1 g' s' \<Longrightarrow> alone R K g s g' s'"

lemma at_pc_simps [simp]:
  "g_pc (at_pc g p) = p" "g_cluster (at_pc g p) = g_cluster g" "g_edit (at_pc g p) = g_edit g"
  "g_left (at_pc g p) = g_left g" "g_key (at_pc g p) = g_key g" "at_pc (at_pc g p) q = at_pc g q"
  "written (at_pc g p) = written g"
  by (simp_all add: at_pc_def g_key_def written_def fun_eq_iff)

definition getting :: "goroutine \<Rightarrow> 'w st \<Rightarrow> go_error + secret \<Rightarrow> 'w \<Rightarrow> 'w st" where
  "getting g s a w = s\<lparr>world := w,
     trace := trace s @ [SecretGet (state_secret_name (g_cluster g)) (kc_Namespace (g_cluster g)) (sum_error a)]\<rparr>"

abbreviation "get_of K g w \<equiv> kube_GetSecret K (state_secret_name (g_cluster g)) (kc_Namespace (g_cluster g)) w"

lemma run_get:
  assumes "get_of K g (world s) = (a, w)"
  shows "run_state (secretService_GetSecret K (state_secret_name (g_cluster g)) (kc_Namespace (g_cluster g))) s =
    (a, getting g s a w)"
  using assms by (simp add: secretService_GetSecret_def getting_def)

lemma turn_reads:
  assumes "get_of K g (world s) = (a, w)"
  shows "g_pc g = Reading \<Longrightarrow> run_state (turn R K g) s =
      (at_pc g (case a of Inr x \<Rightarrow> Writing x
        | Inl err \<Rightarrow> if IsNotFound err then AwaitingLock else Finished (Some err)), getting g s a w)"
    and "g_pc g = Rechecking \<Longrightarrow> run_state (turn R K g) s =
      (at_pc g (case a of Inr x \<Rightarrow> Writing x
        | Inl err \<Rightarrow> if IsNotFound err then Creating else Finished (Some err)), getting g s a w)"
    and "g_pc g = Refetching n \<Longrightarrow> run_state (turn R K g) s =
      (case a of Inr x \<Rightarrow> (at_pc g (Writing x), getting g s a w)
       | Inl err \<Rightarrow>
           if \<not> IsNotFound err then (at_pc g (Finished (Some err)), getting g s a w)
           else (at_pc g (if n \<le> 1 then Finished (Some err) else Refetching (n - 1)),
                 (getting g s a w)\<lparr>world := rt_sleep R retry_delay w\<rparr>))"
  using run_get [OF assms] by (cases a; simp add: turn_def Let_def getting_def)+

lemma turn_Creating:
  assumes "g_pc g = Creating" and "rt_now R (world s) = (t, w)"
    and "kube_CreateSecret K (new_state_secret R K (g_cluster g) t) w = (e, w')"
  shows "run_state (turn R K g) s =
    (at_pc g (case e of
       Some err \<Rightarrow> if IsAlreadyExists err then Refetching 3 else Finished (Some err) | None \<Rightarrow> Refetching 3),
     s\<lparr>world := w', trace := trace s @ [SecretCreate (new_state_secret R K (g_cluster g) t) e]\<rparr>)"
  using assms by (simp add: turn_def Let_def)

lemma turn_Writing:
  assumes "g_pc g = Writing x" and "kube_UpdateSecret K (written g x) (world s) = (e, w)"
  shows "run_state (turn R K g) s =
    (let s1 = s\<lparr>world := w, trace := trace s @ [SecretUpdate (written g x) e]\<rparr> in
     case e of None \<Rightarrow> (at_pc g (Finished None), s1)
     | Some err \<Rightarrow>
         if retryable err
         then (if g_left g \<le> 1 then g\<lparr>g_left := 0, g_pc := Finished (Some err)\<rparr>
               else g\<lparr>g_left := g_left g - 1, g_pc := Reading\<rparr>,
               s1\<lparr>world := rt_sleep R retry_delay w\<rparr>)
         else (at_pc g (Finished (Some err)), s1))"
  using assms by (cases e) (simp_all add: turn_def Let_def)

lemma alone_trans: "alone R K g s g1 s1 \<Longrightarrow> alone R K g1 s1 g' s' \<Longrightarrow> alone R K g s g' s'"
  by (induction rule: alone.induct) (auto intro: alone.intros)

lemma alone_one:
  "runnable (g_pc g) \<Longrightarrow> run_state (turn R K g) s = (g', s') \<Longrightarrow> alone R K g s g' s'"
  by (blast intro: alone_turn alone_refl)

lemma alone_turn':
  assumes "runnable (g_pc g)"
    and "alone R K (fst (run_state (turn R K g) s)) (snd (run_state (turn R K g) s)) g' s'"
  shows "alone R K g s g' s'"
  using assms by (metis alone_turn prod.collapse)

text \<open>How \<open>getStateWithRetry\<close> and \<open>GetOrCreateState\<close> end for the update loop.\<close>

definition state_read :: "goroutine \<Rightarrow> go_error + secret \<Rightarrow> goroutine" where
  "state_read g r = at_pc g (case r of Inl err \<Rightarrow> Finished (Some err) | Inr x \<Rightarrow> Writing x)"

lemma state_read_simps [simp]:
  "state_read g (Inl err) = at_pc g (Finished (Some err))" "state_read g (Inr x) = at_pc g (Writing x)"
  by (simp_all add: state_read_def)

lemma alone_refetch:
  "run_state (get_state_attempts R K (g_cluster g) (Suc n) err) s = (r, s') \<Longrightarrow>
     alone R K (at_pc g (Refetching (Suc n))) s (state_read g r) s'"
proof (induction n arbitrary: err s)
  case 0
  obtain a w where a: "get_of K g (world s) = (a, w)" by fastforce
  then show ?case
    using 0 run_get [OF a] turn_reads(3) [of K "at_pc g (Refetching (Suc 0))" s a w "Suc 0" R]
    by (intro alone_one) (auto simp: getting_def split: sum.splits if_splits)
next
  case (Suc n)
  obtain a w where a: "get_of K g (world s) = (a, w)" by fastforce
  then show ?case
    using Suc.prems run_get [OF a] turn_reads(3) [of K "at_pc g (Refetching (Suc (Suc n)))" s a w "Suc (Suc n)" R]
    by (cases a)
      (auto simp: getting_def alone_refl split: if_splits intro!: Suc.IH alone_turn' [where s = s])
qed

lemma alone_get_state:
  "run_state (getStateWithRetry R K (g_cluster g)) s = (r, s') \<Longrightarrow>
     alone R K (at_pc g (Refetching 3)) s (state_read g r) s'"
  using alone_refetch [of R K g 2] by (simp add: getStateWithRetry_def numeral_3_eq_3 del: get_state_attempts.simps)

lemma alone_create:
  assumes "run_state (createStateSecret R K (g_cluster g)) s = (r, s')"
  shows "alone R K (at_pc g Creating) s (state_read g r) s'"
proof (rule alone_turn')
  let ?g = "at_pc g Creating"
  show "alone R K (fst (run_state (turn R K ?g) s)) (snd (run_state (turn R K ?g) s)) (state_read g r) s'"
    using assms
    by (auto simp: turn_def createStateSecret_def new_state_secret_def Let_def alone_refl
        split: option.splits if_splits intro: alone_get_state)
qed simp

lemma alone_get_or_create:
  assumes "run_state (GetOrCreateState R K (g_cluster g)) s = (r, s')"
  shows "alone R K (at_pc g Reading) s (state_read g r) s'"
proof -
  obtain a w where a: "get_of K g (world s) = (a, w)" by fastforce
  have first: "run_state (turn R K (at_pc g Reading)) s = (at_pc g (case a of Inr x \<Rightarrow> Writing x
      | Inl err \<Rightarrow> if IsNotFound err then AwaitingLock else Finished (Some err)), getting g s a w)"
    using turn_reads(1) [of K "at_pc g Reading" s a w R] a by (simp add: getting_def)
  have reads: "alone R K (at_pc g Reading) s g' s'"
    if "alone R K (fst (run_state (turn R K (at_pc g Reading)) s)) (getting g s a w) g' s'" for g'
    by (rule alone_turn') (use that first in auto)
  show ?thesis
  proof (cases "\<exists>err. a = Inl err \<and> IsNotFound err")
    case False
    then show ?thesis
      using assms run_get [OF a] first
      by (cases a) (auto simp: GetOrCreateState_def alone_refl intro!: reads)
  next
    case True
    then obtain err where err: "a = Inl err" "IsNotFound err" by blast
    let ?t = "getting g s a w"
    obtain b v where b: "get_of K g (world ?t) = (b, v)" by fastforce
    have second: "run_state (turn R K (at_pc g Rechecking)) ?t = (at_pc g (case b of Inr x \<Rightarrow> Writing x
        | Inl err \<Rightarrow> if IsNotFound err then Creating else Finished (Some err)), getting g ?t b v)"
      using turn_reads(2) [of K "at_pc g Rechecking" ?t b v R] b by (simp add: getting_def)
    have "alone R K (at_pc g Rechecking) ?t (state_read g r) s'"
    proof (rule alone_turn [OF _ second])
      show "alone R K (at_pc g (case b of Inr x \<Rightarrow> Writing x
          | Inl err \<Rightarrow> if IsNotFound err then Creating else Finished (Some err))) (getting g ?t b v) (state_read g r) s'"
        using assms run_get [OF a] run_get [OF b] err
        by (cases b) (auto simp: GetOrCreateState_def alone_refl intro: alone_create split: if_splits)
    qed simp
    then have "alone R K (at_pc g AwaitingLock) ?t (state_read g r) s'"
      by - (rule alone_lock, simp_all)
    then show ?thesis by - (rule reads, simp add: first err)
  qed
qed

text \<open>A goroutine that nobody interferes with does what the sequential model does: from its
  first read, with the same world and calls, it ends with the result of \<open>UpdateState\<close>.\<close>

theorem alone_is_update_state:
  assumes "run_state (update_attempts R K (g_cluster g) (g_edit g) (g_left g) lastErr) s = (r, s')"
    and "0 < g_left g" and "g_pc g = Reading"
  shows "\<exists>g'. alone R K g s g' s' \<and> g_pc g' = Finished r"
  using assms
proof (induction "g_left g" arbitrary: g lastErr s)
  case (Suc n)
  obtain q s1 where q: "run_state (GetOrCreateState R K (g_cluster g)) s = (q, s1)" by fastforce
  have g: "at_pc g Reading = g" using Suc.prems(3) by (simp add: at_pc_def)
  have first: "alone R K g s (state_read g q) s1" using alone_get_or_create [OF q] by (simp add: g)
  note loop = Suc.prems(1) [folded Suc.hyps(2), simplified, unfolded q]
  show ?case
  proof (cases q)
    case (Inl err)
    then show ?thesis using first loop by auto
  next
    case (Inr x)
    let ?w = "at_pc g (Writing x)" and ?x = "written g x"
    obtain e w1 where e: "kube_UpdateSecret K ?x (world s1) = (e, w1)" by fastforce
    define s2 where "s2 = s1\<lparr>world := w1, trace := trace s1 @ [SecretUpdate ?x e]\<rparr>"
    have reach: "alone R K g s ?w s1" using first Inr by simp
    show ?thesis
    proof (cases "\<exists>err. e = Some err \<and> retryable err")
      case False
      then have "alone R K ?w s1 (at_pc g (Finished e)) s2 \<and> r = e \<and> s' = s2"
        using loop e Inr
        by (auto simp: turn_def written_def retryable_def s2_def Let_def split: option.splits if_splits
            intro!: alone_one)
      then show ?thesis using reach by (metis alone_trans at_pc_simps(1))
    next
      case True
      then obtain err where err: "e = Some err" "retryable err" by blast
      let ?s3 = "s2\<lparr>world := rt_sleep R retry_delay w1\<rparr>"
      have next_loop: "run_state (update_attempts R K (g_cluster g) (g_edit g) n (Some err)) ?s3 = (r, s')"
        using loop e Inr err by (auto simp: written_def retryable_def s2_def Let_def)
      show ?thesis
      proof (cases n)
        case 0
        then have "alone R K ?w s1 (g\<lparr>g_left := 0, g_pc := Finished (Some err)\<rparr>) ?s3"
          using e err Suc.hyps(2) by (intro alone_one) (auto simp: turn_def Let_def s2_def at_pc_def written_def)
        moreover have "r = Some err" "s' = ?s3" using next_loop 0 by auto
        ultimately show ?thesis using alone_trans [OF reach] by (intro exI [of _ "g\<lparr>g_left := 0, g_pc := Finished (Some err)\<rparr>"]) simp
      next
        case (Suc m)
        let ?g2 = "g\<lparr>g_left := n, g_pc := Reading\<rparr>"
        have "alone R K ?w s1 ?g2 ?s3"
          using e err Suc.hyps(2) Suc by (intro alone_one) (auto simp: turn_def Let_def s2_def at_pc_def written_def)
        moreover obtain g' where "alone R K ?g2 ?s3 g' s'" "g_pc g' = Finished r"
          using Suc.hyps(1) [of ?g2 "Some err" ?s3] next_loop Suc by auto
        ultimately show ?thesis using reach by (meson alone_trans)
      qed
    qed
  qed
qed simp

section \<open>Interleaving\<close>

text \<open>
  A configuration: the operator's state, who holds the creation lock of a secret name
  (\<open>creationLocks\<close>), the goroutines, and, as a ghost, the edits whose update was accepted, in
  order, with the goroutine and the secret they belong to.
\<close>

type_synonym edit = "(string \<rightharpoonup> string) \<Rightarrow> string \<rightharpoonup> string"

record 'w conf =
  c_st :: "'w st"
  c_locks :: "string \<rightharpoonup> nat"
  c_procs :: "nat \<rightharpoonup> goroutine"
  c_log :: "(nat \<times> (string \<times> string) \<times> edit) list"

definition lock_name :: "goroutine \<Rightarrow> string" where
  "lock_name g = state_secret_name (g_cluster g)"

definition release :: "goroutine \<Rightarrow> goroutine \<Rightarrow> (string \<rightharpoonup> nat) \<Rightarrow> string \<rightharpoonup> nat" where
  "release g g' locks =
     (if holds_lock (g_pc g) \<and> \<not> holds_lock (g_pc g') then locks(lock_name g := None) else locks)"

definition committed :: "nat \<Rightarrow> goroutine \<Rightarrow> goroutine \<Rightarrow> (nat \<times> (string \<times> string) \<times> edit) list" where
  "committed i g g' = (if succeeded (g_pc g') then [(i, g_key g, g_edit g)] else [])"

inductive interleave :: "'w runtime \<Rightarrow> 'w kube_client \<Rightarrow> 'w conf \<Rightarrow> 'w conf \<Rightarrow> bool" for R K where
  spawn: "c_procs c i = None \<Longrightarrow>
    interleave R K c (c\<lparr>c_procs := (c_procs c)(i \<mapsto> update_goroutine kc edit)\<rparr>)"
| lock: "c_procs c i = Some g \<Longrightarrow> g_pc g = AwaitingLock \<Longrightarrow> c_locks c (lock_name g) = None \<Longrightarrow>
    interleave R K c (c\<lparr>c_locks := (c_locks c)(lock_name g \<mapsto> i),
      c_procs := (c_procs c)(i \<mapsto> at_pc g Rechecking)\<rparr>)"
| step: "c_procs c i = Some g \<Longrightarrow> runnable (g_pc g) \<Longrightarrow> run_state (turn R K g) (c_st c) = (g', s') \<Longrightarrow>
    interleave R K c \<lparr>c_st = s', c_locks = release g g' (c_locks c),
      c_procs = (c_procs c)(i \<mapsto> g'), c_log = c_log c @ committed i g g'\<rparr>"

definition initial_conf :: "'w st \<Rightarrow> 'w conf" where
  "initial_conf s = \<lparr>c_st = s, c_locks = Map.empty, c_procs = Map.empty, c_log = []\<rparr>"

inductive reachable :: "'w runtime \<Rightarrow> 'w kube_client \<Rightarrow> 'w st \<Rightarrow> 'w conf \<Rightarrow> bool" for R K s0 where
  reachable_init: "reachable R K s0 (initial_conf s0)"
| reachable_step: "reachable R K s0 c \<Longrightarrow> interleave R K c c' \<Longrightarrow> reachable R K s0 c'"

lemma goroutine_kept:
  assumes "run_state (turn R K g) s = (g', s')"
  shows "g_cluster g' = g_cluster g" and "g_edit g' = g_edit g"
proof -
  have "g_cluster g' = g_cluster g \<and> g_edit g' = g_edit g"
    using assms
    by (cases "g_pc g") (auto simp: turn_def Let_def split: error_splits)
  then show "g_cluster g' = g_cluster g" "g_edit g' = g_edit g" by simp_all
qed

lemma lock_name_kept: "run_state (turn R K g) s = (g', s') \<Longrightarrow> lock_name g' = lock_name g"
  "run_state (turn R K g) s = (g', s') \<Longrightarrow> g_key g' = g_key g"
  by (simp_all add: lock_name_def g_key_def goroutine_kept)

lemma lock_name_at [simp]: "lock_name (at_pc g p) = lock_name g"
  by (simp add: lock_name_def)

section \<open>Every update returns\<close>

text \<open>
  The work a goroutine has left bounds its remaining turns: at most eight for each attempt of the
  update loop.
\<close>

fun pc_work :: "pc \<Rightarrow> nat" where
  "pc_work Reading = 8"
| "pc_work AwaitingLock = 7"
| "pc_work Rechecking = 6"
| "pc_work Creating = 5"
| "pc_work (Refetching n) = Suc (max 1 n)"
| "pc_work (Writing x) = 1"
| "pc_work (Finished r) = 0"

definition g_work :: "goroutine \<Rightarrow> nat" where
  "g_work g = (case g_pc g of Finished r \<Rightarrow> 0 | p \<Rightarrow> 8 * (g_left g - 1) + pc_work p)"

definition work :: "'w conf \<Rightarrow> nat" where
  "work c = (\<Sum>i\<in>dom (c_procs c). g_work (the (c_procs c i)))"

definition advances :: "'w runtime \<Rightarrow> 'w kube_client \<Rightarrow> 'w conf \<Rightarrow> 'w conf \<Rightarrow> bool" where
  "advances R K c c' \<longleftrightarrow> interleave R K c c' \<and> dom (c_procs c') = dom (c_procs c)"

definition all_returned :: "'w conf \<Rightarrow> bool" where
  "all_returned c \<longleftrightarrow> (\<forall>i g. c_procs c i = Some g \<longrightarrow> (\<exists>r. g_pc g = Finished r))"

lemma turn_work:
  assumes "run_state (turn R K g) s = (g', s')" and "runnable (g_pc g)"
  shows "g_work g' < g_work g"
proof -
  obtain a w where a: "get_of K g (world s) = (a, w)" by fastforce
  note reads = turn_reads [OF a, where R = R]
  show ?thesis
  proof (cases "g_pc g")
    case Reading
    then show ?thesis using assms(1) reads(1) by (cases a) (auto simp: g_work_def split: if_splits)
  next
    case Rechecking
    then show ?thesis using assms(1) reads(2) by (cases a) (auto simp: g_work_def split: if_splits)
  next
    case (Refetching n)
    then show ?thesis using assms(1) reads(3) by (cases a) (auto simp: g_work_def split: if_splits)
  next
    case Creating
    obtain t v where t: "rt_now R (world s) = (t, v)" by fastforce
    obtain e u where e: "kube_CreateSecret K (new_state_secret R K (g_cluster g) t) v = (e, u)" by fastforce
    show ?thesis
      using assms(1) turn_Creating [OF Creating t e] Creating
      by (cases e) (auto simp: g_work_def split: if_splits)
  next
    case (Writing x)
    obtain e u where e: "kube_UpdateSecret K (written g x) (world s) = (e, u)" by fastforce
    show ?thesis
      using assms(1) turn_Writing [OF Writing e] Writing
      by (cases e) (auto simp: g_work_def Let_def split: if_splits)
  qed (use assms(2) in simp_all)
qed

lemma work_update:
  assumes "finite (dom procs)" and "procs i = Some g" and "g_work g' < g_work g"
  shows "(\<Sum>j\<in>dom (procs(i \<mapsto> g')). g_work (the ((procs(i \<mapsto> g')) j))) <
    (\<Sum>j\<in>dom procs. g_work (the (procs j)))"
proof -
  have "dom (procs(i \<mapsto> g')) = dom procs" using assms(2) by auto
  then show ?thesis
    using assms by (auto intro!: sum_strict_mono_ex1 bexI [of _ i])
qed

lemma advances_work:
  assumes "advances R K c c'" and "finite (dom (c_procs c))"
  shows "work c' < work c"
proof -
  have "interleave R K c c'" and same: "dom (c_procs c') = dom (c_procs c)"
    using assms(1) by (simp_all add: advances_def)
  then show ?thesis
  proof (cases rule: interleave.cases)
    case (spawn i kc edit)
    then show ?thesis using same by auto
  next
    case (lock i g)
    then show ?thesis
      using work_update [OF assms(2) lock(2), of "at_pc g Rechecking"] by (simp add: work_def g_work_def)
  next
    case (step i g g' s')
    then show ?thesis
      using work_update [OF assms(2) step(2), of g'] turn_work [OF step(4,3)] by (simp add: work_def)
  qed
qed

text \<open>A held lock has an owner that can run, so somebody can always advance.\<close>

definition lock_owned :: "'w conf \<Rightarrow> bool" where
  "lock_owned c \<longleftrightarrow>
     (\<forall>n i. c_locks c n = Some i \<longrightarrow>
        (\<exists>g. c_procs c i = Some g \<and> holds_lock (g_pc g) \<and> lock_name g = n))"

lemma holds_runnable: "holds_lock p \<Longrightarrow> runnable p"
  by (cases p) simp_all

lemma lock_owned_step:
  assumes "interleave R K c c'" and "lock_owned c"
  shows "lock_owned c'"
  using assms(1)
proof cases
  case (spawn i kc edit)
  then show ?thesis using assms(2) by (fastforce simp: lock_owned_def)
next
  case (lock i g)
  have "j \<noteq> i" if "c_locks c n = Some j" for n j
    using assms(2) that lock(2,3) unfolding lock_owned_def by (metis holds_lock.simps(5) option.inject)
  then show ?thesis using assms(2) lock by (auto simp: lock_owned_def)
next
  case (step i g g' s')
  show ?thesis
    unfolding lock_owned_def
  proof (intro allI impI)
    fix n j assume n: "c_locks c' n = Some j"
    then have "c_locks c n = Some j" using step by (auto simp: release_def split: if_splits)
    then obtain h where h: "c_procs c j = Some h" "holds_lock (g_pc h)" "lock_name h = n"
      using assms(2) unfolding lock_owned_def by blast
    show "\<exists>g. c_procs c' j = Some g \<and> holds_lock (g_pc g) \<and> lock_name g = n"
    proof (cases "j = i")
      case True
      then have "h = g" using h(1) step(2) by simp
      then have "holds_lock (g_pc g')" using h n step True by (auto simp: release_def split: if_splits)
      then show ?thesis using step True h \<open>h = g\<close> lock_name_kept(1) [OF step(4)] by simp
    next
      case False
      then show ?thesis using step h by simp
    qed
  qed
qed

lemma lock_owned_reachable: "reachable R K s0 c \<Longrightarrow> lock_owned c"
proof (induction rule: reachable.induct)
  case reachable_init
  show ?case by (simp add: initial_conf_def lock_owned_def)
next
  case (reachable_step c c')
  then show ?case by (blast intro: lock_owned_step)
qed

lemma can_advance:
  assumes "lock_owned c" and "\<not> all_returned c"
  shows "\<exists>c'. advances R K c c'"
proof -
  have run: "\<exists>c'. advances R K c c'" if "c_procs c j = Some h" "runnable (g_pc h)" for j h
  proof -
    obtain h' s' where "run_state (turn R K h) (c_st c) = (h', s')" by fastforce
    from interleave.step [OF that this] show ?thesis
      using that(1) by (intro exI) (auto simp: advances_def split: if_splits)
  qed
  obtain i g where g: "c_procs c i = Some g" "\<forall>r. g_pc g \<noteq> Finished r"
    using assms(2) unfolding all_returned_def by blast
  show ?thesis
  proof (cases "runnable (g_pc g)")
    case False
    then have wait: "g_pc g = AwaitingLock" using g(2) by (cases "g_pc g") auto
    show ?thesis
    proof (cases "c_locks c (lock_name g)")
      case None
      from interleave.lock [OF g(1) wait None] show ?thesis
        using g(1) by (intro exI) (auto simp: advances_def split: if_splits)
    next
      case (Some j)
      then show ?thesis using assms(1) run holds_runnable unfolding lock_owned_def by blast
    qed
  qed (use run g in blast)
qed

lemma advances_all:
  assumes "reachable R K s0 c" and "finite (dom (c_procs c))"
  shows "\<exists>c'. (advances R K)\<^sup>*\<^sup>* c c' \<and> all_returned c'"
  using assms
proof (induction "work c" arbitrary: c rule: less_induct)
  case less
  show ?case
  proof (cases "all_returned c")
    case False
    then obtain c1 where c1: "advances R K c c1"
      using can_advance lock_owned_reachable [OF less.prems(1)] by blast
    have "reachable R K s0 c1" "finite (dom (c_procs c1))"
      using c1 less.prems by (auto simp: advances_def intro: reachable_step)
    then obtain c' where "(advances R K)\<^sup>*\<^sup>* c1 c'" "all_returned c'"
      using less.hyps advances_work [OF c1 less.prems(2)] by blast
    then show ?thesis using c1 by (meson converse_rtranclp_into_rtranclp)
  qed auto
qed

lemma advances_bounded:
  "(advances R K ^^ n) c c' \<Longrightarrow> finite (dom (c_procs c)) \<Longrightarrow> n + work c' \<le> work c \<and> finite (dom (c_procs c'))"
proof (induction n arbitrary: c')
  case (Suc n)
  then obtain c1 where c1: "(advances R K ^^ n) c c1" "advances R K c1 c'" by auto
  then show ?case
    using Suc.IH [OF c1(1) Suc.prems(2)] advances_work [OF c1(2)] by (auto simp: advances_def)
qed simp

text \<open>C13. No update is stuck: from every configuration the goroutines can go on until all of them
  have returned, nobody waiting for a lock for ever, and however they are scheduled they take no more
  turns than the work they have left, 24 for an update that has not begun.\<close>

theorem updates_return:
  assumes "reachable R K s0 c" and "finite (dom (c_procs c))"
  shows "(\<exists>c'. (advances R K)\<^sup>*\<^sup>* c c' \<and> all_returned c') \<and>
    \<not> (\<exists>n c'. (advances R K ^^ n) c c' \<and> work c < n) \<and>
    \<not> (\<exists>c'. (advances R K)\<^sup>*\<^sup>* c c' \<and> \<not> all_returned c' \<and> \<not> (\<exists>c''. advances R K c' c'')) \<and>
    g_work (update_goroutine kc edit) = 24"
proof -
  have reach: "reachable R K s0 c'" if "(advances R K)\<^sup>*\<^sup>* c c'" for c'
    using that by induction (use assms(1) in \<open>auto simp: advances_def intro: reachable_step\<close>)
  have "\<not> (\<exists>n c'. (advances R K ^^ n) c c' \<and> work c < n)"
    using advances_bounded [OF _ assms(2)] by (meson add_leE leD)
  moreover have "\<not> (\<exists>c'. (advances R K)\<^sup>*\<^sup>* c c' \<and> \<not> all_returned c' \<and> \<not> (\<exists>c''. advances R K c' c''))"
    using reach can_advance lock_owned_reachable by blast
  ultimately show ?thesis
    using advances_all [OF assms] by (simp add: g_work_def update_goroutine_def)
qed

section \<open>Fresh answers\<close>

text \<open>\<open>api_laws\<close> lets every read lag behind; \<open>fresh_reads\<close> adds that "not found" is never stale.\<close>

definition fresh_reads ::
  "'w kube_client \<Rightarrow> ('w \<Rightarrow> string \<times> string \<rightharpoonup> secret) \<Rightarrow> bool" where
  "fresh_reads K stored \<longleftrightarrow>
     (\<forall>n ns w e. fst (kube_GetSecret K n ns w) = Inl e \<longrightarrow> IsNotFound e \<longrightarrow> stored w (n, ns) = None)"

text \<open>What one turn does to the store: nothing, a create, or an update of the secret that was read.\<close>

lemma new_state_secret_key:
  assumes "local_laws R K stored versions"
  shows "secret_key (new_state_secret R K kc t) = state_key kc"
    and "data_of (new_state_secret R K kc t) = initial_data (rt_rfc3339_utc R t)"
proof -
  let ?x = "\<lparr>sec_Name = state_secret_name kc, sec_Namespace = kc_Namespace kc, sec_ResourceVersion = [],
      sec_Labels = [LabelClusterID \<mapsto> cd_ClusterId (kc_Cluster kc)], sec_Owner = None,
      sec_Data = Some (initial_data (rt_rfc3339_utc R t))\<rparr>"
  obtain owner where "snd (kube_SetControllerReference K kc ?x) = ?x\<lparr>sec_Owner := owner\<rparr>"
    using assms unfolding local_laws_def by blast
  then have "new_state_secret R K kc t = ?x\<lparr>sec_Owner := owner\<rparr>"
    by (simp add: new_state_secret_def)
  then show "secret_key (new_state_secret R K kc t) = state_key kc"
    and "data_of (new_state_secret R K kc t) = initial_data (rt_rfc3339_utc R t)"
    by (simp_all add: secret_key_def state_key_def data_of_def)
qed

fun reading :: "pc \<Rightarrow> bool" where
  "reading Reading = True"
| "reading Rechecking = True"
| "reading (Refetching n) = True"
| "reading p = False"

lemma turn_reading_parts:
  assumes a: "get_of K g (world s) = (a, w)" and run: "run_state (turn R K g) s = (g', s')" and "reading (g_pc g)"
  shows "\<exists>p. g' = at_pc g p \<and> p \<noteq> Finished None \<and> (\<forall>x. p = Writing x \<longrightarrow> a = Inr x) \<and>
     (p = Creating \<longrightarrow> g_pc g = Rechecking \<and> (\<exists>err. a = Inl err \<and> IsNotFound err)) \<and>
     (s' = getting g s a w \<or> s' = (getting g s a w)\<lparr>world := rt_sleep R retry_delay w\<rparr>)"
proof (cases "g_pc g")
  case Reading
  from turn_reads(1) [OF a this, of R] run
  have "g' = at_pc g (case a of Inr x \<Rightarrow> Writing x
      | Inl err \<Rightarrow> if IsNotFound err then AwaitingLock else Finished (Some err))" "s' = getting g s a w"
    by simp_all
  then show ?thesis by (intro exI conjI) (auto split: sum.splits if_splits)
next
  case Rechecking
  from turn_reads(2) [OF a this, of R] run
  have "g' = at_pc g (case a of Inr x \<Rightarrow> Writing x
      | Inl err \<Rightarrow> if IsNotFound err then Creating else Finished (Some err))" "s' = getting g s a w"
    by simp_all
  then show ?thesis using Rechecking by (intro exI conjI) (auto split: sum.splits if_splits)
next
  case (Refetching n)
  note t = turn_reads(3) [OF a this, of R]
  show ?thesis
  proof (cases a)
    case (Inr x)
    with t run show ?thesis by (intro exI [of _ "Writing x"]) simp
  next
    case (Inl err)
    with t run show ?thesis
      by (intro exI [of _ "if \<not> IsNotFound err \<or> n \<le> 1 then Finished (Some err) else Refetching (n - 1)"])
        (simp split: if_splits)
  qed
qed (use assms(3) in simp_all)

lemma turn_reading:
  assumes "api_laws R K stored versions" and "run_state (turn R K g) s = (g', s')" and "reading (g_pc g)"
  shows "same_store stored versions (world s) (world s')" and "g_pc g' \<noteq> Finished None"
    and "g_pc g' = Writing x \<Longrightarrow> x \<in> versions (world s) (g_key g)"
    and "\<exists>r. trace s' = trace s @ [SecretGet (state_secret_name (g_cluster g)) (kc_Namespace (g_cluster g)) r]"
    and "g_pc g' = Creating \<Longrightarrow> g_pc g = Rechecking \<and>
           (\<exists>err w. get_of K g (world s) = (Inl err, w) \<and> IsNotFound err)"
proof -
  obtain a w where a: "get_of K g (world s) = (a, w)" by fastforce
  then have store: "same_store stored versions (world s) w"
    and read: "\<And>x. a = Inr x \<Longrightarrow> x \<in> versions (world s) (g_key g)"
    using assms(1) unfolding api_laws_def get_laws_def g_key_def state_key_def by blast+
  have local: "local_laws R K stored versions" using assms(1) by (simp add: api_laws_def)
  obtain p where p: "g' = at_pc g p" "p \<noteq> Finished None" "\<forall>x. p = Writing x \<longrightarrow> a = Inr x"
    "p = Creating \<longrightarrow> g_pc g = Rechecking \<and> (\<exists>err. a = Inl err \<and> IsNotFound err)"
    and s': "s' = getting g s a w \<or> s' = (getting g s a w)\<lparr>world := rt_sleep R retry_delay w\<rparr>"
    using turn_reading_parts [OF a assms(2,3)] by blast
  show "same_store stored versions (world s) (world s')"
    using s' store same_store_sleep [OF local] by (auto simp: getting_def)
  show "\<exists>r. trace s' = trace s @ [SecretGet (state_secret_name (g_cluster g)) (kc_Namespace (g_cluster g)) r]"
    using s' by (auto simp: getting_def)
  show "g_pc g' \<noteq> Finished None" using p(1,2) by simp
  show "x \<in> versions (world s) (g_key g)" if "g_pc g' = Writing x" using p(1,3) read that by simp
  show "g_pc g = Rechecking \<and> (\<exists>err w. get_of K g (world s) = (Inl err, w) \<and> IsNotFound err)"
    if "g_pc g' = Creating"
    using p(1) p(4) a that by auto
qed

lemma turn_creating:
  assumes "api_laws R K stored versions" and "run_state (turn R K g) s = (g', s')" and "g_pc g = Creating"
  shows "\<exists>t e. trace s' = trace s @ [SecretCreate (new_state_secret R K (g_cluster g) t) e] \<and>
      g_pc g' \<noteq> Finished None \<and> (\<forall>x. g_pc g' \<noteq> Writing x) \<and> g_pc g' \<noteq> Creating \<and>
      (case e of
         None \<Rightarrow> stored (world s) (g_key g) = None \<and>
           stores stored versions (world s) (new_state_secret R K (g_cluster g) t) (world s')
       | Some err \<Rightarrow> same_store stored versions (world s) (world s') \<and>
           (IsAlreadyExists err \<longrightarrow> stored (world s) (g_key g) \<noteq> None))"
proof -
  obtain t w where t: "rt_now R (world s) = (t, w)" by fastforce
  let ?x = "new_state_secret R K (g_cluster g) t"
  obtain e w' where e: "kube_CreateSecret K ?x w = (e, w')" by fastforce
  have laws: "create_laws K stored versions" "local_laws R K stored versions"
    using assms(1) by (simp_all add: api_laws_def)
  have same: "stored w = stored (world s)" "versions w = versions (world s)"
    using laws(2) t by (auto simp: local_laws_def same_store_def)
  have "case e of
      None \<Rightarrow> stored (world s) (g_key g) = None \<and> stores stored versions (world s) ?x w'
    | Some err \<Rightarrow> same_store stored versions (world s) w' \<and>
        (IsAlreadyExists err \<longrightarrow> stored (world s) (g_key g) \<noteq> None)"
    using laws(1) [unfolded create_laws_def, rule_format, OF e] new_state_secret_key(1) [OF laws(2)]
    by (simp add: same_store_def stores_def same g_key_def split: option.splits)
  moreover note turn_Creating [OF assms(3) t e]
  ultimately show ?thesis
    using assms(2) by (cases e) (auto intro!: exI [of _ t])
qed

lemma turn_writing:
  assumes "api_laws R K stored versions" and "run_state (turn R K g) s = (g', s')" and "g_pc g = Writing x"
  shows "\<exists>e. trace s' = trace s @ [SecretUpdate (written g x) e]" and "g_pc g' \<noteq> Writing y"
    and "g_pc g' \<noteq> Creating" and "\<not> holds_lock (g_pc g')"
    and "g_pc g' = Finished None \<Longrightarrow> stores stored versions (world s) (written g x) (world s') \<and>
      (\<exists>cur. stored (world s) (secret_key x) = Some cur \<and> sec_ResourceVersion cur = sec_ResourceVersion x)"
    and "g_pc g' \<noteq> Finished None \<Longrightarrow> same_store stored versions (world s) (world s')"
proof -
  obtain e w where e: "kube_UpdateSecret K (written g x) (world s) = (e, w)" by fastforce
  have key: "secret_key (written g x) = secret_key x" "sec_ResourceVersion (written g x) = sec_ResourceVersion x"
    by (simp_all add: written_def secret_key_def)
  have laws: "if e = None
      then stores stored versions (world s) (written g x) w \<and>
        (\<exists>cur. stored (world s) (secret_key x) = Some cur \<and> sec_ResourceVersion cur = sec_ResourceVersion x)
      else same_store stored versions (world s) w"
    using assms(1) e unfolding api_laws_def secret_update_laws_def key [symmetric] by blast
  have local: "local_laws R K stored versions" using assms(1) by (simp add: api_laws_def)
  have "(\<exists>e. trace s' = trace s @ [SecretUpdate (written g x) e]) \<and> g_pc g' \<noteq> Writing y \<and>
      g_pc g' \<noteq> Creating \<and> \<not> holds_lock (g_pc g') \<and>
      (g_pc g' = Finished None \<longrightarrow> stores stored versions (world s) (written g x) (world s') \<and>
        (\<exists>cur. stored (world s) (secret_key x) = Some cur \<and> sec_ResourceVersion cur = sec_ResourceVersion x)) \<and>
      (g_pc g' \<noteq> Finished None \<longrightarrow> same_store stored versions (world s) (world s'))"
    using turn_Writing [OF assms(3) e] assms(2) laws
    by (cases e) (auto simp: Let_def same_store_sleep [OF local] split: if_splits)
  then show "\<exists>e. trace s' = trace s @ [SecretUpdate (written g x) e]" "g_pc g' \<noteq> Writing y"
    "g_pc g' \<noteq> Creating" "\<not> holds_lock (g_pc g')"
    "g_pc g' = Finished None \<Longrightarrow> stores stored versions (world s) (written g x) (world s') \<and>
      (\<exists>cur. stored (world s) (secret_key x) = Some cur \<and> sec_ResourceVersion cur = sec_ResourceVersion x)"
    "g_pc g' \<noteq> Finished None \<Longrightarrow> same_store stored versions (world s) (world s')"
    by blast+
qed

lemma runnable_cases:
  assumes "runnable p"
  obtains "reading p" | "p = Creating" | x where "p = Writing x"
  using assms by (cases p) auto

section \<open>The creation lock\<close>

inductive_cases interleaveE: "interleave R K c c'"

lemma turn_holds:
  assumes "run_state (turn R K g) s = (g', s')" and "holds_lock (g_pc g')"
  shows "holds_lock (g_pc g)"
proof -
  obtain a w where a: "get_of K g (world s) = (a, w)" by fastforce
  show ?thesis
  proof (cases "g_pc g")
    case Reading
    then show ?thesis using assms turn_reads(1) [OF a, where R = R] by (cases a) (auto split: if_splits)
  next
    case (Writing x)
    obtain e v where e: "kube_UpdateSecret K (written g x) (world s) = (e, v)" by fastforce
    show ?thesis
      using assms turn_Writing [OF Writing e] by (cases e) (auto simp: Let_def split: if_splits)
  qed (use assms in \<open>auto simp: turn_def\<close>)
qed

definition lock_inv :: "'w conf \<Rightarrow> bool" where
  "lock_inv c \<longleftrightarrow>
     (\<forall>i g. c_procs c i = Some g \<longrightarrow> holds_lock (g_pc g) \<longrightarrow> c_locks c (lock_name g) = Some i)"

lemma lock_invD:
  "lock_inv c \<Longrightarrow> c_procs c i = Some g \<Longrightarrow> holds_lock (g_pc g) \<Longrightarrow> c_locks c (lock_name g) = Some i"
  by (simp add: lock_inv_def)

lemma lock_inv_step:
  assumes "interleave R K c c'" and "lock_inv c"
  shows "lock_inv c'"
  using assms(1)
proof cases
  case (spawn i kc edit)
  then show ?thesis using assms(2) by (auto simp: lock_inv_def update_goroutine_def)
next
  case (lock i g)
  then show ?thesis using assms(2) by (fastforce simp: lock_inv_def)
next
  case (step i g g' s')
  show ?thesis
    unfolding lock_inv_def
  proof (intro allI impI)
    fix j h
    assume h: "c_procs c' j = Some h" "holds_lock (g_pc h)"
    show "c_locks c' (lock_name h) = Some j"
    proof (cases "j = i")
      case True
      then have "h = g'" using h(1) step by simp
      then have "holds_lock (g_pc g)" "lock_name h = lock_name g"
        using turn_holds step h(2) lock_name_kept by blast+
      then show ?thesis
        using lock_invD [OF assms(2)] step True h(2) \<open>h = g'\<close> by (simp add: release_def)
    next
      case False
      then have "c_locks c (lock_name h) = Some j"
        using lock_invD [OF assms(2)] h step by simp
      moreover have "c_locks c (lock_name g) = Some i" if "holds_lock (g_pc g)"
        using lock_invD [OF assms(2)] step that by blast
      ultimately show ?thesis using False step by (auto simp: release_def)
    qed
  qed
qed

lemma lock_inv_reachable: "reachable R K s0 c \<Longrightarrow> lock_inv c"
proof (induction rule: reachable.induct)
  case reachable_init
  show ?case by (simp add: initial_conf_def lock_inv_def)
next
  case (reachable_step c c')
  then show ?case by (blast intro: lock_inv_step)
qed

text \<open>The creates of a secret that succeeded, and the part of the trace a run added.\<close>

definition created :: "string \<times> string \<Rightarrow> event list \<Rightarrow> event list" where
  "created k es = filter (\<lambda>e. case e of SecretCreate x None \<Rightarrow> secret_key x = k | _ \<Rightarrow> False) es"

definition new_events :: "'w st \<Rightarrow> 'w conf \<Rightarrow> event list" where
  "new_events s0 c = drop (length (trace s0)) (trace (c_st c))"

definition raced :: "event \<Rightarrow> bool" where
  "raced e \<longleftrightarrow> (case e of SecretCreate x (Some err) \<Rightarrow> IsAlreadyExists err | _ \<Rightarrow> False)"

text \<open>
  What holds of every configuration: a secret that is not there has not been created, one is created
  at most once, a goroutine about to create finds no secret, and no create found one.
\<close>

definition create_inv :: "'w store \<Rightarrow> 'w st \<Rightarrow> 'w conf \<Rightarrow> bool" where
  "create_inv stored s0 c \<longleftrightarrow>
     (\<exists>es. trace (c_st c) = trace s0 @ es \<and> (\<forall>e\<in>set es. \<not> raced e) \<and>
        (\<forall>k. length (created k es) \<le> (if stored (world (c_st c)) k = None then 0 else 1))) \<and>
     (\<forall>i g. c_procs c i = Some g \<longrightarrow> g_pc g = Creating \<longrightarrow> stored (world (c_st c)) (g_key g) = None)"

text \<open>An event other than a successful or a raced create, after which the same secrets exist, keeps
  the invariant.\<close>

lemma created_simps [simp]:
  "created k [] = []" "created k (es @ fs) = created k es @ created k fs"
  "created k [SecretGet n ns r] = []" "created k [SecretUpdate x r] = []"
  "created k [SecretCreate x (Some err)] = []"
  "created k [SecretCreate x None] = (if secret_key x = k then [SecretCreate x None] else [])"
  by (simp_all add: created_def)

lemma raced_simps [simp]:
  "\<not> raced (SecretGet n ns r)" "\<not> raced (SecretUpdate x r)" "\<not> raced (SecretCreate x None)"
  "raced (SecretCreate x (Some err)) = IsAlreadyExists err"
  by (simp_all add: raced_def)

lemma create_inv_event:
  assumes inv: "create_inv stored s0 c" and c': "c' = \<lparr>c_st = s', c_locks = locks, c_procs = (c_procs c)(i \<mapsto> g'), c_log = log\<rparr>"
    and ev: "trace s' = trace (c_st c) @ [ev]" "\<not> raced ev" "\<And>k. created k [ev] = []"
    and same: "\<And>k. stored (world s') k = None \<longleftrightarrow> stored (world (c_st c)) k = None"
    and pc: "g_pc g' = Creating \<Longrightarrow> stored (world (c_st c)) (g_key g') = None"
  shows "create_inv stored s0 c'"
proof -
  obtain es where es: "trace (c_st c) = trace s0 @ es" "\<forall>e\<in>set es. \<not> raced e"
    "\<And>k. length (created k es) \<le> (if stored (world (c_st c)) k = None then 0 else 1)"
    using inv unfolding create_inv_def by blast
  then have "\<exists>es'. trace s' = trace s0 @ es' \<and> (\<forall>e\<in>set es'. \<not> raced e) \<and>
      (\<forall>k. length (created k es') \<le> (if stored (world s') k = None then 0 else 1))"
    using ev by (intro exI [of _ "es @ [ev]"]) (simp add: same)
  moreover have "stored (world s') (g_key h) = None"
    if "((c_procs c)(i \<mapsto> g')) j = Some h" "g_pc h = Creating" for j h
    using that pc inv unfolding create_inv_def by (auto simp: same split: if_splits)
  ultimately show ?thesis by (simp add: create_inv_def c')
qed

text \<open>A successful create, by the holder of the lock of its name.\<close>

lemma create_inv_created:
  assumes inv: "create_inv stored s0 c" and c': "c' = \<lparr>c_st = s', c_locks = locks, c_procs = (c_procs c)(i \<mapsto> g'), c_log = log\<rparr>"
    and lock: "lock_inv c" and g: "c_procs c i = Some g" "g_pc g = Creating" "g_pc g' \<noteq> Creating"
    and x: "secret_key x = g_key g" and tr: "trace s' = trace (c_st c) @ [SecretCreate x None]"
    and w: "stored (world s') = (stored (world (c_st c)))(g_key g \<mapsto> x\<lparr>sec_ResourceVersion := rv\<rparr>)"
  shows "create_inv stored s0 c'"
proof -
  let ?w = "world (c_st c)"
  obtain es where es: "trace (c_st c) = trace s0 @ es" "\<forall>e\<in>set es. \<not> raced e"
    and one: "\<And>k. length (created k es) \<le> (if stored ?w k = None then 0 else 1)"
    using inv unfolding create_inv_def by blast
  have about: "stored ?w (g_key h) = None" if "c_procs c j = Some h" "g_pc h = Creating" for j h
    using inv that unfolding create_inv_def by blast
  have "length (created k (es @ [SecretCreate x None])) \<le> (if stored (world s') k = None then 0 else 1)" for k
    using one [of k] about [OF g(1,2)] x w by auto
  moreover have "stored (world s') (g_key h) = None"
    if h: "((c_procs c)(i \<mapsto> g')) j = Some h" "g_pc h = Creating" for j h
  proof -
    have j: "j \<noteq> i" "c_procs c j = Some h" using h g(3) by (auto split: if_splits)
    have "c_locks c (lock_name h) = Some j" "c_locks c (lock_name g) = Some i"
      using lock_invD [OF lock] j(2) h(2) g(1,2) by simp_all
    then have "lock_name h \<noteq> lock_name g" using j(1) by auto
    then have "g_key h \<noteq> g_key g" by (auto simp: lock_name_def g_key_def state_key_def)
    then show ?thesis using about [OF j(2) h(2)] w by simp
  qed
  moreover have "trace s' = trace s0 @ (es @ [SecretCreate x None])" "\<forall>v\<in>set (es @ [SecretCreate x None]). \<not> raced v"
    using tr es by simp_all
  ultimately show ?thesis
    unfolding create_inv_def c' conf.simps by (intro conjI exI [of _ "es @ [SecretCreate x None]"]) auto
qed

lemma create_inv_creating:
  assumes laws: "api_laws R K stored versions" and lock: "lock_inv c" and inv: "create_inv stored s0 c"
    and c': "c' = \<lparr>c_st = s', c_locks = locks, c_procs = (c_procs c)(i \<mapsto> g'), c_log = log\<rparr>"
    and g: "c_procs c i = Some g" and run: "run_state (turn R K g) (c_st c) = (g', s')" and creating: "g_pc g = Creating"
  shows "create_inv stored s0 c'"
proof -
  let ?w = "world (c_st c)"
  have none: "stored ?w (g_key g) = None" using inv g creating unfolding create_inv_def by blast
  obtain t e where tr: "trace s' = trace (c_st c) @ [SecretCreate (new_state_secret R K (g_cluster g) t) e]"
    and pc: "g_pc g' \<noteq> Creating"
    and e: "case e of
       None \<Rightarrow> stored ?w (g_key g) = None \<and>
         stores stored versions ?w (new_state_secret R K (g_cluster g) t) (world s')
     | Some err \<Rightarrow> same_store stored versions ?w (world s') \<and>
         (IsAlreadyExists err \<longrightarrow> stored ?w (g_key g) \<noteq> None)"
    using turn_creating [OF laws run creating] by blast
  show ?thesis
  proof (cases e)
    case (Some err)
    then show ?thesis using tr e none pc by (intro create_inv_event [OF inv c' tr]) (auto simp: same_store_def)
  next
    case None
    let ?x = "new_state_secret R K (g_cluster g) t"
    have key: "secret_key ?x = g_key g"
      using new_state_secret_key(1) laws by (auto simp: api_laws_def g_key_def)
    obtain rv where w: "stored (world s') = (stored ?w)(g_key g \<mapsto> ?x\<lparr>sec_ResourceVersion := rv\<rparr>)"
      using e None key by (auto simp: stores_def)
    have "trace s' = trace (c_st c) @ [SecretCreate ?x None]" using tr None by simp
    then show ?thesis by (rule create_inv_created [OF inv c' lock g creating pc key _ w])
  qed
qed

lemma create_inv_step:
  assumes laws: "api_laws R K stored versions" and fresh: "fresh_reads K stored"
    and lock: "lock_inv c" and inv: "create_inv stored s0 c" and c': "interleave R K c c'"
  shows "create_inv stored s0 c'"
  using c'
proof cases
  case (spawn i kc edit)
  then show ?thesis using inv by (auto simp: create_inv_def update_goroutine_def)
next
  case (lock i g)
  then show ?thesis using inv by (auto simp: create_inv_def)
next
  case (step i g g' s')
  let ?w = "world (c_st c)"
  note keep = create_inv_event [OF inv step(1)]
  show ?thesis
  proof (rule runnable_cases [OF \<open>runnable (g_pc g)\<close>])
    assume reading: "reading (g_pc g)"
    note rd = turn_reading [OF laws \<open>run_state (turn R K g) (c_st c) = (g', s')\<close> reading]
    obtain r where r: "trace s' = trace (c_st c) @
        [SecretGet (state_secret_name (g_cluster g)) (kc_Namespace (g_cluster g)) r]" using rd(4) by blast
    have same: "stored (world s') = stored ?w" using rd(1) by (simp add: same_store_def)
    have "stored ?w (g_key g') = None" if "g_pc g' = Creating"
      using rd(5) [OF that] fresh lock_name_kept(2) [OF step(4)]
      by (auto simp: fresh_reads_def g_key_def state_key_def)
    with r same show ?thesis by (intro keep [OF r]) simp_all
  next
    assume "g_pc g = Creating"
    then show ?thesis by (rule create_inv_creating [OF laws lock inv step(1,2,4)])
  next
    fix x assume writing: "g_pc g = Writing x"
    note wr = turn_writing [OF laws step(4) writing]
    obtain e where tr: "trace s' = trace (c_st c) @ [SecretUpdate (written g x) e]" using wr(1) by blast
    have "stored (world s') k = None \<longleftrightarrow> stored ?w k = None" for k
      using wr(5,6)
      by (cases "g_pc g' = Finished None")
        (auto simp: same_store_def stores_def written_def secret_key_def split: if_splits)
    then show ?thesis using wr(3) by (intro keep [OF tr]) simp_all
  qed
qed

text \<open>C8. The creation lock does its job: whatever the interleaving, two goroutines are never
  between lock and unlock for the same secret name, no create finds the secret already there, and
  every secret is created at most once - provided that a read that says "not found" is up to date.\<close>

theorem creation_is_exclusive:
  assumes "api_laws R K stored versions" and "fresh_reads K stored" and "reachable R K s0 c"
  shows "(\<forall>i j g h. c_procs c i = Some g \<and> c_procs c j = Some h \<and> holds_lock (g_pc g) \<and>
            holds_lock (g_pc h) \<and> lock_name g = lock_name h \<longrightarrow> i = j) \<and>
    (\<forall>e\<in>set (new_events s0 c). \<not> raced e) \<and>
    (\<forall>k. length (created k (new_events s0 c)) \<le> 1)"
proof -
  have "create_inv stored s0 c"
    using assms(3)
  proof (induction rule: reachable.induct)
    case reachable_init
    show ?case by (auto simp: create_inv_def initial_conf_def)
  next
    case (reachable_step c c')
    then show ?case using create_inv_step [OF assms(1,2)] lock_inv_reachable by blast
  qed
  then obtain es where es: "trace (c_st c) = trace s0 @ es" "\<forall>e\<in>set es. \<not> raced e"
    and one: "\<And>k. length (created k es) \<le> (if stored (world (c_st c)) k = None then 0 else 1)"
    unfolding create_inv_def by blast
  have "length (created k es) \<le> 1" for k using one [of k] by (simp split: if_splits)
  moreover have "i = j" if "c_procs c i = Some g" "c_procs c j = Some h" "holds_lock (g_pc g)"
    "holds_lock (g_pc h)" "lock_name g = lock_name h" for i j g h
    using lock_inv_reachable [OF assms(3)] that lock_invD by (metis option.inject)
  ultimately show ?thesis using es by (auto simp: new_events_def)
qed

section \<open>No update is lost\<close>

text \<open>
  The specification: a secret's data is what the accepted edits, each applied at once and in the order
  of their acceptance, make of the data the secret started with.
\<close>

fun replay :: "string \<times> string \<Rightarrow> (nat \<times> (string \<times> string) \<times> edit) list \<Rightarrow> (string \<rightharpoonup> string) \<Rightarrow> string \<rightharpoonup> string"
where
  "replay k [] d = d"
| "replay k ((i, key, edit) # log) d = replay k log (if key = k then edit d else d)"

lemma replay_append: "replay k (log @ log') d = replay k log' (replay k log d)"
  by (induction log arbitrary: d) auto

lemma replay_other: "\<forall>(i, key, edit)\<in>set log. key \<noteq> k \<Longrightarrow> replay k log d = d"
  by (induction log arbitrary: d) auto

definition starts_with :: "'w store \<Rightarrow> 'w st \<Rightarrow> string \<times> string \<Rightarrow> (string \<rightharpoonup> string) \<Rightarrow> bool" where
  "starts_with stored s0 k d \<longleftrightarrow>
     (case stored (world s0) k of Some y \<Rightarrow> d = data_of y | None \<Rightarrow> \<exists>t. d = initial_data t)"

definition linearized :: "'w store \<Rightarrow> 'w st \<Rightarrow> 'w conf \<Rightarrow> string \<times> string \<Rightarrow> bool" where
  "linearized stored s0 c k \<longleftrightarrow>
     (case stored (world (c_st c)) k of
        None \<Rightarrow> stored (world s0) k = None \<and> (\<forall>(i, key, edit)\<in>set (c_log c). key \<noteq> k)
      | Some x \<Rightarrow> \<exists>d. starts_with stored s0 k d \<and> data_of x = replay k (c_log c) d)"

definition acknowledged :: "'w conf \<Rightarrow> bool" where
  "acknowledged c \<longleftrightarrow>
     distinct (map fst (c_log c)) \<and>
     (\<forall>i. (\<exists>g. c_procs c i = Some g \<and> g_pc g = Finished None) \<longleftrightarrow> i \<in> fst ` set (c_log c))"

definition logged :: "'w conf \<Rightarrow> (nat \<times> (string \<times> string) \<times> edit) \<Rightarrow> bool" where
  "logged c e \<longleftrightarrow>
     (\<exists>g. c_procs c (fst e) = Some g \<and> fst (snd e) = g_key g \<and> snd (snd e) = g_edit g)"

lemma logged_step:
  assumes "interleave R K c c'" and "\<forall>e\<in>set (c_log c). logged c e"
  shows "\<forall>e\<in>set (c_log c'). logged c' e"
proof
  fix e assume "e \<in> set (c_log c')"
  have old: "\<exists>g. c_procs c (fst e) = Some g \<and> fst (snd e) = g_key g \<and> snd (snd e) = g_edit g"
    if "e \<in> set (c_log c)"
    using assms(2) that by (simp add: logged_def)
  show "logged c' e"
    using assms(1)
  proof cases
    case (spawn i kc edit)
    then show ?thesis using old \<open>e \<in> set (c_log c')\<close> by (auto simp: logged_def)
  next
    case (lock i g)
    then show ?thesis using old \<open>e \<in> set (c_log c')\<close> by (auto simp: logged_def at_pc_def g_key_def)
  next
    case (step i g g' s')
    note kept = lock_name_kept(2) [OF step(4)] goroutine_kept(2) [OF step(4)]
    show ?thesis
    proof (cases "e \<in> set (c_log c)")
      case True
      then show ?thesis using old step kept by (auto simp: logged_def)
    next
      case False
      then have "e = (i, g_key g, g_edit g)"
        using \<open>e \<in> set (c_log c')\<close> step by (auto simp: committed_def split: if_splits)
      then show ?thesis using step kept by (simp add: logged_def)
    qed
  qed
qed

lemma logged_reachable: "reachable R K s0 c \<Longrightarrow> \<forall>e\<in>set (c_log c). logged c e"
proof (induction rule: reachable.induct)
  case reachable_init
  show ?case by (simp add: initial_conf_def)
next
  case (reachable_step c c')
  show ?case by (rule logged_step [OF reachable_step.hyps(2) reachable_step.IH])
qed

definition log_inv :: "'w store \<Rightarrow> 'w history \<Rightarrow> 'w st \<Rightarrow> 'w conf \<Rightarrow> bool" where
  "log_inv stored versions s0 c \<longleftrightarrow>
     acknowledged c \<and> (\<forall>k. linearized stored s0 c k) \<and>
     (\<forall>i g x. c_procs c i = Some g \<longrightarrow> g_pc g = Writing x \<longrightarrow> x \<in> versions (world (c_st c)) (g_key g))"

lemma acknowledged_step:
  assumes "interleave R K c c'" and "acknowledged c"
  shows "acknowledged c'"
  using assms(1)
proof cases
  case (spawn i kc edit)
  have "i \<notin> fst ` set (c_log c)" using assms(2) spawn(2) unfolding acknowledged_def by (metis option.distinct(1))
  then show ?thesis using assms(2) spawn by (auto simp: acknowledged_def update_goroutine_def)
next
  case (lock i g)
  have "i \<notin> fst ` set (c_log c)"
    using assms(2) lock(2,3) unfolding acknowledged_def by (metis option.inject pc.distinct)
  then show ?thesis using assms(2) lock by (auto simp: acknowledged_def)
next
  case (step i g g' s')
  have "i \<notin> fst ` set (c_log c)"
    using assms(2) step(2,3) unfolding acknowledged_def by (metis option.inject runnable.simps(2))
  then show ?thesis using assms(2) step by (auto simp: acknowledged_def committed_def)
qed

lemma linearized_same:
  "linearized stored s0 c k \<Longrightarrow> stored (world (c_st c')) k = stored (world (c_st c)) k \<Longrightarrow>
     c_log c' = c_log c \<Longrightarrow> linearized stored s0 c' k"
  by (auto simp: linearized_def split: option.splits)

lemma linearized_create:
  assumes lin: "linearized stored s0 c k" and none: "stored (world (c_st c)) key = None"
    and x: "data_of x = initial_data t"
    and c': "stored (world (c_st c')) = (stored (world (c_st c)))(key \<mapsto> x)" "c_log c' = c_log c"
  shows "linearized stored s0 c' k"
proof (cases "k = key")
  case True
  have "stored (world s0) k = None" "\<forall>(i, key, edit)\<in>set (c_log c). key \<noteq> k"
    using lin none True by (simp_all add: linearized_def)
  then have "starts_with stored s0 k (data_of x)" "replay k (c_log c) (data_of x) = data_of x"
    by (auto simp: starts_with_def x replay_other)
  then show ?thesis using True c' by (auto simp: linearized_def intro!: exI [of _ "data_of x"])
next
  case False
  then show ?thesis using linearized_same [OF lin, of c'] c' by simp
qed

lemma linearized_commit:
  assumes lin: "linearized stored s0 c k" and cur: "stored (world (c_st c)) key = Some x"
    and y: "data_of y = edit (data_of x)"
    and c': "stored (world (c_st c')) = (stored (world (c_st c)))(key \<mapsto> y)"
      "c_log c' = c_log c @ [(i, key, edit)]"
  shows "linearized stored s0 c' k"
proof (cases "k = key")
  case True
  obtain d where d: "starts_with stored s0 k d" "data_of x = replay k (c_log c) d"
    using lin cur True by (auto simp: linearized_def)
  then have "data_of y = replay k (c_log c') d" by (simp add: c'(2) replay_append True y)
  then show ?thesis using d(1) c'(1) True by (auto simp: linearized_def)
next
  case False
  then show ?thesis using lin c' by (auto simp: linearized_def replay_append split: option.splits)
qed

lemma log_invD:
  assumes "log_inv stored versions s0 c"
  shows "acknowledged c" and "linearized stored s0 c k"
    and "c_procs c i = Some g \<Longrightarrow> g_pc g = Writing x \<Longrightarrow> x \<in> versions (world (c_st c)) (g_key g)"
  using assms unfolding log_inv_def by blast+

lemma log_invI:
  assumes "acknowledged c" and "\<And>k. linearized stored s0 c k"
    and "\<And>i g x. c_procs c i = Some g \<Longrightarrow> g_pc g = Writing x \<Longrightarrow> x \<in> versions (world (c_st c)) (g_key g)"
  shows "log_inv stored versions s0 c"
  using assms unfolding log_inv_def by blast

lemma linearized_created_turn:
  assumes laws: "api_laws R K stored versions" and lin: "\<And>k. linearized stored s0 c k"
    and run: "run_state (turn R K g) (c_st c) = (g', s')" and creating: "g_pc g = Creating"
    and c': "c_st c' = s'" "c_log c' = c_log c @ committed i g g'"
  shows "linearized stored s0 c' k \<and> versions (world (c_st c)) k \<subseteq> versions (world s') k \<and>
     (\<forall>x. g_pc g' \<noteq> Writing x)"
proof -
  let ?w = "world (c_st c)"
  obtain t e where pc: "g_pc g' \<noteq> Finished None" "\<forall>x. g_pc g' \<noteq> Writing x"
    and e: "case e of
       None \<Rightarrow> stored ?w (g_key g) = None \<and>
         stores stored versions ?w (new_state_secret R K (g_cluster g) t) (world s')
     | Some err \<Rightarrow> same_store stored versions ?w (world s') \<and>
         (IsAlreadyExists err \<longrightarrow> stored ?w (g_key g) \<noteq> None)"
    using turn_creating [OF laws run creating] by blast
  have log: "c_log c' = c_log c" using c'(2) pc by (simp add: committed_def)
  show ?thesis
  proof (cases e)
    case (Some err)
    then have "stored (world s') = stored ?w" "versions (world s') = versions ?w"
      using e by (simp_all add: same_store_def)
    then show ?thesis using pc linearized_same [OF lin [of k], of c'] log c'(1) by simp
  next
    case None
    let ?x = "new_state_secret R K (g_cluster g) t"
    have x: "secret_key ?x = g_key g" "data_of ?x = initial_data (rt_rfc3339_utc R t)"
      using new_state_secret_key laws by (auto simp: api_laws_def g_key_def)
    obtain rv where w: "stored (world s') = (stored ?w)(g_key g \<mapsto> ?x\<lparr>sec_ResourceVersion := rv\<rparr>)"
      and none: "stored ?w (g_key g) = None" and v: "\<forall>k. versions ?w k \<subseteq> versions (world s') k"
      using e None x(1) by (auto simp: stores_def)
    have "linearized stored s0 c' k"
      by (rule linearized_create [OF lin [of k] none, of "?x\<lparr>sec_ResourceVersion := rv\<rparr>"])
        (use w log c'(1) x(2) in \<open>simp_all add: data_of_def fun_upd_def\<close>)
    then show ?thesis using v pc by blast
  qed
qed

lemma linearized_written_turn:
  assumes laws: "api_laws R K stored versions" and lin: "\<And>k. linearized stored s0 c k"
    and read: "x \<in> versions (world (c_st c)) (g_key g)"
    and run: "run_state (turn R K g) (c_st c) = (g', s')" and writing: "g_pc g = Writing x"
    and finished: "g_pc g' = Finished None" and c': "c_st c' = s'" "c_log c' = c_log c @ committed i g g'"
  shows "linearized stored s0 c' k \<and> versions (world (c_st c)) k \<subseteq> versions (world s') k"
proof -
  let ?w = "world (c_st c)"
  obtain cur where cur: "stored ?w (secret_key x) = Some cur" "sec_ResourceVersion cur = sec_ResourceVersion x"
    and st: "stores stored versions ?w (written g x) (world s')"
    using turn_writing(5) [OF laws run writing finished] by blast
  have vs: "version_laws stored versions" using laws by (simp add: api_laws_def)
  have key: "secret_key x = g_key g" and "x = cur"
    using vs cur read unfolding version_laws_def by metis+
  obtain rv where w: "stored (world s') = (stored ?w)(g_key g \<mapsto> (written g x)\<lparr>sec_ResourceVersion := rv\<rparr>)"
    and v: "\<forall>k. versions ?w k \<subseteq> versions (world s') k"
    using st key by (auto simp: stores_def written_def secret_key_def)
  have log: "c_log c' = c_log c @ [(i, g_key g, g_edit g)]" using c'(2) finished by (simp add: committed_def)
  have "linearized stored s0 c' k"
    by (rule linearized_commit [OF lin [of k], of "g_key g" x "(written g x)\<lparr>sec_ResourceVersion := rv\<rparr>" "g_edit g"])
      (use cur(1) key \<open>x = cur\<close> w c'(1) log in \<open>simp_all add: written_def data_of_def\<close>)
  then show ?thesis using v by blast
qed

lemma log_inv_turn:
  assumes laws: "api_laws R K stored versions" and inv: "log_inv stored versions s0 c"
    and g: "c_procs c i = Some g" "runnable (g_pc g)" and run: "run_state (turn R K g) (c_st c) = (g', s')"
    and c': "c' = \<lparr>c_st = s', c_locks = locks, c_procs = (c_procs c)(i \<mapsto> g'), c_log = c_log c @ committed i g g'\<rparr>"
  shows "linearized stored s0 c' k"
    and "\<And>k. versions (world (c_st c)) k \<subseteq> versions (world s') k"
    and "\<And>x. g_pc g' = Writing x \<Longrightarrow> x \<in> versions (world (c_st c)) (g_key g)"
proof -
  let ?w = "world (c_st c)"
  note lin = log_invD(2) [OF inv]
  have parts: "c_st c' = s'" "c_log c' = c_log c @ committed i g g'" using c' by simp_all
  have same: "linearized stored s0 c' k" if "same_store stored versions ?w (world s')" "g_pc g' \<noteq> Finished None"
    using linearized_same [OF lin, of c'] that c' by (simp add: same_store_def committed_def)
  have "linearized stored s0 c' k \<and> (\<forall>k. versions ?w k \<subseteq> versions (world s') k) \<and>
      (\<forall>x. g_pc g' = Writing x \<longrightarrow> x \<in> versions ?w (g_key g))"
  proof (rule runnable_cases [OF g(2)])
    assume "reading (g_pc g)"
    note rd = turn_reading [OF laws run this]
    show ?thesis using rd(1-3) same by (auto simp: same_store_def)
  next
    assume creating: "g_pc g = Creating"
    show ?thesis using linearized_created_turn [OF laws lin run creating parts] by blast
  next
    fix x assume writing: "g_pc g = Writing x"
    note wr = turn_writing [OF laws run writing]
    show ?thesis
    proof (cases "g_pc g' = Finished None")
      case False
      then show ?thesis using wr(2,6) same by (auto simp: same_store_def)
    next
      case True
      from linearized_written_turn [OF laws lin log_invD(3) [OF inv g(1) writing] run writing True parts]
      show ?thesis using True by simp
    qed
  qed
  then show "linearized stored s0 c' k" "\<And>k. versions (world (c_st c)) k \<subseteq> versions (world s') k"
    "\<And>x. g_pc g' = Writing x \<Longrightarrow> x \<in> versions (world (c_st c)) (g_key g)" by auto
qed

lemma log_inv_step:
  assumes laws: "api_laws R K stored versions" and inv: "log_inv stored versions s0 c"
    and c': "interleave R K c c'"
  shows "log_inv stored versions s0 c'"
proof -
  have ack: "acknowledged c'" using acknowledged_step [OF c'] log_invD(1) [OF inv] .
  show ?thesis
    using c'
  proof cases
    case (spawn i kc edit)
    show ?thesis
      using log_invD(3) [OF inv] linearized_same [OF log_invD(2) [OF inv], of c'] spawn
      by (intro log_invI ack) (auto simp: update_goroutine_def split: if_splits)
  next
    case (lock i g)
    show ?thesis
      using log_invD(3) [OF inv] linearized_same [OF log_invD(2) [OF inv], of c'] lock
      by (intro log_invI ack) (auto split: if_splits)
  next
    case (step i g g' s')
    note turn = log_inv_turn [OF laws inv step(2-4) step(1)]
    have "x \<in> versions (world s') (g_key h)"
      if "((c_procs c)(i \<mapsto> g')) j = Some h" "g_pc h = Writing x" for j h x
      using that turn(2) [of "g_key h"] turn(3) [of x] log_invD(3) [OF inv, of j h x] lock_name_kept(2) [OF step(4)]
      by (auto split: if_splits)
    then show ?thesis using turn(1) step(1) by (intro log_invI ack) simp_all
  qed
qed

lemma log_inv_reachable:
  assumes "api_laws R K stored versions" and "reachable R K s0 c"
  shows "log_inv stored versions s0 c"
  using assms(2)
proof (induction rule: reachable.induct)
    case reachable_init
    show ?case
      by (rule log_invI)
        (auto simp: acknowledged_def initial_conf_def linearized_def starts_with_def split: option.splits)
  next
    case (reachable_step c c')
    then show ?case using log_inv_step [OF assms(1)] by blast
  qed

text \<open>C4. No update is lost: whatever the interleaving and however stale the reads, the data of every
  state secret is what the accepted edits make of the data it started with, each edit applied
  atomically and in the order of acceptance; and the accepted edits are exactly those of the
  goroutines whose update returned without an error, each once.\<close>

theorem updates_linearize:
  assumes "api_laws R K stored versions" and "reachable R K s0 c"
  shows "(\<forall>k x. stored (world (c_st c)) k = Some x \<longrightarrow>
            (\<exists>d. starts_with stored s0 k d \<and> data_of x = replay k (c_log c) d)) \<and>
    distinct (map fst (c_log c)) \<and>
    (\<forall>i. (\<exists>g. c_procs c i = Some g \<and> g_pc g = Finished None) \<longleftrightarrow> i \<in> fst ` set (c_log c)) \<and>
    (\<forall>e\<in>set (c_log c). logged c e)"
proof -
  note inv = log_invD [OF log_inv_reachable [OF assms]]
  have "\<exists>d. starts_with stored s0 k d \<and> data_of x = replay k (c_log c) d"
    if "stored (world (c_st c)) k = Some x" for k x
    using inv(2) [of k] that by (simp add: linearized_def)
  with inv(1) logged_reachable [OF assms(2)] show ?thesis by (simp add: acknowledged_def)
qed

section \<open>A run of two goroutines\<close>

lemma fx_fresh: "fresh_reads fx_api fx_current"
  by (auto simp: fresh_reads_def fx_api_def split: option.splits)

text \<open>A scheduler that lets the goroutines of a list run one after the other, each for one step.\<close>

definition attempt :: "'w runtime \<Rightarrow> 'w kube_client \<Rightarrow> nat \<Rightarrow> 'w conf \<Rightarrow> 'w conf" where
  "attempt R K i c =
     (case c_procs c i of
        None \<Rightarrow> c
      | Some g \<Rightarrow>
          if runnable (g_pc g)
          then (let (g', s') = run_state (turn R K g) (c_st c)
                in \<lparr>c_st = s', c_locks = release g g' (c_locks c),
                    c_procs = (c_procs c)(i \<mapsto> g'), c_log = c_log c @ committed i g g'\<rparr>)
          else if awaiting (g_pc g) \<and> c_locks c (lock_name g) = None
          then c\<lparr>c_locks := (c_locks c)(lock_name g \<mapsto> i), c_procs := (c_procs c)(i \<mapsto> at_pc g Rechecking)\<rparr>
          else c)"

lemma attempt_reachable:
  assumes "reachable R K s0 c"
  shows "reachable R K s0 (attempt R K i c)"
proof (cases "c_procs c i")
  case (Some g)
  show ?thesis
  proof (cases "runnable (g_pc g)")
    case True
    obtain g' s' where t: "run_state (turn R K g) (c_st c) = (g', s')" by fastforce
    show ?thesis
      using reachable_step [OF assms interleave.step [OF Some True t]] Some True t by (simp add: attempt_def)
  next
    case False
    then show ?thesis
      using reachable_step [OF assms interleave.lock [OF Some]] assms Some by (simp add: attempt_def)
  qed
qed (use assms in \<open>simp add: attempt_def\<close>)

lemma schedule_reachable: "reachable R K s0 c \<Longrightarrow> reachable R K s0 (fold (attempt R K) is c)"
  by (induction "is" arbitrary: c) (auto intro: attempt_reachable)

lemma attempt_edit:
  "c_procs (attempt R K j c) i = Some g \<Longrightarrow> \<exists>h. c_procs c i = Some h \<and> g_edit h = g_edit g"
  by (auto simp: attempt_def Let_def goroutine_kept split: option.splits prod.splits if_splits)

lemma schedule_edit:
  "c_procs (fold (attempt R K) js c) i = Some g \<Longrightarrow> \<exists>h. c_procs c i = Some h \<and> g_edit h = g_edit g"
proof (induction js arbitrary: c)
  case (Cons j js)
  then obtain h where "c_procs (attempt R K j c) i = Some h" "g_edit h = g_edit g" by auto
  then show ?case using attempt_edit [of R K j c i h] by auto
qed simp

definition fx_pair :: "edit \<Rightarrow> edit \<Rightarrow> fx_versions conf" where
  "fx_pair e f = (initial_conf fx_st0)
     \<lparr>c_procs := [0 \<mapsto> update_goroutine fx_cluster e, 1 \<mapsto> update_goroutine fx_cluster f]\<rparr>"

definition fx_two :: "fx_versions conf" where
  "fx_two = fx_pair (\<lambda>d. d(''a'' \<mapsto> ''1'')) (\<lambda>d. d(''b'' \<mapsto> ''2''))"

lemma fx_pair_reachable: "reachable fx_rt0 fx_api fx_st0 (fx_pair e f)"
proof -
  have "reachable fx_rt0 fx_api fx_st0 (initial_conf fx_st0)" by (rule reachable_init)
  from reachable_step [OF reachable_step [OF this interleave.spawn [of _ 0 _ _ fx_cluster e]]
      interleave.spawn [of _ 1 _ _ fx_cluster f]]
  show ?thesis by (simp add: fx_pair_def initial_conf_def)
qed

lemmas fx_two_reachable = fx_pair_reachable [of "\<lambda>d. d(''a'' \<mapsto> ''1'')" "\<lambda>d. d(''b'' \<mapsto> ''2'')", folded fx_two_def]

text \<open>Both find no secret; the first gets the lock, creates the secret and reads it; the second then
  gets the lock, finds the secret and reads it too; the first updates it, the second's update
  conflicts, and its retry succeeds.\<close>

definition fx_raced :: "fx_versions conf" where
  "fx_raced = fold (attempt fx_rt0 fx_api) [0, 1, 0, 1, 0, 0, 0, 1, 1, 0, 1, 1, 1] fx_two"

lemma fx_raced_reachable: "reachable fx_rt0 fx_api fx_st0 fx_raced"
  unfolding fx_raced_def by (rule schedule_reachable [OF fx_two_reachable])

theorem creation_is_exclusive_witness:
  "length (created (''c1'', ''team'') (new_events fx_st0 fx_raced)) \<le> 1 \<and>
   filter raced (new_events fx_st0 fx_raced) = []"
  using creation_is_exclusive [OF fx_api_laws fx_fresh fx_raced_reachable] unfolding filter_empty_conv by blast

lemma fx_raced_stored: "\<exists>x. fx_current (world (c_st fx_raced)) (''c1'', ''team'') = Some x"
proof -
  have "(case fx_current (world (c_st fx_raced)) (''c1'', ''team'') of None \<Rightarrow> False | Some x \<Rightarrow> True)"
    by code_simp
  then show ?thesis by (simp split: option.splits)
qed

theorem updates_linearize_witness:
  "map fst (c_log fx_raced) = [0, 1] \<and>
   (\<exists>x t. fx_current (world (c_st fx_raced)) (''c1'', ''team'') = Some x \<and>
      data_of x = replay (''c1'', ''team'') (c_log fx_raced) (initial_data t))"
proof
  show "map fst (c_log fx_raced) = [0, 1]" by code_simp
  have "fx_current (world fx_st0) (''c1'', ''team'') = None"
    by (simp add: fx_current_def fx_history_def fx_st0_def)
  then show "\<exists>x t. fx_current (world (c_st fx_raced)) (''c1'', ''team'') = Some x \<and>
      data_of x = replay (''c1'', ''team'') (c_log fx_raced) (initial_data t)"
    using updates_linearize [OF fx_api_laws fx_raced_reachable] fx_raced_stored
    by (fastforce simp: starts_with_def)
qed

theorem alone_is_update_state_witness:
  "\<exists>g' s' r. alone fx_rt0 fx_api (update_goroutine fx_cluster (\<lambda>d. d(''a'' \<mapsto> ''1''))) fx_st0 g' s' \<and>
     g_pc g' = Finished r"
  using alone_is_update_state [OF prod.collapse [symmetric],
      where g = "update_goroutine fx_cluster (\<lambda>d. d(''a'' \<mapsto> ''1''))" and R = fx_rt0 and K = fx_api
        and s = fx_st0]
  by (fastforce simp: update_goroutine_def)

theorem updates_return_witness:
  "\<exists>c. (advances fx_rt0 fx_api)\<^sup>*\<^sup>* fx_two c \<and> all_returned c"
proof -
  have "finite (dom (c_procs fx_two))" by (simp add: fx_two_def fx_pair_def)
  then show ?thesis using updates_return [OF fx_two_reachable] by blast
qed

end
