(* ===== verification/StateFlags.thy ===== *)
theory StateFlags
  imports StateRace
begin

text \<open>
  The writers of \<open>ClusterStateService\<close> as a type of operations, and the typing of the state
  secret: six of its keys are flags, whose values the readers compare with \<open>"true"\<close>. Every
  operation is an update loop around its edit, so what the loop keeps under interleaving holds of
  the operations.
\<close>

section \<open>Operations and their edits\<close>

datatype state_op =
    OpClusterProvisioning
  | OpClusterFailed string
  | OpClusterProvisioned string string string
  | OpKubernetesAPIReady
  | OpClusterReady string
  | OpAKSProvisionState string
  | OpClusterFQDN string
  | OpNodePoolsConfigured string
  | OpKubeSystemUID string
  | OpKubeconfig string

fun op_edit :: "state_op \<Rightarrow> edit" where
  "op_edit OpClusterProvisioning d = d(KeyClusterProvisioning \<mapsto> stateTrue)"
| "op_edit (OpClusterFailed reason) d =
     (let updates = [KeyClusterProvisioning \<mapsto> stateFalse, KeyClusterProvisioned \<mapsto> stateFalse,
                     KeyAKSProvisionState \<mapsto> ''Failed'']
      in d ++ (if reason \<noteq> [] then updates(''failure_reason'' \<mapsto> reason) else updates))"
| "op_edit (OpClusterProvisioned resource name rg) d =
     d ++ [KeyClusterProvisioning \<mapsto> stateFalse, KeyClusterProvisioned \<mapsto> stateTrue,
           KeyAKSResourceID \<mapsto> resource, KeyAKSClusterName \<mapsto> name, KeyResourceGroupName \<mapsto> rg]"
| "op_edit OpKubernetesAPIReady d = d(KeyKubernetesAPIReady \<mapsto> stateTrue)"
| "op_edit (OpClusterReady now) d =
     d ++ [KeyClusterAccess \<mapsto> stateTrue, KeyKubernetesAPIReady \<mapsto> stateTrue,
           KeyNodePoolsReady \<mapsto> stateTrue, KeyReadyAt \<mapsto> now]"
| "op_edit (OpAKSProvisionState st) d = d(KeyAKSProvisionState \<mapsto> st)"
| "op_edit (OpClusterFQDN fqdn) d = d(KeyAKSClusterFQDN \<mapsto> fqdn)"
| "op_edit (OpNodePoolsConfigured pools) d = d(KeyNodePoolsConfigured \<mapsto> pools)"
| "op_edit (OpKubeSystemUID uid) d = d(KeyKubeSystemUID \<mapsto> uid)"
| "op_edit (OpKubeconfig kubeconfig) d =
     d(KeyKubeConfig \<mapsto> kubeconfig, KeyKubeconfigPresent \<mapsto> stateTrue)"

definition run_op ::
  "'w runtime \<Rightarrow> 'w kube_client \<Rightarrow> kubernetes_cluster \<Rightarrow> state_op \<Rightarrow> ('w, go_error option) go" where
  "run_op R K kc p = update_attempts R K kc (op_edit p) 3 None"

text \<open>The operations of the sequential model are these loops.\<close>

lemma run_op_service:
  "SetClusterProvisioning R K kc = run_op R K kc OpClusterProvisioning"
  "SetClusterFailed R K kc reason = run_op R K kc (OpClusterFailed reason)"
  "SetClusterProvisioned R K kc resource name rg = run_op R K kc (OpClusterProvisioned resource name rg)"
  "SetKubernetesAPIReady R K kc = run_op R K kc OpKubernetesAPIReady"
  "SetClusterReady R K kc = do { now \<leftarrow> time_Now R; run_op R K kc (OpClusterReady (rt_rfc3339_utc R now)) }"
  "SetAKSProvisionState R K kc st = run_op R K kc (OpAKSProvisionState st)"
  "SetClusterFQDN R K kc fqdn = run_op R K kc (OpClusterFQDN fqdn)"
  "SetNodePoolsConfigured R K kc pools = run_op R K kc (OpNodePoolsConfigured pools)"
  "SetKubeSystemUID R K kc uid = run_op R K kc (OpKubeSystemUID uid)"
  "SetKubeconfig R K kc kubeconfig = run_op R K kc (OpKubeconfig kubeconfig)"
  unfolding state_operations run_op_def op_edit.simps Let_def by (rule refl)+

section \<open>Flags\<close>

definition flag_keys :: "string list" where
  "flag_keys = [KeyClusterProvisioning, KeyClusterProvisioned, KeyNodePoolsReady,
     KeyKubernetesAPIReady, KeyClusterAccess, KeyKubeconfigPresent]"

definition is_flag :: "string \<Rightarrow> bool" where
  "is_flag v \<longleftrightarrow> v = stateTrue \<or> v = stateFalse"

text \<open>Flags are flags, the kubeconfig flag is up exactly when there is one, and a ready cluster has
  its API and node pools ready.\<close>

definition well_typed :: "(string \<rightharpoonup> string) \<Rightarrow> bool" where
  "well_typed d \<longleftrightarrow>
     list_all (\<lambda>k. case d k of None \<Rightarrow> True | Some v \<Rightarrow> is_flag v) flag_keys \<and>
     (d KeyKubeconfigPresent = Some stateTrue \<longleftrightarrow> d KeyKubeConfig \<noteq> None) \<and>
     (d KeyClusterAccess = Some stateTrue \<longrightarrow>
        d KeyKubernetesAPIReady = Some stateTrue \<and> d KeyNodePoolsReady = Some stateTrue)"

lemma initial_well_typed: "well_typed (initial_data t)"
  by (simp add: well_typed_def flag_keys_def initial_data_def is_flag_def)

lemma op_edit_well_typed: "well_typed d \<Longrightarrow> well_typed (op_edit p d)"
  by (cases p) (auto simp: well_typed_def flag_keys_def is_flag_def Let_def)

lemma replay_well_typed:
  assumes "\<forall>e\<in>set log. \<exists>p. snd (snd e) = op_edit p"
  shows "well_typed d \<Longrightarrow> well_typed (replay k log d)"
  using assms
proof (induction log arbitrary: d)
  case (Cons e log)
  obtain i key edit where e: "e = (i, key, edit)" by (cases e)
  with Cons.prems(2) obtain p where "edit = op_edit p" by auto
  then have "well_typed (if key = k then edit d else d)"
    using Cons.prems(1) by (simp add: op_edit_well_typed)
  with Cons e show ?case by simp
qed simp

text \<open>C15. State secrets stay well typed under any interleaving of the service's operations: the six
  flags hold only \<open>true\<close> or \<open>false\<close>, the kubeconfig flag is up exactly when a kubeconfig is stored, and
  a cluster marked as accessible has its API server and node pools marked as ready.\<close>

theorem state_stays_well_typed:
  assumes laws: "api_laws R K stored versions" and reach: "reachable R K s0 c"
    and ops: "\<And>i g. c_procs c i = Some g \<Longrightarrow> \<exists>p. g_edit g = op_edit p"
    and typed: "\<And>k y. stored (world s0) k = Some y \<Longrightarrow> well_typed (data_of y)"
    and x: "stored (world (c_st c)) k = Some x"
  shows "well_typed (data_of x)"
proof -
  have "linearized stored s0 c k" by (rule log_invD(2) [OF log_inv_reachable [OF laws reach]])
  then obtain d where d: "starts_with stored s0 k d" "data_of x = replay k (c_log c) d"
    using x by (auto simp: linearized_def)
  have "well_typed d"
    using d(1) typed initial_well_typed by (auto simp: starts_with_def split: option.splits)
  moreover have "\<exists>p. snd (snd e) = op_edit p" if "e \<in> set (c_log c)" for e
    using logged_reachable [OF reach] that ops by (auto simp: logged_def)
  ultimately show ?thesis using d(2) replay_well_typed by auto
qed

definition fx_ops :: "fx_versions conf" where
  "fx_ops = fold (attempt fx_rt0 fx_api) [0, 0, 0, 0, 0, 1, 0, 1]
     (fx_pair (op_edit (OpKubeconfig ''apiVersion'')) (op_edit OpClusterProvisioning))"

theorem state_stays_well_typed_witness:
  "\<exists>x. fx_current (world (c_st fx_ops)) (''c1'', ''team'') = Some x \<and> well_typed (data_of x)"
proof -
  have "(case fx_current (world (c_st fx_ops)) (''c1'', ''team'') of None \<Rightarrow> False | Some x \<Rightarrow> True)"
    by code_simp
  then obtain x where x: "fx_current (world (c_st fx_ops)) (''c1'', ''team'') = Some x"
    by (auto split: option.splits)
  have reach: "reachable fx_rt0 fx_api fx_st0 fx_ops"
    unfolding fx_ops_def by (rule schedule_reachable [OF fx_pair_reachable])
  have "\<exists>p. g_edit g = op_edit p" if "c_procs fx_ops i = Some g" for i g
    using schedule_edit [OF that [unfolded fx_ops_def]]
    by (auto simp: fx_pair_def update_goroutine_def split: if_splits) metis+
  note ops = this
  have "well_typed (data_of x)"
  proof (rule state_stays_well_typed [OF fx_api_laws reach, rotated 2, OF x])
    show "\<exists>p. g_edit g = op_edit p" if "c_procs fx_ops i = Some g" for i g using ops that .
    show "well_typed (data_of y)" if "fx_current (world fx_st0) k = Some y" for k y
      using that by (simp add: fx_current_def fx_history_def fx_st0_def)
  qed
  with x show ?thesis by blast
qed

end
