(* ===== verification/ControlLoop.thy ===== *)
theory ControlLoop
  imports Reconciler
begin

text \<open>
  The operator over time. What has happened is the sequence of calls with their answers, the history;
  from it follow which resources carry the finalizer and which clusters may exist in Azure. The calls a
  run of \<open>Reconcile\<close> makes form a script that keeps finalizer and Azure in step whatever the world
  answers; \<open>ApiServer\<close> interleaves such scripts. A resource leaves the work queue only when nothing
  is left to do for it, and names that are edited orphan a cluster.
\<close>

section \<open>The history\<close>

type_synonym resource_key = "string \<times> string"  \<comment> \<open>name and namespace\<close>

type_synonym azure_key = "string \<times> string"  \<comment> \<open>resource group and cluster name\<close>

definition resource_key :: "kubernetes_cluster \<Rightarrow> resource_key" where
  "resource_key kc = (kc_Name kc, kc_Namespace kc)"

definition azure_key :: "kubernetes_cluster \<Rightarrow> azure_key" where
  "azure_key kc = (getResourceGroupName kc, getClusterName kc)"

definition carries_finalizer :: "kubernetes_cluster \<Rightarrow> bool" where
  "carries_finalizer kc \<longleftrightarrow> KubernetesClusterFinalizer \<in> set (kc_Finalizers kc)"

text \<open>
  The resources that carry the finalizer, with the Azure cluster they stand for: what the accepted
  updates say.
\<close>

fun hold :: "event \<Rightarrow> (resource_key \<rightharpoonup> azure_key) \<Rightarrow> (resource_key \<rightharpoonup> azure_key)" where
  "hold (KubeUpdateCluster c None) m =
     m(resource_key c := (if carries_finalizer c then Some (azure_key c) else None))"
| "hold _ m = m"

definition held :: "event list \<Rightarrow> (resource_key \<rightharpoonup> azure_key)" where
  "held h = fold hold h Map.empty"

text \<open>
  The Azure clusters that may exist because of the operator: asked for, successfully or not, and not
  reported as deleted since.
\<close>

fun track :: "event \<Rightarrow> azure_key set \<Rightarrow> azure_key set" where
  "track (AzClusterCreateOrUpdate rg cl c u) O' = insert (rg, cl) O'"
| "track (AzClusterDelete rg cl e) O' = (if gone e then O' - {(rg, cl)} else O')"
| "track _ O' = O'"

definition outstanding :: "event list \<Rightarrow> azure_key set" where
  "outstanding h = fold track h {}"

lemma history_snoc [simp]:
  "held [] = Map.empty" "outstanding [] = {}"
  "held (h @ [e]) = hold e (held h)" "outstanding (h @ [e]) = track e (outstanding h)"
  by (simp_all add: held_def outstanding_def)

section \<open>What a worker calls\<close>

text \<open>
  The documented behaviour of an update: the answer keeps name, namespace, specification and finalizers
  of the object sent.
\<close>

definition update_laws :: "'w kube_client \<Rightarrow> bool" where
  "update_laws K \<longleftrightarrow> (\<forall>kc w. same_spec (snd (fst (kube_Update K kc w))) kc)"

text \<open>The calls on behalf of a resource that carries the finalizer and is not being deleted.\<close>

fun on_behalf :: "kubernetes_cluster \<Rightarrow> event \<Rightarrow> bool" where
  "on_behalf kc (AzClusterCreateOrUpdate rg cl c u) \<longleftrightarrow> (rg, cl) = azure_key kc"
| "on_behalf kc (AzClusterDelete rg cl e) \<longleftrightarrow> False"
| "on_behalf kc (KubeUpdateCluster c u) \<longleftrightarrow> same_spec c kc"
| "on_behalf kc _ \<longleftrightarrow> True"

lemma same_spec_refl [simp]: "same_spec kc kc"
  by (simp add: same_spec_def)

lemma same_spec_trans: "same_spec a b \<Longrightarrow> same_spec b c \<Longrightarrow> same_spec a c"
  by (simp add: same_spec_def)

lemma same_spec_keys:
  "same_spec a b \<Longrightarrow> resource_key a = resource_key b \<and> azure_key a = azure_key b \<and>
     carries_finalizer a = carries_finalizer b"
  using same_spec_names [of a b] by (simp add: same_spec_def resource_key_def azure_key_def carries_finalizer_def)

lemma set_annotation_same_spec [simp]: "same_spec (set_annotation key v kc) kc' = same_spec kc kc'"
  by (simp add: same_spec_def set_annotation_def)

lemma ensure_annotations_same_spec [simp]: "same_spec (ensure_annotations kc) kc' = same_spec kc kc'"
  by (simp add: same_spec_def ensure_annotations_def)

lemma emits_bind_post:
  assumes "emits P m" and "\<And>s. Q (fst (run_state m s))" and "\<And>x. Q x \<Longrightarrow> emits P (f x)"
  shows "emits P (State_Monad.bind m f)"
  unfolding emits_def
proof
  fix s
  obtain x s1 where m: "run_state m s = (x, s1)" by fastforce
  then have "Q x" using assms(2) [of s] by simp
  obtain es where es: "trace s1 = trace s @ es" "\<forall>e\<in>set es. P e"
    using emitsD [OF assms(1) m] .
  obtain y s2 where f: "run_state (f x) s1 = (y, s2)" by fastforce
  obtain fs where "trace s2 = trace s1 @ fs" "\<forall>e\<in>set fs. P e"
    using emitsD [OF assms(3) [OF \<open>Q x\<close>] f] .
  with es m f show "\<exists>es. trace (snd (run_state (State_Monad.bind m f) s)) = trace s @ es \<and> (\<forall>e\<in>set es. P e)"
    by (intro exI [of _ "es @ fs"]) auto
qed

lemma secret_on_behalf: "is_secret_event e \<Longrightarrow> on_behalf kc e"
  by (cases e) (simp_all add: is_secret_event_def)

lemma emits_on_behalf_secrets: "emits is_secret_event m \<Longrightarrow> emits (on_behalf kc) m"
  by (erule emits_mono) (rule secret_on_behalf)

lemmas emits_state_on_behalf = emits_state_operations [THEN emits_on_behalf_secrets]
  emits_GetOrCreateState [THEN emits_on_behalf_secrets]

lemma emits_manager_on_behalf:
  assumes "cluster_manager M" and "same_spec kc' kc"
  shows "emits (on_behalf kc) (akm_ReconcileCluster M kc')"
  unfolding emits_def
proof
  fix s
  obtain x s' where run: "run_state (akm_ReconcileCluster M kc') s = (x, s')" by fastforce
  obtain es where es: "trace s' = trace s @ es" "\<forall>e\<in>set es. is_manager_event e"
    using emitsD [OF cluster_manager.emits_reconcile [OF assms(1)] run] .
  have own: "\<forall>e\<in>set es. own_write kc' e"
    using emitsD [OF cluster_manager.emits_own [OF assms(1)] run] es(1) by (metis same_append_eq)
  have "on_behalf kc e" if "is_manager_event e" "own_write kc' e" for e
    using that same_spec_names [OF assms(2)]
    by (cases e) (auto simp: is_manager_event_def own_write_def is_cluster_write_def azure_key_def
        is_pool_reconcile_event_def is_pool_event_def is_pool_write_def is_sizing_event_def is_vm_event_def
        is_class_event_def)
  with es own run show "\<exists>es. trace (snd (run_state (akm_ReconcileCluster M kc') s)) = trace s @ es \<and>
      (\<forall>e\<in>set es. on_behalf kc e)" by auto
qed

lemma updatePhase_answer:
  assumes "status_update_laws K"
  shows "same_spec (snd (fst (run_state (updatePhaseAndCondition R K kc phase ct status message) s))) kc"
  using updatePhase_calls [OF assms, of R kc phase ct status message s]
  by (metis prod.collapse)

lemma emits_uid_on_behalf:
  assumes "same_spec kc' kc"
  shows "emits (on_behalf kc) (fetchAndStoreKubeSystemUID r kc')"
proof -
  have guest: "emits (on_behalf kc) (guest_uid G c)" for G c
    unfolding guest_uid_def by (intro emits_intros) simp
  show ?thesis
    unfolding fetchAndStoreKubeSystemUID_def
    by (intro emits_intros emits_state_on_behalf guest emits_update_object) (simp_all add: assms)
qed

lemma uid_answer:
  assumes "update_laws K" and "rec_client r = K"
  shows "same_spec (snd (fst (run_state (fetchAndStoreKubeSystemUID r kc) s))) kc"
proof -
  have answer: "same_spec (snd (fst (kube_Update K (set_annotation a v kc) w))) kc" for a v w
    using assms(1) set_annotation_same_spec same_spec_trans unfolding update_laws_def
    by (meson same_spec_refl)
  show ?thesis
    using answer assms(2)
    by (simp add: fetchAndStoreKubeSystemUID_def update_object_def Let_def case_prod_beta
        split: sum.split option.split)
qed

lemma emits_status_on_behalf:
  assumes "same_spec kc' kc"
  shows "emits (on_behalf kc) (updateClusterStatus R K kc' aks phase)"
proof -
  have init: "same_spec (fst (run_state (initializeStatusState R kc') s)) kc" for s
    using assms by (simp add: initializeStatusState_def)
  have annotate: "emits (on_behalf kc) (annotate_cluster_id K aks kc1)" if "same_spec kc1 kc" for kc1
    unfolding annotate_cluster_id_def by (intro emits_intros) (simp_all add: that)
  show ?thesis
    unfolding updateClusterStatus_def
    by (rule emits_bind_post [where Q = "\<lambda>kc1. same_spec kc1 kc"])
      (intro emits_intros emits_status_reads init annotate; simp)+
qed

context cluster_manager
begin

lemma emits_fetch_on_behalf: "emits (on_behalf kc) (fetchAndStoreKubeconfig r M kc')"
proof -
  have "emits (on_behalf kc) (akm_GetClusterCredentials M kc')"
    by (rule emits_mono [OF emits_credentials]) auto
  then show ?thesis
    unfolding fetchAndStoreKubeconfig_def by (intro emits_intros emits_state_on_behalf)
qed

lemma emits_access_on_behalf:
  assumes "same_spec kc' kc"
  shows "emits (on_behalf kc) (record_access r M kc')"
  unfolding record_access_def Let_def
  by (intro emits_intros emits_fetch_on_behalf emits_state_on_behalf emits_uid_on_behalf assms)

lemma access_answer:
  assumes "update_laws (rec_client r)"
  shows "same_spec (fst (run_state (record_access r M kc) s)) kc"
  using uid_answer [OF assms refl, of kc] by (simp add: record_access_def Let_def case_prod_beta)

lemma emits_record_on_behalf:
  assumes "update_laws (rec_client r)" and "same_spec kc' kc"
  shows "emits (on_behalf kc) (record_cluster r M kc' aks)"
proof -
  have access: "same_spec (fst (run_state (if b then record_access r M kc' else ret kc') s)) kc" for b s
    using same_spec_trans [OF access_answer [OF assms(1), of kc' s] assms(2)] assms(2) by simp
  have tail: "emits (on_behalf kc)
      (State_Monad.bind (if b then record_access r M kc' else ret kc')
        (\<lambda>kc1. if b' then do { _ \<leftarrow> updateClusterStatus R K kc1 aks phase; ret () } else ret ()))"
    for b b' R K phase
    by (rule emits_bind_post [where Q = "\<lambda>kc1. same_spec kc1 kc", OF _ access])
      (intro emits_intros emits_access_on_behalf emits_status_on_behalf assms; assumption)+
  show ?thesis
    unfolding record_cluster_def record_aks_state_def Let_def
    by (intro emits_intros tail emits_state_on_behalf)
qed

lemma emits_reconcile_on_behalf:
  assumes "update_laws (rec_client r)" and "same_spec kc' kc"
  shows "emits (on_behalf kc) (reconcileCluster r M kc')"
  unfolding reconcileCluster_def
  by (intro emits_intros emits_manager_on_behalf emits_record_on_behalf emits_updatePhase
      emits_state_on_behalf cluster_manager_axioms assms) simp_all

end

section \<open>Scripts\<close>

text \<open>
  The calls a worker still has to make. Cluster writes go to its own cluster, and creates come from a
  holder of the finalizer; the finalizer is taken away only after a deletion that succeeded.
\<close>

fun removal :: "event \<Rightarrow> bool" where
  "removal (KubeUpdateCluster c u) \<longleftrightarrow> \<not> carries_finalizer c"
| "removal _ \<longleftrightarrow> False"

fun deletion :: "event \<Rightarrow> bool" where
  "deletion (AzClusterDelete rg cl e) \<longleftrightarrow> True"
| "deletion _ \<longleftrightarrow> False"

definition removes :: "event list \<Rightarrow> bool" where
  "removes es \<longleftrightarrow> list_ex removal es"

definition deletes :: "event list \<Rightarrow> bool" where
  "deletes es \<longleftrightarrow> list_ex deletion es"

fun addition :: "event \<Rightarrow> bool" where
  "addition (KubeUpdateCluster c u) \<longleftrightarrow> carries_finalizer c"
| "addition _ \<longleftrightarrow> False"

definition adds :: "event list \<Rightarrow> bool" where
  "adds es \<longleftrightarrow> list_ex addition es"

fun lawful :: "resource_key \<Rightarrow> azure_key \<Rightarrow> bool \<Rightarrow> event \<Rightarrow> event list \<Rightarrow> bool" where
  "lawful k a b (AzClusterCreateOrUpdate rg cl c u) es \<longleftrightarrow> b \<and> (rg, cl) = a"
| "lawful k a b (AzClusterDelete rg cl e) es \<longleftrightarrow> (rg, cl) = a \<and> (\<not> gone e \<longrightarrow> \<not> removes es)"
| "lawful k a b (KubeUpdateCluster c u) es \<longleftrightarrow>
     resource_key c = k \<and> (if carries_finalizer c then azure_key c = a else \<not> b \<and> \<not> deletes es)"
| "lawful k a b _ es \<longleftrightarrow> True"

fun script :: "resource_key \<Rightarrow> azure_key \<Rightarrow> bool \<Rightarrow> event list \<Rightarrow> bool" where
  "script k a b [] \<longleftrightarrow> True"
| "script k a b (e # es) \<longleftrightarrow> lawful k a b e es \<and> script k a b es"

lemma removes_simps [simp]:
  "\<not> removes []" "removes (e # es) \<longleftrightarrow> removal e \<or> removes es" "removes (xs @ ys) \<longleftrightarrow> removes xs \<or> removes ys"
  "\<not> deletes []" "deletes (e # es) \<longleftrightarrow> deletion e \<or> deletes es" "deletes (xs @ ys) \<longleftrightarrow> deletes xs \<or> deletes ys"
  "\<not> adds []" "adds (e # es) \<longleftrightarrow> addition e \<or> adds es" "adds (xs @ ys) \<longleftrightarrow> adds xs \<or> adds ys"
  by (auto simp: removes_def deletes_def adds_def)

lemma secrets_remove_nothing:
  "\<forall>v\<in>set es. is_secret_event v \<Longrightarrow> \<not> removes es \<and> \<not> deletes es \<and> \<not> adds es"
proof (induction es)
  case (Cons e es)
  then show ?case by (cases e) (simp_all add: is_secret_event_def)
qed simp

lemma script_secrets: "\<forall>v\<in>set es. is_secret_event v \<Longrightarrow> script k a b (es @ fs) \<longleftrightarrow> script k a b fs"
proof (induction es)
  case (Cons e es)
  then show ?case by (cases e) (simp_all add: is_secret_event_def)
qed simp

lemma script_on_behalf:
  assumes "carries_finalizer kc" and "\<forall>e\<in>set es. on_behalf kc e"
  shows "script (resource_key kc) (azure_key kc) True es \<and> \<not> removes es"
  using assms(2)
proof (induction es)
  case (Cons e es)
  then show ?case using assms(1) same_spec_keys by (cases e) auto
qed simp

lemma script_deletion:
  assumes post: "if gone e
      then \<exists>secrets. (\<forall>v\<in>set secrets. is_secret_event v) \<and>
        (post = secrets \<or> (\<exists>c u. post = secrets @ [KubeUpdateCluster c u] \<and> released kc c))
      else post = []"
  shows "script (resource_key kc) (azure_key kc) False
      ([KubeUpdateStatus c0 e0, AzClusterDelete (getResourceGroupName kc) (getClusterName kc) e] @ post) \<and> \<not> adds post"
proof (cases "gone e")
  case True
  then obtain secrets where secrets: "\<forall>v\<in>set secrets. is_secret_event v"
    "post = secrets \<or> (\<exists>c u. post = secrets @ [KubeUpdateCluster c u] \<and> released kc c)"
    using post by auto
  have "resource_key c = resource_key kc \<and> \<not> carries_finalizer c" if "released kc c" for c
    using that by (auto simp: released_def resource_key_def carries_finalizer_def)
  then have "script (resource_key kc) (azure_key kc) False post \<and> \<not> adds post"
    using secrets script_secrets [OF secrets(1), of "resource_key kc" "azure_key kc" False "[]"]
      secrets_remove_nothing [OF secrets(1)]
    by (auto simp: script_secrets)
  with True show ?thesis by (simp add: azure_key_def)
next
  case False
  with post show ?thesis by (simp add: azure_key_def)
qed

lemma emits_live:
  assumes M: "cluster_manager M" and K: "status_update_laws (rec_client r)" "update_laws (rec_client r)"
    and fin: "kube_ContainsFinalizer (rec_client r) kc KubernetesClusterFinalizer"
  shows "emits (on_behalf kc) (live_part r M kc)"
proof -
  have phase: "same_spec (fst (run_state (if b then do {
        (u, kc') \<leftarrow> updatePhaseAndCondition R (rec_client r) kc p ct st m; ret kc' } else ret kc) s)) kc"
    for b R p ct st m s
    using updatePhase_answer [OF K(1), of R kc p ct st m s] by (simp add: case_prod_beta)
  have rest: "emits (on_behalf kc) (State_Monad.bind (if b then do {
        (u, kc') \<leftarrow> updatePhaseAndCondition R (rec_client r) kc p ct st m; ret kc' } else ret kc)
        (reconcileCluster r M))" for b R p ct st m
    by (rule emits_bind_post [where Q = "\<lambda>kc1. same_spec kc1 kc", OF _ phase])
      (intro emits_intros emits_updatePhase cluster_manager.emits_reconcile_on_behalf [OF M K(2)]; simp)+
  show ?thesis
    unfolding live_part_def
    by (rule emits_bind, rule emits_state_on_behalf, rule emits_if, use fin in simp, rule rest)
qed

lemma emits_live_unheld:
  assumes "\<not> kube_ContainsFinalizer (rec_client r) kc KubernetesClusterFinalizer"
  shows "emits (\<lambda>e. is_secret_event e \<or>
      (\<exists>u. e = KubeUpdateCluster (kube_AddFinalizer (rec_client r) kc KubernetesClusterFinalizer) u))
    (live_part r M kc)"
  (is "emits ?P _")
proof -
  have state: "emits ?P (GetOrCreateState R K kc)" for R K
    by (rule emits_mono [OF emits_GetOrCreateState]) simp
  have add: "emits ?P (update_object K (kube_AddFinalizer (rec_client r) kc KubernetesClusterFinalizer))" for K
    by (rule emits_update_object) simp
  show ?thesis
    unfolding live_part_def
    by (rule emits_bind, rule state, rule emits_if, intro emits_intros add, use assms in simp)
qed

lemma script_unheld:
  assumes "resource_key c = k" and "azure_key c = a" and "carries_finalizer c"
    and "\<forall>e\<in>set es. is_secret_event e \<or> (\<exists>u. e = KubeUpdateCluster c u)"
  shows "script k a False es \<and> \<not> removes es"
  using assms(4)
proof (induction es)
  case (Cons e es)
  then show ?case using assms(1-3) by (cases e) (auto simp: is_secret_event_def)
qed simp

lemma script_live:
  assumes M: "cluster_manager M"
    and K: "finalizer_laws (rec_client r)" "status_update_laws (rec_client r)" "update_laws (rec_client r)"
    and run: "run_state (live_part r M kc) s = (x, s')"
  obtains es where "trace s' = trace s @ es"
    and "script (resource_key kc) (azure_key kc) (carries_finalizer kc) es" and "\<not> removes es"
proof (cases "carries_finalizer kc")
  case True
  then have "kube_ContainsFinalizer (rec_client r) kc KubernetesClusterFinalizer"
    using K(1) by (simp add: finalizer_laws_def carries_finalizer_def)
  then obtain es where es: "trace s' = trace s @ es" "\<forall>e\<in>set es. on_behalf kc e"
    using emitsD [OF emits_live [OF M K(2,3)] run] by metis
  then show ?thesis using script_on_behalf [OF True] True that by metis
next
  case False
  define c where "c = kube_AddFinalizer (rec_client r) kc KubernetesClusterFinalizer"
  have no: "\<not> kube_ContainsFinalizer (rec_client r) kc KubernetesClusterFinalizer"
    and "c = kc\<lparr>kc_Finalizers := kc_Finalizers kc @ [KubernetesClusterFinalizer]\<rparr>"
    using K(1) False by (simp_all add: c_def finalizer_laws_def carries_finalizer_def)
  then have c: "resource_key c = resource_key kc" "azure_key c = azure_key kc" "carries_finalizer c"
    by (simp_all add: resource_key_def azure_key_def carries_finalizer_def getResourceGroupName_def getClusterName_def)
  obtain es where "trace s' = trace s @ es" "\<forall>e\<in>set es. is_secret_event e \<or> (\<exists>u. e = KubeUpdateCluster c u)"
    using emitsD [OF emits_live_unheld [OF no] run] unfolding c_def by metis
  with script_unheld [OF c] False that show ?thesis by metis
qed

text \<open>Every run of \<open>Reconcile\<close> is such a script.\<close>

lemma reconcile_modes:
  assumes M: "\<And>M. rec_AKSClusterManager r = Some M \<Longrightarrow> cluster_manager M"
    and K: "finalizer_laws (rec_client r)" "status_update_laws (rec_client r)" "update_laws (rec_client r)"
    and run: "run_state (Reconcile r name namespace) s = (x, s')" and new: "trace s' = trace s @ es"
  obtains (stopping) "\<And>k a b. script k a b es" "\<not> removes es" "\<not> adds es"
    | (removing) kc where "fst (kube_Get (rec_client r) name namespace (world s)) = Inr kc"
      "kc_DeletionTimestamp kc \<noteq> None" "script (resource_key kc) (azure_key kc) False es"
      "removes es \<longrightarrow> deletes es" "\<not> adds es"
    | (serving) kc where "fst (kube_Get (rec_client r) name namespace (world s)) = Inr kc"
      "kc_DeletionTimestamp kc = None" "script (resource_key kc) (azure_key kc) (carries_finalizer kc) es"
      "\<not> removes es"
proof -
  let ?s1 = "after_get r name namespace s"
  define ge where "ge = KubeGetCluster name namespace (sum_error (fst (kube_Get (rec_client r) name namespace (world s))))"
  have ge [simp]: "lawful k a b ge fs" "\<not> removal ge" "\<not> deletion ge" "\<not> addition ge" for k a b fs
    by (simp_all add: ge_def)
  have stop: thesis if "s' = ?s1"
  proof -
    have "es = [ge]" using that new by (simp add: ge_def)
    then show thesis by (intro stopping) simp_all
  qed
  show thesis
    using run
  proof (cases rule: Reconcile_parts)
    case (deleted kc M' y)
    from handleDeletion_calls [OF M [OF deleted(2)] K(1,2) deleted(5)]
    obtain c e0 e post where calls: "trace s' = trace ?s1 @
        [KubeUpdateStatus c e0, AzClusterDelete (getResourceGroupName kc) (getClusterName kc) e] @ post"
      and post: "if gone e
        then \<exists>secrets. (\<forall>v\<in>set secrets. is_secret_event v) \<and>
          (post = secrets \<or> (\<exists>c u. post = secrets @ [KubeUpdateCluster c u] \<and> released kc c))
        else post = []"
      by (auto split: if_splits) blast+
    then have es: "es = ge # [KubeUpdateStatus c e0, AzClusterDelete (getResourceGroupName kc) (getClusterName kc) e] @ post"
      using new by (simp add: ge_def)
    show ?thesis
      by (rule removing [OF deleted(1,4)]) (use script_deletion [OF post, of c e0] es in simp_all)
  next
    case (live kc M')
    obtain fs where "trace s' = trace ?s1 @ fs" and
      fs: "script (resource_key kc) (azure_key kc) (carries_finalizer kc) fs" "\<not> removes fs"
      by (rule script_live [OF M [OF live(2)] K live(5)])
    then have "es = ge # fs" using new by (simp add: ge_def)
    then show ?thesis by (intro serving [OF live(1,4)]) (use fs in simp_all)
  qed (use stop in blast)+
qed

text \<open>
  A worker that still has to take the finalizer away has been told that the cluster is gone; it does not
  count as holding the resource any more.
\<close>

definition letting_go :: "event list \<Rightarrow> bool" where
  "letting_go es \<longleftrightarrow> removes es \<and> \<not> deletes es"

lemma script_holder: "script k a True es \<Longrightarrow> \<not> removes es"
proof (induction es)
  case (Cons e es)
  then show ?case by (cases e) (auto split: if_splits)
qed simp

section \<open>A resource is dropped only when it is done\<close>

lemma secrets_change_nothing:
  "\<forall>v\<in>set es. is_secret_event v \<Longrightarrow> fold track es O' = O'"
  "\<forall>v\<in>set es. is_secret_event v \<Longrightarrow> fold hold es m = m"
  by (induction es arbitrary: O' m) (auto simp: is_secret_event_def)

lemma live_part_requeued: "fst (run_state (live_part r M kc) s) \<noteq> Returned (0, None)"
proof -
  have "fst (run_state (reconcileCluster r M kc') s) \<noteq> Returned (0, None)" for kc' s
    unfolding reconcile_outcome
    by (auto simp: ControllerRequeueDelay_def split: outcome.splits prod.splits option.splits)
  then show ?thesis
    by (auto simp: live_part_def ControllerRequeueDelay_def split: prod.splits option.splits)
qed

lemma deletion_done:
  assumes M: "cluster_manager M" and K: "finalizer_laws (rec_client r)" "status_update_laws (rec_client r)"
    and run: "run_state (handleDeletion r M kc) s = ((0, None), s')"
  shows "azure_key kc \<notin> outstanding (trace s') \<and>
     (carries_finalizer kc \<longrightarrow> held (trace s') (resource_key kc) = None)"
proof -
  have "ControllerRequeueError \<noteq> 0" by (simp add: ControllerRequeueError_def)
  with handleDeletion_calls [OF M K run] obtain c0 e0 e post secrets where
    t: "trace s' = trace s @ [KubeUpdateStatus c0 e0, AzClusterDelete (getResourceGroupName kc) (getClusterName kc) e] @ post"
    and gone: "gone e" and secrets: "\<forall>v\<in>set secrets. is_secret_event v"
    and post: "if carries_finalizer kc then \<exists>c. post = secrets @ [KubeUpdateCluster c None] \<and> released kc c
       else post = secrets"
    by (auto simp: carries_finalizer_def split: if_splits)
  show ?thesis
  proof (cases "carries_finalizer kc")
    case True
    then obtain c where c: "post = secrets @ [KubeUpdateCluster c None]" "released kc c" using post by auto
    then have "resource_key c = resource_key kc" "\<not> carries_finalizer c"
      by (auto simp: released_def resource_key_def carries_finalizer_def)
    then show ?thesis
      using t gone secrets by (simp add: c(1) outstanding_def held_def secrets_change_nothing azure_key_def)
  next
    case False
    then show ?thesis using t gone secrets post by (simp add: outstanding_def secrets_change_nothing azure_key_def)
  qed
qed

text \<open>C12. A resource leaves the work queue only when nothing is left to do: when \<open>Reconcile\<close>
  asks neither for a retry nor for another call, the resource is gone, or it is being deleted, its
  cluster is no longer outstanding in Azure and it no longer holds the finalizer. In every other case
  the work queue hands it out again.\<close>

theorem requeued_until_done:
  assumes M: "\<And>M. rec_AKSClusterManager r = Some M \<Longrightarrow> cluster_manager M"
    and K: "finalizer_laws (rec_client r)" "status_update_laws (rec_client r)"
    and run: "run_state (Reconcile r name namespace) s = (Returned (0, None), s')"
  shows "(\<exists>err. fst (kube_Get (rec_client r) name namespace (world s)) = Inl err \<and> IsNotFound err) \<or>
     (\<exists>kc. fst (kube_Get (rec_client r) name namespace (world s)) = Inr kc \<and> kc_DeletionTimestamp kc \<noteq> None \<and>
        azure_key kc \<notin> outstanding (trace s') \<and>
        (carries_finalizer kc \<longrightarrow> held (trace s') (resource_key kc) = None))"
proof -
  show ?thesis
    using run
  proof (cases rule: Reconcile_parts)
    case (absent err)
    then show ?thesis by (auto split: if_splits)
  next
    case (unready kc err)
    then show ?thesis by simp
  next
    case (deleted kc M' y)
    then have "run_state (handleDeletion r M' kc) (after_get r name namespace s) = ((0, None), s')" by simp
    from deletion_done [OF M [OF deleted(2)] K this] deleted(1,4) show ?thesis by blast
  next
    case (live kc M')
    then show ?thesis using live_part_requeued [of r M' kc "after_get r name namespace s"] by simp
  qed
qed

text \<open>C24. That the fields naming the Azure cluster are not edited while the finalizer is there is
  needed. Take a resource whose finalizer stands for a cluster the operator has asked Azure for and has
  not been told is gone, and whose names have been edited since. A run that finds it marked for deletion
  and ends with nothing left to do has asked Azure to delete the cluster of the new names and no other,
  and has then taken the finalizer away: the cluster the resource was created as is still outstanding,
  and the resource does not hold it any more.\<close>

theorem edited_names_orphan:
  assumes M: "cluster_manager M" and K: "finalizer_laws (rec_client r)" "status_update_laws (rec_client r)"
    and wired: "rec_AKSClusterManager r = Some M" "rec_hasStateService r"
    and got: "fst (kube_Get (rec_client r) name namespace (world s)) = Inr kc" "kc_DeletionTimestamp kc \<noteq> None"
      "carries_finalizer kc"
    and old: "held (trace s) (resource_key kc) = Some a" "a \<in> outstanding (trace s)"
    and edited: "azure_key kc \<noteq> a"
    and run: "run_state (Reconcile r name namespace) s = (Returned (0, None), s')"
  shows "(\<exists>c e0 e secrets c'. trace s' = trace s @ [KubeGetCluster name namespace None, KubeUpdateStatus c e0,
        AzClusterDelete (getResourceGroupName kc) (getClusterName kc) e] @ secrets @ [KubeUpdateCluster c' None] \<and>
        gone e \<and> (\<forall>v\<in>set secrets. is_secret_event v)) \<and>
     (getResourceGroupName kc, getClusterName kc) \<noteq> a \<and>
     a \<in> outstanding (trace s') \<and> held (trace s') (resource_key kc) = None"
proof -
  let ?s1 = "after_get r name namespace s"
  have del: "run_state (handleDeletion r M kc) ?s1 = ((0, None), s')"
    by (rule Reconcile_parts [OF run]) (use wired got in auto)
  have "ControllerRequeueError \<noteq> 0" by (simp add: ControllerRequeueError_def)
  with handleDeletion_calls [OF M K del] got(3) obtain c e0 e secrets c' where
    t: "trace s' = trace ?s1 @ [KubeUpdateStatus c e0, AzClusterDelete (getResourceGroupName kc) (getClusterName kc) e] @
        secrets @ [KubeUpdateCluster c' None]"
    and gone: "gone e" and secrets: "\<forall>v\<in>set secrets. is_secret_event v"
    by (auto simp: carries_finalizer_def split: if_splits)
  have t: "trace s' = trace s @ [KubeGetCluster name namespace None, KubeUpdateStatus c e0,
        AzClusterDelete (getResourceGroupName kc) (getClusterName kc) e] @ secrets @ [KubeUpdateCluster c' None]"
    using t got(1) by simp
  moreover have names: "(getResourceGroupName kc, getClusterName kc) \<noteq> a" using edited by (simp add: azure_key_def)
  moreover have "a \<in> outstanding (trace s')"
    using old(2) names secrets unfolding t by (simp add: outstanding_def secrets_change_nothing)
  moreover have "held (trace s') (resource_key kc) = None" using deletion_done [OF M K del] got(3) by blast
  ultimately show ?thesis using gone secrets by blast
qed

section \<open>A run of the operator\<close>

lemma outstanding_mono:
  "a \<in> fold track h S \<Longrightarrow> \<not> deletes es \<Longrightarrow> a \<in> fold track (h @ es) S"
proof (induction es rule: rev_induct)
  case (snoc e es)
  then show ?case by (cases e) auto
qed simp

lemma outstanding_created:
  assumes "AzClusterCreateOrUpdate rg cl c u \<in> set es" and "\<not> deletes es"
  shows "(rg, cl) \<in> outstanding (h @ es)"
proof -
  obtain xs ys where es: "es = xs @ AzClusterCreateOrUpdate rg cl c u # ys" using assms(1) by (meson split_list)
  then have "(rg, cl) \<in> fold track (h @ xs @ [AzClusterCreateOrUpdate rg cl c u]) {}" by simp
  from outstanding_mono [OF this, of ys] assms(2) show ?thesis by (simp add: outstanding_def es)
qed

definition fx_creator :: "fx_world aks_cluster_manager" where
  "fx_creator = aks_cluster_manager_of fx_runtime
     (NewAKSClusterManager (fx_azure (Inl fx_not_found) (Inr (fx_managed None)) None) None None)"

definition fx_unheld :: kubernetes_cluster where
  "fx_unheld = fx_cluster\<lparr>kc_Finalizers := []\<rparr>"

definition fx_operator :: "fx_world reconciler" where
  "fx_operator =
     \<lparr>rec_runtime = fx_runtime,
      rec_client = fx_kube\<lparr>kube_Get := \<lambda>n ns w. (Inr (if w = Map.empty then fx_cluster else fx_unheld), w)\<rparr>,
      rec_AKSClusterManager = Some fx_creator, rec_hasStateService = True, rec_guest = fx_guest\<rparr>"

lemma fx_creator_ok: "cluster_manager fx_creator"
  unfolding fx_creator_def
  by (rule cluster_services.manager_is_service) (simp add: cluster_services_def NewAKSClusterManager_def)

lemma fx_operator_laws:
  "finalizer_laws (rec_client fx_operator)" "status_update_laws (rec_client fx_operator)"
  "update_laws (rec_client fx_operator)" "maxConcurrentReconciles (rec_runtime fx_operator) = 5"
  by (simp_all add: fx_operator_def fx_kube_def finalizer_laws_def status_update_laws_def update_laws_def
      maxConcurrentReconciles_def fx_runtime_def TrimSpace_def)

lemma fx_keys [simp]:
  "resource_key fx_cluster = (''demo'', ''team'')" "resource_key fx_unheld = (''demo'', ''team'')"
  "azure_key fx_cluster = (''team'', ''c1'')" "carries_finalizer fx_cluster" "\<not> carries_finalizer fx_unheld"
  by (simp_all add: fx_unheld_def resource_key_def azure_key_def carries_finalizer_def fx_cluster_def
      getResourceGroupName_def getClusterName_def KubernetesClusterFinalizer_def)

lemma fx_first_run:
  "trace (snd (run_state (Reconcile fx_operator ''demo'' ''team'') (fx_state_with [(''c1'', ''team'') \<mapsto> fx_secret]))) =
     [KubeGetCluster ''demo'' ''team'' None, SecretGet ''c1'' ''team'' None, KubeUpdateCluster fx_cluster None]"
  by (simp add: Reconcile_def fx_operator_def fx_unheld_def GetOrCreateState_def secretService_GetSecret_def fx_kube_def
      fx_stored_def fx_secret_def fx_state_with_def fx_state_def state_secret_name_def fx_cluster_def
      update_object_def Let_def KubernetesClusterFinalizer_def)

lemma fx_creates:
  "\<exists>es c u. trace (snd (run_state (akm_ReconcileCluster fx_creator kc) s)) = trace s @ es \<and>
     AzClusterCreateOrUpdate (getResourceGroupName kc) (getClusterName kc) c u \<in> set es \<and>
     fst (run_state (akm_ReconcileCluster fx_creator kc) s) = Returned (Some (fx_managed None), None)"
proof -
  let ?M = "NewAKSClusterManager (fx_azure (Inl fx_not_found) (Inr (fx_managed None)) None) None None"
  obtain g s1 where g: "run_state (GetCluster ?M kc) s = (Inl g, s1)" and nf: "Contains (err_text g) ''not found''"
    and t1: "\<exists>e. trace s1 = trace s @ [AzClusterGet (getResourceGroupName kc) (getClusterName kc) e]"
    by (simp add: GetCluster_def NewAKSClusterManager_def fx_azure_def Let_def Contains_wrap_error fx_not_found_def)
  obtain y s2 where c: "run_state (CreateCluster fx_runtime ?M kc) s1 = (y, s2)" by fastforce
  have "cluster_services ?M" by (simp add: cluster_services_def NewAKSClusterManager_def)
  from cluster_services.one_write [OF this disjI1 [OF c]]
  obtain es c' e where es: "trace s2 = trace s1 @ es" "filter is_azure_write es =
      [AzClusterCreateOrUpdate (getResourceGroupName kc) (getClusterName kc) c' e]" by blast
  then have "AzClusterCreateOrUpdate (getResourceGroupName kc) (getClusterName kc) c' e \<in> set es"
    by (metis filter_eq_Cons_iff in_set_conv_decomp)
  moreover have "y = Returned (Inr (fx_managed None))"
    using c by (auto simp: CreateCluster_def NewAKSClusterManager_def fx_azure_def fx_managed_def Let_def
        split: prod.splits)
  then have "run_state (akm_ReconcileCluster fx_creator kc) s = (Returned (Some (fx_managed None), None), s2)"
    using g nf c by (simp add: fx_creator_def aks_cluster_manager_of_def ReconcileCluster_def)
  moreover obtain e0 where "trace s1 = trace s @ [AzClusterGet (getResourceGroupName kc) (getClusterName kc) e0]"
    using t1 by blast
  ultimately show ?thesis
    using es(1) by (intro exI [of _ "AzClusterGet (getResourceGroupName kc) (getClusterName kc) e0 # es"] exI [of _ c'] exI [of _ e]) simp
qed

lemma fx_reconciles:
  assumes "same_spec kc' fx_cluster"
  shows "\<exists>es c u. trace (snd (run_state (reconcileCluster fx_operator fx_creator kc') s)) = trace s @ es \<and>
     AzClusterCreateOrUpdate ''team'' ''c1'' c u \<in> set es"
proof -
  obtain s1 where run: "run_state (akm_ReconcileCluster fx_creator kc') s = (Returned (Some (fx_managed None), None), s1)"
    and "\<exists>es c u. trace s1 = trace s @ es \<and> AzClusterCreateOrUpdate ''team'' ''c1'' c u \<in> set es"
    using fx_creates [of kc' s] same_spec_keys [OF assms] by (auto simp: azure_key_def) (metis prod.collapse snd_conv)
  then obtain es c u where es: "trace s1 = trace s @ es" "AzClusterCreateOrUpdate ''team'' ''c1'' c u \<in> set es" by blast
  obtain s2 where rec: "run_state (record_cluster fx_operator fx_creator kc' (fx_managed None)) s1 = ((), s2)"
    by (cases "run_state (record_cluster fx_operator fx_creator kc' (fx_managed None)) s1") simp
  obtain fs where "trace s2 = trace s1 @ fs"
    using emitsD [OF cluster_manager.emits_record_on_behalf [OF fx_creator_ok fx_operator_laws(3) assms] rec] .
  moreover have "snd (run_state (reconcileCluster fx_operator fx_creator kc') s) = s2"
    using run rec by (simp add: reconcileCluster_def fx_managed_def)
  ultimately show ?thesis using es by (intro exI [of _ "es @ fs"]) auto
qed

lemma fx_second_run:
  "\<exists>es c u. trace (snd (run_state (Reconcile fx_operator ''demo'' ''team'') fx_state)) = es \<and>
     AzClusterCreateOrUpdate ''team'' ''c1'' c u \<in> set es \<and> \<not> deletes es \<and> (\<forall>e\<in>set es. on_behalf fx_cluster e)"
proof -
  define s1 where "s1 = fx_state\<lparr>trace := [KubeGetCluster ''demo'' ''team'' None]\<rparr>"
  have live: "run_state (Reconcile fx_operator ''demo'' ''team'') fx_state = run_state (live_part fx_operator fx_creator fx_cluster) s1"
    by (simp add: Reconcile_def live_part_def fx_operator_def s1_def fx_state_def Let_def fx_cluster_def del: bind_assoc)
  have fin: "kube_ContainsFinalizer (rec_client fx_operator) fx_cluster KubernetesClusterFinalizer"
    using fx_operator_laws(1) fx_keys(4) by (simp add: finalizer_laws_def carries_finalizer_def)
  obtain g s2 where g: "run_state (GetOrCreateState fx_runtime (rec_client fx_operator) fx_cluster) s1 = (g, s2)" by fastforce
  obtain p s3 where p: "run_state (updatePhaseAndCondition fx_runtime (rec_client fx_operator) fx_cluster PhaseCreating
      ConditionClusterProvisioned ConditionStatusWorking ''Cluster creation initiated'') s2 = (p, s3)" by fastforce
  have "same_spec (snd p) fx_cluster"
    using updatePhase_answer [OF fx_operator_laws(2)] p by (metis fst_conv)
  from fx_reconciles [OF this, of s3]
  obtain es c u where es: "trace (snd (run_state (reconcileCluster fx_operator fx_creator (snd p)) s3)) = trace s3 @ es"
    "AzClusterCreateOrUpdate ''team'' ''c1'' c u \<in> set es" by blast
  have "run_state (live_part fx_operator fx_creator fx_cluster) s1 = run_state (reconcileCluster fx_operator fx_creator (snd p)) s3"
    using g p fin by (simp add: live_part_def fx_operator_def fx_cluster_def fx_status_def case_prod_beta)
  moreover obtain fs where "trace (snd (run_state (live_part fx_operator fx_creator fx_cluster) s1)) = trace s1 @ fs"
    and fs: "\<forall>e\<in>set fs. on_behalf fx_cluster e"
    using emitsD [OF emits_live [OF fx_creator_ok fx_operator_laws(2,3) fin] prod.collapse [symmetric]] by blast
  moreover have "\<not> deletes fs"
  proof -
    have "\<not> deletion e" if "on_behalf fx_cluster e" for e using that by (cases e) simp_all
    with fs show ?thesis by (auto simp: deletes_def list_ex_iff)
  qed
  moreover have "AzClusterCreateOrUpdate ''team'' ''c1'' c u \<in> set (trace (snd (run_state (live_part fx_operator fx_creator fx_cluster) s1)))"
    using es calculation(1) by simp
  ultimately show ?thesis
    unfolding live by (intro exI [of _ "trace s1 @ fs"] exI [of _ c] exI [of _ u]) (use fs in \<open>auto simp: s1_def\<close>)
qed

lemma fx_deletion_ends:
  "fst (run_state (Reconcile (fx_reconciler fx_deleted) ''demo'' ''team'') s) = Returned (0, None)"
proof -
  have d: "fst (run_state (akm_DeleteCluster fx_manager kc) s) = None" for kc s
    by (simp add: fx_manager_def aks_cluster_manager_of_def DeleteCluster_def fx_cluster_manager_def
        NewAKSClusterManager_def fx_azure_def Let_def)
  have u: "fst (fst (run_state (update_object (rec_client (fx_reconciler fx_deleted)) kc) s)) = None" for kc s
    by (simp add: update_object_def fx_reconciler_def fx_kube_def)
  have "fst (run_state (handleDeletion (fx_reconciler fx_deleted) fx_manager fx_deleted) s) = (0, None)" for s
    by (simp add: handleDeletion_def Let_def case_prod_beta d u)
  moreover have "kc_DeletionTimestamp fx_deleted \<noteq> None" by (simp add: fx_deleted_def)
  ultimately show ?thesis by (auto simp: Reconcile_def Let_def case_prod_beta)
qed

definition fx_created :: "fx_world st" where
  "fx_created = fx_state\<lparr>trace := [AzClusterCreateOrUpdate ''team'' ''c1'' (fx_managed None) None]\<rparr>"

theorem requeued_until_done_witness:
  "(''team'', ''c1'') \<in> outstanding (trace fx_created) \<and>
   (''team'', ''c1'') \<notin> outstanding (trace (snd (run_state (Reconcile (fx_reconciler fx_deleted) ''demo'' ''team'') fx_created)))"
proof -
  have M: "cluster_manager M" if "rec_AKSClusterManager (fx_reconciler fx_deleted) = Some M" for M
    using that fx_manager_ok by simp
  have "run_state (Reconcile (fx_reconciler fx_deleted) ''demo'' ''team'') fx_created =
      (Returned (0, None), snd (run_state (Reconcile (fx_reconciler fx_deleted) ''demo'' ''team'') fx_created))"
    using fx_deletion_ends by (metis prod.collapse)
  from requeued_until_done [OF M _ _ this] have "azure_key fx_deleted \<notin>
      outstanding (trace (snd (run_state (Reconcile (fx_reconciler fx_deleted) ''demo'' ''team'') fx_created)))" by auto
  moreover have "azure_key fx_deleted = (''team'', ''c1'')"
    by (simp add: azure_key_def fx_deleted_def getResourceGroupName_def getClusterName_def fx_cluster_def)
  moreover have "outstanding (trace fx_created) = {(''team'', ''c1'')}" by (simp add: fx_created_def outstanding_def)
  ultimately show ?thesis by simp
qed

definition fx_moved :: kubernetes_cluster where
  "fx_moved = fx_deleted\<lparr>kc_Cluster := (kc_Cluster fx_deleted)\<lparr>cd_Project := ''other''\<rparr>\<rparr>"

definition fx_before_move :: "fx_world st" where
  "fx_before_move = fx_state\<lparr>trace := [KubeUpdateCluster fx_cluster None,
     AzClusterCreateOrUpdate ''team'' ''c1'' (fx_managed None) None]\<rparr>"

lemma fx_moved_ends:
  "fst (run_state (Reconcile (fx_reconciler fx_moved) ''demo'' ''team'') s) = Returned (0, None)"
proof -
  have d: "fst (run_state (akm_DeleteCluster fx_manager kc) s) = None" for kc s
    by (simp add: fx_manager_def aks_cluster_manager_of_def DeleteCluster_def fx_cluster_manager_def
        NewAKSClusterManager_def fx_azure_def Let_def)
  have u: "fst (fst (run_state (update_object (rec_client (fx_reconciler fx_moved)) kc) s)) = None" for kc s
    by (simp add: update_object_def fx_reconciler_def fx_kube_def)
  have "fst (run_state (handleDeletion (fx_reconciler fx_moved) fx_manager fx_moved) s) = (0, None)" for s
    by (simp add: handleDeletion_def Let_def case_prod_beta d u)
  moreover have "kc_DeletionTimestamp fx_moved \<noteq> None" by (simp add: fx_moved_def fx_deleted_def)
  ultimately show ?thesis by (auto simp: Reconcile_def Let_def case_prod_beta)
qed

theorem edited_names_orphan_witness:
  "\<exists>s' e. run_state (Reconcile (fx_reconciler fx_moved) ''demo'' ''team'') fx_before_move = (Returned (0, None), s') \<and>
     AzClusterDelete ''other'' ''c1'' e \<in> set (trace s') \<and>
     (''team'', ''c1'') \<in> outstanding (trace s') \<and> held (trace s') (''demo'', ''team'') = None"
proof -
  obtain s' where run: "run_state (Reconcile (fx_reconciler fx_moved) ''demo'' ''team'') fx_before_move = (Returned (0, None), s')"
    using fx_moved_ends by (metis prod.collapse)
  have kc: "kc_DeletionTimestamp fx_moved \<noteq> None" "carries_finalizer fx_moved" "resource_key fx_moved = (''demo'', ''team'')"
    "getResourceGroupName fx_moved = ''other''" "getClusterName fx_moved = ''c1''"
    by (simp_all add: carries_finalizer_def resource_key_def fx_moved_def fx_deleted_def fx_cluster_def
        KubernetesClusterFinalizer_def getResourceGroupName_def getClusterName_def)
  have old: "held (trace fx_before_move) (resource_key fx_moved) = Some (''team'', ''c1'')"
    "(''team'', ''c1'') \<in> outstanding (trace fx_before_move)" "azure_key fx_moved \<noteq> (''team'', ''c1'')"
    by (simp_all add: fx_before_move_def held_def outstanding_def kc azure_key_def)
  have E: "(\<exists>c e0 e secrets c'. trace s' = trace fx_before_move @ [KubeGetCluster ''demo'' ''team'' None,
        KubeUpdateStatus c e0, AzClusterDelete ''other'' ''c1'' e] @ secrets @ [KubeUpdateCluster c' None] \<and>
        gone e \<and> (\<forall>v\<in>set secrets. is_secret_event v)) \<and>
      (''other'', ''c1'') \<noteq> (''team'', ''c1'') \<and>
      (''team'', ''c1'') \<in> outstanding (trace s') \<and> held (trace s') (''demo'', ''team'') = None"
    using edited_names_orphan [OF fx_manager_ok _ _ _ _ _ kc(1,2) old run] unfolding kc by simp
  then obtain c e0 e secrets c' where "trace s' = trace fx_before_move @ [KubeGetCluster ''demo'' ''team'' None,
        KubeUpdateStatus c e0, AzClusterDelete ''other'' ''c1'' e] @ secrets @ [KubeUpdateCluster c' None]"
    by blast
  then have "AzClusterDelete ''other'' ''c1'' e \<in> set (trace s')" by simp
  with run E show ?thesis by blast
qed

end
