(* ===== verification/ApiServer.thy ===== *)
theory ApiServer
  imports ControlLoop
begin

text \<open>
  The operator over time, with the API server. The work queue of controller-runtime hands resources to
  a number of workers, one worker per resource at a time; each worker runs \<open>Reconcile\<close>, and the calls
  of the workers interleave. The process may die after any call and start again. Reads come from a cache
  that may lag: the API server keeps all versions of every resource, and a worker may read an old version, but none older than one its process has read before. An
  update is accepted only when the object it sends has the version that is current (optimistic locking),
  and one that is answered with an error may have taken effect nevertheless. Users create, edit, mark
  and remove resources at any time; they may not take the operator's finalizer away, nor edit the fields
  that name the Azure cluster while it is there.
\<close>

section \<open>Versions of a resource\<close>

type_synonym versions = "kubernetes_cluster option list"  \<comment> \<open>oldest first, \<open>None\<close> when absent\<close>

definition user_edit :: "resource_key \<Rightarrow> kubernetes_cluster option \<Rightarrow> kubernetes_cluster option \<Rightarrow> bool" where
  "user_edit k old new \<longleftrightarrow>
     (\<forall>y. new = Some y \<longrightarrow> resource_key y = k) \<and>
     (\<forall>x. old = Some x \<longrightarrow> carries_finalizer x \<longrightarrow>
        (\<exists>y. new = Some y \<and> carries_finalizer y \<and> azure_key y = azure_key x))"

text \<open>
  What the server stores for an accepted update of the object and of its status: the deletion timestamp
  is the server's own, the other part stays as it is, the version is new, and a resource marked as
  deleted goes with its last finalizer.
\<close>

definition accepted :: "string \<Rightarrow> kubernetes_cluster \<Rightarrow> kubernetes_cluster \<Rightarrow> kubernetes_cluster option" where
  "accepted v cur c =
     (let y = c\<lparr>kc_DeletionTimestamp := kc_DeletionTimestamp cur, kc_Status := kc_Status cur,
                kc_ResourceVersion := v\<rparr>
      in if kc_DeletionTimestamp cur \<noteq> None \<and> kc_Finalizers c = [] then None else Some y)"

definition accepted_status :: "string \<Rightarrow> kubernetes_cluster \<Rightarrow> kubernetes_cluster \<Rightarrow> kubernetes_cluster" where
  "accepted_status v cur c = cur\<lparr>kc_Status := kc_Status c, kc_ResourceVersion := v\<rparr>"

text \<open>
  One call of the worker of \<open>k\<close> at the server. \<open>b\<close> is the version the worker's object has, as
  a position in the versions: the one it read or the last answer it got.
\<close>

inductive serves :: "resource_key \<Rightarrow> event \<Rightarrow> versions \<Rightarrow> nat \<Rightarrow> versions \<Rightarrow> nat \<Rightarrow> bool"
  for k :: resource_key and e :: event and L :: versions and b :: nat where
  unchanged: "serves k e L b L b"
    if "\<And>c. e \<noteq> KubeUpdateCluster c None"
| updated: "serves k e L b (L @ [accepted v cur c]) (if u = None then length L else b)"
    if "e = KubeUpdateCluster c u" and "resource_key c = k" and "last L = Some cur" and "Suc b = length L"
| status_updated: "serves k e L b (L @ [Some (accepted_status v cur c)])
      (if Suc b = length L \<and> u = None then length L else b)"
    if "e = KubeUpdateStatus c u" and "last L = Some cur"

section \<open>Runs\<close>

record fleet =
  ft_history :: "event list"
  ft_versions :: "resource_key \<Rightarrow> versions"
  ft_seen :: "resource_key \<Rightarrow> nat"  \<comment> \<open>the youngest version this process has read\<close>
  ft_base :: "resource_key \<Rightarrow> nat"  \<comment> \<open>the version of the worker's object\<close>
  ft_work :: "resource_key \<rightharpoonup> event list"

text \<open>
  At first no call has been made and every resource has one version. A process that is started again
  reads resources at least as young as they are at that moment.
\<close>

inductive lives :: "'w reconciler \<Rightarrow> fleet \<Rightarrow> bool" for r :: "'w reconciler" where
  begun: "lives r \<lparr>ft_history = [], ft_versions = (\<lambda>k. [first k]), ft_seen = (\<lambda>k. 0), ft_base = (\<lambda>k. 0),
      ft_work = Map.empty\<rparr>"
    if "\<And>k y. first k = Some y \<Longrightarrow> resource_key y = k"
| edited: "lives r (c\<lparr>ft_versions := (ft_versions c)(k := ft_versions c k @ [new])\<rparr>)"
    if "lives r c" and "user_edit k (last (ft_versions c k)) new"
| assigned: "lives r (c\<lparr>ft_seen := (ft_seen c)(k := n), ft_base := (ft_base c)(k := n),
      ft_work := (ft_work c)(k := Some es)\<rparr>)"
    if "lives r c" and "k = (name, namespace)" and "ft_work c k = None"
      and "int (card (dom (ft_work c))) < maxConcurrentReconciles (rec_runtime r)"
      and "ft_seen c k \<le> n" and "n < length (ft_versions c k)"
      and "\<And>kc. fst (kube_Get (rec_client r) name namespace (world s)) = Inr kc \<Longrightarrow> ft_versions c k ! n = Some kc"
      and "run_state (Reconcile r name namespace) s = (x, s')" and "trace s' = trace s @ es"
| performed: "lives r (c\<lparr>ft_history := ft_history c @ [e], ft_versions := (ft_versions c)(k := L),
      ft_base := (ft_base c)(k := b), ft_work := (ft_work c)(k := Some es)\<rparr>)"
    if "lives r c" and "ft_work c k = Some (e # es)"
      and "serves k e (ft_versions c k) (ft_base c k) L b"
| completed: "lives r (c\<lparr>ft_work := (ft_work c)(k := None)\<rparr>)"
    if "lives r c" and "ft_work c k = Some []"
| rebooted: "lives r (c\<lparr>ft_seen := (\<lambda>k. length (ft_versions c k) - 1), ft_work := Map.empty\<rparr>)"
    if "lives r c"

section \<open>The invariant\<close>

text \<open>A version that carries the finalizer and is not marked as deleted.\<close>

definition in_service :: "kubernetes_cluster option \<Rightarrow> bool" where
  "in_service v \<longleftrightarrow> (\<exists>x. v = Some x \<and> carries_finalizer x \<and> kc_DeletionTimestamp x = None)"

definition holds_azure :: "kubernetes_cluster option \<Rightarrow> azure_key \<Rightarrow> bool" where
  "holds_azure v a \<longleftrightarrow> (\<exists>x. v = Some x \<and> carries_finalizer x \<and> azure_key x = a)"

text \<open>
  Of one resource: a version that may still be read and is in service stands for the cluster the current
  version holds.
\<close>

definition resource_ok :: "resource_key \<Rightarrow> versions \<Rightarrow> nat \<Rightarrow> bool" where
  "resource_ok k L n \<longleftrightarrow>
     n < length L \<and> (\<forall>y. Some y \<in> set L \<longrightarrow> resource_key y = k) \<and>
     (\<forall>i x. n \<le> i \<longrightarrow> i < length L \<longrightarrow> L ! i = Some x \<longrightarrow> in_service (Some x) \<longrightarrow> holds_azure (last L) (azure_key x))"

text \<open>
  Of one worker: a holder of the finalizer goes on holding it. While its object is current, the resource
  holds no other cluster; and when it is to take the finalizer away, no version that may still be read
  is in service.
\<close>

definition script_ok :: "resource_key \<Rightarrow> versions \<Rightarrow> nat \<Rightarrow> nat \<Rightarrow> event list \<Rightarrow> azure_key \<Rightarrow> bool \<Rightarrow> bool" where
  "script_ok k L n b es a holder \<longleftrightarrow>
     script k a holder es \<and> b < length L \<and> \<not> (adds es \<and> removes es) \<and>
     (holder \<longrightarrow> holds_azure (last L) a) \<and>
     (Suc b = length L \<longrightarrow>
        (\<forall>a'. holds_azure (last L) a' \<longrightarrow> a' = a) \<and>
        (removes es \<longrightarrow> (\<forall>i. n \<le> i \<longrightarrow> i < length L \<longrightarrow> \<not> in_service (L ! i))))"

text \<open>The resource keeps the cluster: it holds it, and no worker is about to let it go.\<close>

definition keeps :: "versions \<Rightarrow> nat \<Rightarrow> event list option \<Rightarrow> azure_key \<Rightarrow> bool" where
  "keeps L b w a \<longleftrightarrow>
     holds_azure (last L) a \<and> (\<forall>es. w = Some es \<longrightarrow> letting_go es \<longrightarrow> Suc b \<noteq> length L)"

definition fleet_ok :: "fleet \<Rightarrow> bool" where
  "fleet_ok c \<longleftrightarrow>
     (\<forall>k. resource_ok k (ft_versions c k) (ft_seen c k)) \<and>
     (\<forall>k es. ft_work c k = Some es \<longrightarrow>
        (\<exists>a holder. script_ok k (ft_versions c k) (ft_seen c k) (ft_base c k) es a holder)) \<and>
     (\<forall>a\<in>outstanding (ft_history c). \<exists>k. keeps (ft_versions c k) (ft_base c k) (ft_work c k) a)"

lemma fleet_okD:
  assumes "fleet_ok c"
  shows "resource_ok k (ft_versions c k) (ft_seen c k)"
    and "ft_work c k = Some es \<Longrightarrow> \<exists>a holder. script_ok k (ft_versions c k) (ft_seen c k) (ft_base c k) es a holder"
    and "a \<in> outstanding (ft_history c) \<Longrightarrow> \<exists>k. keeps (ft_versions c k) (ft_base c k) (ft_work c k) a"
  using assms unfolding fleet_ok_def by blast+

section \<open>Calls keep the invariant\<close>

lemma holds_azure_simps [simp]:
  "\<not> holds_azure None a"
  "holds_azure (Some x) a \<longleftrightarrow> carries_finalizer x \<and> azure_key x = a"
  "\<not> in_service None"
  "in_service (Some x) \<longleftrightarrow> carries_finalizer x \<and> kc_DeletionTimestamp x = None"
  by (auto simp: holds_azure_def in_service_def)

lemma accepted_carrying:
  assumes "carries_finalizer c"
  obtains y where "accepted v cur c = Some y" and "resource_key y = resource_key c"
    and "azure_key y = azure_key c" and "carries_finalizer y"
proof -
  have "kc_Finalizers c \<noteq> []" using assms by (auto simp: carries_finalizer_def)
  with assms that show ?thesis
    by (simp add: accepted_def Let_def resource_key_def azure_key_def carries_finalizer_def
        getResourceGroupName_def getClusterName_def)
qed

lemma accepted_released:
  assumes "\<not> carries_finalizer c"
  shows "\<not> holds_azure (accepted v cur c) a" and "\<not> in_service (accepted v cur c)"
    and "accepted v cur c = Some y \<Longrightarrow> resource_key y = resource_key c"
  using assms by (auto simp: accepted_def Let_def carries_finalizer_def resource_key_def split: if_splits)

lemma accepted_status_same [simp]:
  "resource_key (accepted_status v cur c) = resource_key cur"
  "azure_key (accepted_status v cur c) = azure_key cur"
  "carries_finalizer (accepted_status v cur c) = carries_finalizer cur"
  "kc_DeletionTimestamp (accepted_status v cur c) = kc_DeletionTimestamp cur"
  by (simp_all add: accepted_status_def resource_key_def azure_key_def carries_finalizer_def
      getResourceGroupName_def getClusterName_def)

lemma resource_ok_append:
  assumes ok: "resource_ok k L n" and key: "\<And>y. new = Some y \<Longrightarrow> resource_key y = k"
    and keep: "(\<forall>a. holds_azure (last L) a \<longrightarrow> holds_azure new a) \<or>
      (\<forall>i. n \<le> i \<longrightarrow> i < length L \<longrightarrow> \<not> in_service (L ! i))"
  shows "resource_ok k (L @ [new]) n"
proof -
  have "holds_azure new (azure_key x)"
    if i: "n \<le> i" "i < Suc (length L)" "(L @ [new]) ! i = Some x" "in_service (Some x)" for i x
  proof (cases "i = length L")
    case True
    with i show ?thesis by simp
  next
    case False
    with i have "i < length L" "L ! i = Some x" by (auto simp: nth_append)
    with ok keep i show ?thesis unfolding resource_ok_def by metis
  qed
  with ok key show ?thesis by (auto simp: resource_ok_def)
qed

lemma last_version:
  assumes "resource_ok k L n"
  shows "L \<noteq> []" and "last L = L ! (length L - 1)" and "n \<le> length L - 1" and "length L - 1 < length L"
proof -
  have "n < length L" using assms by (simp add: resource_ok_def)
  then show "L \<noteq> []" "n \<le> length L - 1" "length L - 1 < length L" by auto
  then show "last L = L ! (length L - 1)" by (intro last_conv_nth)
qed

lemma current_key: "resource_ok k L n \<Longrightarrow> last L = Some y \<Longrightarrow> resource_key y = k"
  using last_version(1) last_in_set unfolding resource_ok_def by metis

lemma script_ok_current:
  assumes "script_ok k L n b (e # es) a holder" and "Suc b = length L"
  shows "holds_azure (last L) a' \<Longrightarrow> a' = a"
    and "removes (e # es) \<Longrightarrow> n \<le> i \<Longrightarrow> i < length L \<Longrightarrow> \<not> in_service (L ! i)"
  using assms unfolding script_ok_def by blast+

lemma updated_ok:
  assumes ok: "resource_ok k L n" and scr: "script_ok k L n b (KubeUpdateCluster c u # es) a holder"
    and key: "resource_key c = k" and now: "Suc b = length L"
    and L': "L' = L @ [accepted v cur c]" and b': "b' = (if u = None then length L else b)"
  shows "resource_ok k L' n \<and> script_ok k L' n b' es a holder"
proof (cases "carries_finalizer c")
  case True
  then have "azure_key c = a" "\<not> removes es" using scr by (simp_all add: script_ok_def)
  with True obtain y where y: "accepted v cur c = Some y" "resource_key y = k" "azure_key y = a" "carries_finalizer y"
    using accepted_carrying [of c v cur] key by metis
  then show ?thesis
    using resource_ok_append [OF ok, of "accepted v cur c"] script_ok_current(1) [OF scr now] scr \<open>\<not> removes es\<close> L' b'
    by (auto simp: script_ok_def)
next
  case False
  have none: "\<not> in_service (L ! i)" if "n \<le> i" "i < length L" for i
    using script_ok_current(2) [OF scr now] False that by simp
  then have "\<not> in_service ((L @ [accepted v cur c]) ! i)" if "n \<le> i" "i < Suc (length L)" for i
    using that accepted_released(2) [OF False] by (cases "i = length L") (auto simp: nth_append)
  moreover have "\<not> holder" using scr False by (simp add: script_ok_def)
  ultimately show ?thesis
    using resource_ok_append [OF ok, of "accepted v cur c"] accepted_released [OF False] none False scr key now L' b'
    by (auto simp: script_ok_def)
qed

lemma status_updated_ok:
  assumes ok: "resource_ok k L n" and scr: "script_ok k L n b (KubeUpdateStatus c u # es) a holder"
    and cur: "last L = Some cur" and L': "L' = L @ [Some (accepted_status v cur c)]"
    and b': "b' = (if Suc b = length L \<and> u = None then length L else b)"
  shows "resource_ok k L' n \<and> script_ok k L' n b' es a holder"
proof -
  let ?y = "accepted_status v cur c"
  have "resource_ok k (L @ [Some ?y]) n"
    by (rule resource_ok_append [OF ok]) (use current_key [OF ok] cur in auto)
  moreover have "\<not> in_service ((L @ [Some ?y]) ! i)"
    if "removes es" "Suc b = length L" "n \<le> i" "i < Suc (length L)" for i
  proof (cases "i = length L")
    case True
    have "L ! (length L - 1) = Some cur" using last_version(2) [OF ok] cur by simp
    then have "\<not> in_service (Some cur)"
      using script_ok_current(2) [OF scr that(2), of "length L - 1"] last_version(3,4) [OF ok] that(1) by simp
    with True show ?thesis by simp
  next
    case False
    then show ?thesis using script_ok_current(2) [OF scr that(2), of i] that by (simp add: nth_append)
  qed
  ultimately show ?thesis using scr cur L' b' by (auto simp: script_ok_def)
qed

lemma serves_ok:
  assumes "resource_ok k L n" and "script_ok k L n b (e # es) a holder" and "serves k e L b L' b'"
  shows "resource_ok k L' n \<and> script_ok k L' n b' es a holder"
  using assms(3)
proof cases
  case unchanged
  with assms show ?thesis by (auto simp: script_ok_def)
next
  case (updated c u cur v)
  with assms(1,2) show ?thesis using updated_ok by blast
next
  case (status_updated c u cur v)
  with assms(1,2) show ?thesis using status_updated_ok by blast
qed

section \<open>Keeping a cluster\<close>

text \<open>
  The worker's own calls: a resource that keeps a cluster goes on keeping it unless the call reports it
  as deleted, and one that asks Azure for its cluster keeps it.
\<close>

lemma serves_holds:
  assumes keep: "keeps L b (Some (e # es)) a'" and scr: "script_ok k L n b (e # es) a holder"
    and serves: "serves k e L b L' b'"
  shows "holds_azure (last L') a'"
  using serves
proof cases
  case (updated c u cur v)
  have law: "if carries_finalizer c then azure_key c = a else \<not> holder \<and> \<not> deletes es"
    using scr updated(3) by (simp add: script_ok_def)
  have c: "carries_finalizer c"
  proof (rule ccontr)
    assume "\<not> carries_finalizer c"
    then have "letting_go (e # es)" using law updated(3) by (simp add: letting_go_def)
    then show False using keep updated(6) by (simp add: keeps_def)
  qed
  then obtain y where "accepted v cur c = Some y" "azure_key y = azure_key c" "carries_finalizer y"
    using accepted_carrying by metis
  moreover have "a' = a" using script_ok_current(1) [OF scr updated(6)] keep unfolding keeps_def by blast
  then have "azure_key c = a'" using c law by simp
  ultimately show ?thesis using updated(1) by simp
qed (use keep in \<open>simp_all add: keeps_def\<close>)

lemma serves_keeps:
  assumes keep: "keeps L b (Some (e # es)) a'" and scr: "script_ok k L n b (e # es) a holder"
    and serves: "serves k e L b L' b'" and out: "a' \<in> track e O'"
  shows "keeps L' b' (Some es) a'"
proof -
  have holds: "holds_azure (last L) a'" and stays: "letting_go (e # es) \<Longrightarrow> Suc b \<noteq> length L"
    using keep by (auto simp: keeps_def)
  have law: "lawful k a holder e es" using scr by (simp add: script_ok_def)
  have "\<not> letting_go es" if "Suc b' = length L'"
  proof
    assume go: "letting_go es"
    have "b < length L" using scr by (simp add: script_ok_def)
    with serves that have base: "Suc b = length L" by cases (simp_all split: if_splits)
    show False
    proof (cases "deletion e")
      case True
      then obtain rg cl u where e: "e = AzClusterDelete rg cl u" by (cases e) auto
      with law have l: "(rg, cl) = a" "\<not> gone u \<longrightarrow> \<not> removes es" by simp_all
      with go script_ok_current(1) [OF scr base holds] have "gone u" "(rg, cl) = a'"
        by (simp_all add: letting_go_def)
      with e out show False by simp
    next
      case False
      with go have "letting_go (e # es)" by (simp add: letting_go_def)
      then show False using stays base by simp
    qed
  qed
  then show ?thesis using serves_holds [OF keep scr serves] by (auto simp: keeps_def)
qed

lemma serves_creates:
  assumes scr: "script_ok k L n b (e # es) a holder" and serves: "serves k e L b L' b'"
    and e: "e = AzClusterCreateOrUpdate rg cl c u"
  shows "keeps L' b' (Some es) (rg, cl)"
proof -
  have "L' = L" using serves e by cases simp_all
  moreover have own: "holder" "(rg, cl) = a" "script k a holder es" and "holder \<longrightarrow> holds_azure (last L) a"
    using scr unfolding script_ok_def e script.simps lawful.simps by blast+
  moreover have "\<not> removes es" using own script_holder by simp
  ultimately show ?thesis by (simp add: keeps_def letting_go_def)
qed

lemma tracked: "a \<in> track e O' \<Longrightarrow> a \<in> O' \<or> (\<exists>c u. e = AzClusterCreateOrUpdate (fst a) (snd a) c u)"
  by (cases e) (auto split: if_splits)

lemma fleet_ok_performed:
  assumes ok: "fleet_ok c" and work: "ft_work c k = Some (e # es)"
    and serves: "serves k e (ft_versions c k) (ft_base c k) L b"
    and c': "c' = c\<lparr>ft_history := ft_history c @ [e], ft_versions := (ft_versions c)(k := L),
      ft_base := (ft_base c)(k := b), ft_work := (ft_work c)(k := Some es)\<rparr>"
  shows "fleet_ok c'"
proof -
  obtain a holder where scr: "script_ok k (ft_versions c k) (ft_seen c k) (ft_base c k) (e # es) a holder"
    using fleet_okD(2) [OF ok work] by blast
  note after = serves_ok [OF fleet_okD(1) [OF ok] scr serves]
  have "\<exists>k'. keeps (ft_versions c' k') (ft_base c' k') (ft_work c' k') a'"
    if out: "a' \<in> track e (outstanding (ft_history c))" for a'
    using tracked [OF out]
  proof (elim disjE exE)
    assume "a' \<in> outstanding (ft_history c)"
    then obtain k' where k': "keeps (ft_versions c k') (ft_base c k') (ft_work c k') a'"
      using fleet_okD(3) [OF ok] by blast
    show ?thesis
    proof (cases "k' = k")
      case True
      then have "keeps L b (Some es) a'" using serves_keeps [OF _ scr serves out] k' work by simp
      then show ?thesis by (intro exI [of _ k]) (simp add: c')
    next
      case False
      with k' show ?thesis by (intro exI [of _ k']) (simp add: c')
    qed
  next
    fix x u assume "e = AzClusterCreateOrUpdate (fst a') (snd a') x u"
    from serves_creates [OF scr serves this] show ?thesis by (intro exI [of _ k]) (simp add: c')
  qed
  moreover have "\<exists>a holder. script_ok k' (ft_versions c' k') (ft_seen c' k') (ft_base c' k') fs a holder"
    if fs: "ft_work c' k' = Some fs" for k' fs
  proof (cases "k' = k")
    case True
    then have "fs = es" using fs by (simp add: c')
    with after True show ?thesis by (intro exI [of _ a] exI [of _ holder]) (simp add: c')
  next
    case False
    then show ?thesis using fs fleet_okD(2) [OF ok, of k' fs] by (simp add: c')
  qed
  ultimately show ?thesis
    using after fleet_okD(1) [OF ok] by (simp add: fleet_ok_def c')
qed

section \<open>Everything else keeps the invariant\<close>

lemma script_ok_base: "script_ok k L n b es a holder \<Longrightarrow> b < length L"
  by (simp add: script_ok_def)

lemma script_ok_edited:
  assumes scr: "script_ok k L n b es a holder" and edit: "user_edit k (last L) new"
  shows "script_ok k (L @ [new]) n b es a holder"
proof -
  have "holds_azure new a" if "holder"
    using scr edit that by (auto simp: script_ok_def user_edit_def holds_azure_def)
  moreover have "b < length L" using scr by (simp add: script_ok_def)
  ultimately show ?thesis using scr by (simp add: script_ok_def)
qed

lemma user_edit_keeps: "user_edit k old new \<Longrightarrow> holds_azure old a \<Longrightarrow> holds_azure new a"
  unfolding user_edit_def holds_azure_def by fastforce

lemma fleet_okI:
  assumes "\<And>k. resource_ok k (ft_versions c k) (ft_seen c k)"
    and "\<And>k es. ft_work c k = Some es \<Longrightarrow>
      \<exists>a holder. script_ok k (ft_versions c k) (ft_seen c k) (ft_base c k) es a holder"
    and "\<And>a. a \<in> outstanding (ft_history c) \<Longrightarrow> \<exists>k. keeps (ft_versions c k) (ft_base c k) (ft_work c k) a"
  shows "fleet_ok c"
  using assms unfolding fleet_ok_def by blast

lemma fleet_ok_edited:
  assumes ok: "fleet_ok c" and edit: "user_edit k (last (ft_versions c k)) new"
  shows "fleet_ok (c\<lparr>ft_versions := (ft_versions c)(k := ft_versions c k @ [new])\<rparr>)"
proof (rule fleet_okI)
  fix k'
  have "resource_ok k (ft_versions c k @ [new]) (ft_seen c k)"
    by (rule resource_ok_append [OF fleet_okD(1) [OF ok]])
      (use edit user_edit_keeps [OF edit] in \<open>auto simp: user_edit_def\<close>)
  then show "resource_ok k' (ft_versions (c\<lparr>ft_versions := (ft_versions c)(k := ft_versions c k @ [new])\<rparr>) k')
      (ft_seen (c\<lparr>ft_versions := (ft_versions c)(k := ft_versions c k @ [new])\<rparr>) k')"
    using fleet_okD(1) [OF ok, of k'] by simp
next
  fix k' es
  assume "ft_work (c\<lparr>ft_versions := (ft_versions c)(k := ft_versions c k @ [new])\<rparr>) k' = Some es"
  then obtain a holder where
    "script_ok k' (ft_versions c k') (ft_seen c k') (ft_base c k') es a holder"
    using fleet_okD(2) [OF ok, of k' es] by auto
  then show "\<exists>a holder. script_ok k' (ft_versions (c\<lparr>ft_versions := (ft_versions c)(k := ft_versions c k @ [new])\<rparr>) k')
      (ft_seen (c\<lparr>ft_versions := (ft_versions c)(k := ft_versions c k @ [new])\<rparr>) k')
      (ft_base (c\<lparr>ft_versions := (ft_versions c)(k := ft_versions c k @ [new])\<rparr>) k') es a holder"
    using script_ok_edited [OF _ edit, of "ft_seen c k" "ft_base c k" es a holder]
    by (intro exI [of _ a] exI [of _ holder]) (cases "k' = k"; simp)
next
  fix a
  assume "a \<in> outstanding (ft_history (c\<lparr>ft_versions := (ft_versions c)(k := ft_versions c k @ [new])\<rparr>))"
  then obtain k' where k': "keeps (ft_versions c k') (ft_base c k') (ft_work c k') a"
    using fleet_okD(3) [OF ok, of a] by auto
  have "keeps (ft_versions c k @ [new]) (ft_base c k) (ft_work c k) a" if "k' = k"
  proof -
    have "Suc (ft_base c k) \<noteq> length (ft_versions c k @ [new])" if "ft_work c k = Some es" for es
      using fleet_okD(2) [OF ok that] script_ok_base by fastforce
    then show ?thesis using k' that user_edit_keeps [OF edit] by (simp add: keeps_def)
  qed
  with k' show "\<exists>k'. keeps (ft_versions (c\<lparr>ft_versions := (ft_versions c)(k := ft_versions c k @ [new])\<rparr>) k')
      (ft_base (c\<lparr>ft_versions := (ft_versions c)(k := ft_versions c k @ [new])\<rparr>) k')
      (ft_work (c\<lparr>ft_versions := (ft_versions c)(k := ft_versions c k @ [new])\<rparr>) k') a"
    by (intro exI [of _ k']) (cases "k' = k"; simp)
qed

lemma holds_one: "\<exists>a. \<forall>a'. holds_azure v a' \<longrightarrow> a' = a"
proof (cases v)
  case (Some x)
  then show ?thesis by (intro exI [of _ "azure_key x"]) (simp only: holds_azure_simps, blast)
qed (simp add: holds_azure_def)

text \<open>A worker that starts from version \<open>n\<close>.\<close>

lemma script_ok_assigned:
  assumes M: "\<And>M. rec_AKSClusterManager r = Some M \<Longrightarrow> cluster_manager M"
    and K: "finalizer_laws (rec_client r)" "status_update_laws (rec_client r)" "update_laws (rec_client r)"
    and run: "run_state (Reconcile r name namespace) s = (x, s')" and new: "trace s' = trace s @ es"
    and ok: "resource_ok (name, namespace) L m" and n: "m \<le> n" "n < length L"
    and read: "\<And>kc. fst (kube_Get (rec_client r) name namespace (world s)) = Inr kc \<Longrightarrow> L ! n = Some kc"
  shows "(\<exists>a holder. script_ok (name, namespace) L n n es a holder) \<and> \<not> letting_go es"
proof -
  have key: "resource_key kc = (name, namespace)" if "L ! n = Some kc" for kc
    using ok n(2) that nth_mem [of n L] by (simp add: resource_ok_def)
  have lst: "last L = L ! n" if "Suc n = length L"
  proof -
    have "n = length L - 1" "L \<noteq> []" using that by auto
    then show ?thesis by (simp add: last_conv_nth)
  qed
  show ?thesis
  proof (rule reconcile_modes [OF M K run new])
    assume stop: "\<And>k a b. script k a b es" "\<not> removes es" "\<not> adds es"
    obtain a where "\<forall>a'. holds_azure (last L) a' \<longrightarrow> a' = a" using holds_one by blast
    with stop n have "script_ok (name, namespace) L n n es a False"
      unfolding script_ok_def by blast
    with stop show ?thesis unfolding letting_go_def by blast
  next
    fix kc
    assume kc: "fst (kube_Get (rec_client r) name namespace (world s)) = Inr kc" "kc_DeletionTimestamp kc \<noteq> None"
      and es: "script (resource_key kc) (azure_key kc) False es" "removes es \<longrightarrow> deletes es" "\<not> adds es"
    have at: "L ! n = Some kc" using read [OF kc(1)] .
    have "\<not> in_service (L ! i)" if "Suc n = length L" "n \<le> i" "i < length L" for i
    proof -
      have "i = n" using that by simp
      with at kc(2) show ?thesis by simp
    qed
    moreover have "a' = azure_key kc" if "Suc n = length L" "holds_azure (last L) a'" for a'
      using lst that at by simp
    ultimately have "script_ok (name, namespace) L n n es (azure_key kc) False"
      using es key [OF at] n by (simp add: script_ok_def)
    with es show ?thesis unfolding letting_go_def by blast
  next
    fix kc
    assume kc: "fst (kube_Get (rec_client r) name namespace (world s)) = Inr kc" "kc_DeletionTimestamp kc = None"
      and es: "script (resource_key kc) (azure_key kc) (carries_finalizer kc) es" "\<not> removes es"
    have at: "L ! n = Some kc" using read [OF kc(1)] .
    have "holds_azure (last L) (azure_key kc)" if "carries_finalizer kc"
    proof -
      have "in_service (Some kc)" using kc(2) that by simp
      with ok n at show ?thesis unfolding resource_ok_def by blast
    qed
    moreover have "a' = azure_key kc" if "Suc n = length L" "holds_azure (last L) a'" for a'
      using lst that at by simp
    ultimately have "script_ok (name, namespace) L n n es (azure_key kc) (carries_finalizer kc)"
      using es key [OF at] n by (simp add: script_ok_def)
    with es show ?thesis unfolding letting_go_def by blast
  qed assumption
qed

lemma fleet_ok_assigned:
  assumes ok: "fleet_ok c" and free: "ft_work c k = None"
    and start: "(\<exists>a holder. script_ok k (ft_versions c k) n n es a holder) \<and> \<not> letting_go es"
    and n: "ft_seen c k \<le> n" "n < length (ft_versions c k)"
  shows "fleet_ok (c\<lparr>ft_seen := (ft_seen c)(k := n), ft_base := (ft_base c)(k := n),
      ft_work := (ft_work c)(k := Some es)\<rparr>)"
  (is "fleet_ok ?c")
proof (rule fleet_okI)
  fix k'
  have "resource_ok k (ft_versions c k) n"
    using fleet_okD(1) [OF ok, of k] n unfolding resource_ok_def by (meson le_trans)
  then show "resource_ok k' (ft_versions ?c k') (ft_seen ?c k')"
    using fleet_okD(1) [OF ok, of k'] by simp
next
  fix k' fs
  assume fs: "ft_work ?c k' = Some fs"
  show "\<exists>a holder. script_ok k' (ft_versions ?c k') (ft_seen ?c k') (ft_base ?c k') fs a holder"
  proof (cases "k' = k")
    case True
    then show ?thesis using fs start by simp
  next
    case False
    then show ?thesis using fs fleet_okD(2) [OF ok, of k' fs] by simp
  qed
next
  fix a
  assume "a \<in> outstanding (ft_history ?c)"
  then obtain k' where k': "keeps (ft_versions c k') (ft_base c k') (ft_work c k') a"
    using fleet_okD(3) [OF ok, of a] by auto
  then have "keeps (ft_versions c k) n (Some es) a" if "k' = k" using that start by (simp add: keeps_def)
  with k' show "\<exists>k'. keeps (ft_versions ?c k') (ft_base ?c k') (ft_work ?c k') a"
    by (intro exI [of _ k']) (cases "k' = k"; simp)
qed

lemma keeps_idle: "keeps L b w a \<Longrightarrow> keeps L b None a"
  by (simp add: keeps_def)

lemma fleet_ok_completed:
  assumes ok: "fleet_ok c"
  shows "fleet_ok (c\<lparr>ft_work := (ft_work c)(k := None)\<rparr>)"
  (is "fleet_ok ?c")
proof (rule fleet_okI)
  show "resource_ok k' (ft_versions ?c k') (ft_seen ?c k')" for k' using fleet_okD(1) [OF ok] by simp
next
  fix k' fs
  assume "ft_work ?c k' = Some fs"
  then show "\<exists>a holder. script_ok k' (ft_versions ?c k') (ft_seen ?c k') (ft_base ?c k') fs a holder"
    using fleet_okD(2) [OF ok, of k' fs] by (simp split: if_splits)
next
  fix a
  assume "a \<in> outstanding (ft_history ?c)"
  then obtain k' where k': "keeps (ft_versions c k') (ft_base c k') (ft_work c k') a"
    using fleet_okD(3) [OF ok, of a] by auto
  then show "\<exists>k'. keeps (ft_versions ?c k') (ft_base ?c k') (ft_work ?c k') a"
    using keeps_idle by (intro exI [of _ k']) (cases "k' = k"; simp)
qed

text \<open>The youngest version alone is readable after a restart, and it stands for itself.\<close>

lemma resource_ok_current:
  assumes "resource_ok k L n"
  shows "resource_ok k L (length L - 1)"
proof -
  have "holds_azure (last L) (azure_key x)"
    if "length L - 1 \<le> i" "i < length L" "L ! i = Some x" "in_service (Some x)" for i x
  proof -
    have "i = length L - 1" using that by simp
    then show ?thesis using that last_version(2) [OF assms] by simp
  qed
  with assms show ?thesis unfolding resource_ok_def by auto
qed

lemma fleet_ok_rebooted:
  assumes ok: "fleet_ok c"
  shows "fleet_ok (c\<lparr>ft_seen := (\<lambda>k. length (ft_versions c k) - 1), ft_work := Map.empty\<rparr>)"
  (is "fleet_ok ?c")
proof (rule fleet_okI)
  show "resource_ok k (ft_versions ?c k) (ft_seen ?c k)" for k
    using resource_ok_current [OF fleet_okD(1) [OF ok]] by simp
next
  fix a
  assume "a \<in> outstanding (ft_history ?c)"
  then obtain k where "keeps (ft_versions c k) (ft_base c k) (ft_work c k) a"
    using fleet_okD(3) [OF ok, of a] by auto
  from keeps_idle [OF this] show "\<exists>k. keeps (ft_versions ?c k) (ft_base ?c k) (ft_work ?c k) a"
    by (intro exI [of _ k]) simp
qed simp

lemma lives_ok:
  assumes M: "\<And>M. rec_AKSClusterManager r = Some M \<Longrightarrow> cluster_manager M"
    and K: "finalizer_laws (rec_client r)" "status_update_laws (rec_client r)" "update_laws (rec_client r)"
    and "lives r c"
  shows "fleet_ok c"
  using assms(5)
proof induction
  case (begun first)
  have "resource_ok k [first k] 0" for k
    using begun by (simp add: resource_ok_def holds_azure_def in_service_def)
  then show ?case by (intro fleet_okI) simp_all
next
  case (edited c k new)
  then show ?case by (intro fleet_ok_edited)
next
  case (assigned c k name namespace n s x s' es)
  have read: "ft_versions c (name, namespace) ! n = Some kc"
    if "fst (kube_Get (rec_client r) name namespace (world s)) = Inr kc" for kc
    using that assigned.hyps by blast
  have n: "ft_seen c (name, namespace) \<le> n" "n < length (ft_versions c (name, namespace))"
    using assigned.hyps by blast+
  have run: "run_state (Reconcile r name namespace) s = (x, s')" and new: "trace s' = trace s @ es"
    using assigned.hyps by blast+
  show ?case unfolding \<open>k = (name, namespace)\<close>
    by (rule fleet_ok_assigned [OF assigned.IH _ script_ok_assigned [OF M K run new fleet_okD(1) [OF assigned.IH] n read] n])
      (use assigned.hyps in blast)+
next
  case (performed c k e es L b)
  show ?case by (rule fleet_ok_performed [OF performed.IH performed.hyps(2,3) refl])
next
  case (completed c k)
  show ?case by (rule fleet_ok_completed [OF completed.IH])
next
  case (rebooted c)
  show ?case by (rule fleet_ok_rebooted [OF rebooted.IH])
qed

text \<open>C1. No cluster is orphaned, with reads that lag and updates that collide: the API server keeps all
  versions, a worker may read any version no older than one its process has read, users create, edit,
  mark and remove resources at any time, the calls of the workers interleave, and the process may die after any call.
  As long as the users neither take the finalizer away nor edit the fields naming the Azure cluster
  while it is there, every cluster the operator has asked Azure for, and has not been told is gone,
  belongs to a resource whose current version carries the finalizer and names that cluster.\<close>

theorem clusters_have_owners:
  assumes "\<And>M. rec_AKSClusterManager r = Some M \<Longrightarrow> cluster_manager M"
    and "finalizer_laws (rec_client r)" and "status_update_laws (rec_client r)" and "update_laws (rec_client r)"
    and "lives r c" and "a \<in> outstanding (ft_history c)"
  shows "\<exists>k y. last (ft_versions c k) = Some y \<and> resource_key y = k \<and> carries_finalizer y \<and> azure_key y = a"
proof -
  have ok: "fleet_ok c" by (rule lives_ok [OF assms(1-5)])
  from fleet_okD(3) [OF this assms(6)] obtain k where "keeps (ft_versions c k) (ft_base c k) (ft_work c k) a" ..
  then obtain y where "last (ft_versions c k) = Some y" "carries_finalizer y" "azure_key y = a"
    unfolding keeps_def holds_azure_def by blast
  with current_key [OF fleet_okD(1) [OF ok]] show ?thesis by blast
qed

section \<open>A run of the operator\<close>

lemma lives_call:
  assumes "lives r c" and "ft_work c k = Some (e # es)" and "serves k e (ft_versions c k) (ft_base c k) L b"
  obtains c' where "lives r c'" and "ft_history c' = ft_history c @ [e]" and "ft_versions c' k = L"
    and "ft_base c' k = b" and "ft_seen c' = ft_seen c" and "ft_work c' = (ft_work c)(k := Some es)"
  by (rule that [OF lives.performed [OF assms]]) simp_all

lemma lives_assign:
  assumes "lives r c" and "ft_work c = Map.empty" and "0 < maxConcurrentReconciles (rec_runtime r)"
    and "ft_seen c (name, namespace) \<le> n" and "n < length (ft_versions c (name, namespace))"
    and "\<And>kc. fst (kube_Get (rec_client r) name namespace (world s)) = Inr kc \<Longrightarrow>
      ft_versions c (name, namespace) ! n = Some kc"
    and "trace (snd (run_state (Reconcile r name namespace) s)) = trace s @ es"
  obtains c' where "lives r c'" and "ft_history c' = ft_history c" and "ft_versions c' = ft_versions c"
    and "ft_base c' (name, namespace) = n" and "ft_work c' = [(name, namespace) \<mapsto> es]"
    and "ft_seen c' (name, namespace) = n"
  by (rule that [OF lives.assigned [OF assms(1) refl _ _ assms(4-6) prod.collapse [symmetric] assms(7)]])
    (simp_all add: assms(2,3))

text \<open>A worker of a resource in service can make all its calls.\<close>

lemma lives_on:
  assumes "lives r c" and "ft_work c k = Some es" and "resource_key kc = k" and "carries_finalizer kc"
    and "\<forall>e\<in>set es. on_behalf kc e" and "last (ft_versions c k) = Some cur"
    and "Suc (ft_base c k) = length (ft_versions c k)"
  shows "\<exists>c'. lives r c' \<and> ft_history c' = ft_history c @ es"
  using assms
proof (induction es arbitrary: c cur)
  case Nil
  then show ?case by auto
next
  case (Cons e es)
  obtain L b cur' where serves: "serves k e (ft_versions c k) (ft_base c k) L b"
    and now: "last L = Some cur'" "Suc b = length L"
  proof (cases "\<exists>x. e = KubeUpdateCluster x None")
    case True
    then obtain x where x: "e = KubeUpdateCluster x None" by blast
    then have "same_spec x kc" using Cons.prems(5) by simp
    with Cons.prems(3,4) same_spec_keys have "resource_key x = k" "carries_finalizer x" by auto
    moreover from this obtain y where "accepted [] cur x = Some y" using accepted_carrying by metis
    ultimately show ?thesis
      using serves.updated [of e x None k "ft_versions c k" cur "ft_base c k" "[]"] x Cons.prems(6,7)
      by (intro that [of "ft_versions c k @ [accepted [] cur x]" "length (ft_versions c k)" y]) simp_all
  next
    case False
    then show ?thesis
      using serves.unchanged [of e k "ft_versions c k" "ft_base c k"] Cons.prems(6,7) that by blast
  qed
  from lives_call [OF Cons.prems(1,2) serves] obtain c' where c': "lives r c'" "ft_history c' = ft_history c @ [e]"
    "ft_versions c' k = L" "ft_base c' k = b" "ft_work c' = (ft_work c)(k := Some es)" by metis
  have "\<exists>c''. lives r c'' \<and> ft_history c'' = ft_history c' @ es"
    by (rule Cons.IH [OF c'(1) _ Cons.prems(3,4)]) (use Cons.prems(5) c' now in auto)
  with c'(2) show ?case by simp
qed

text \<open>
  A resource that does not carry the finalizer is reconciled twice: the first run adds the finalizer,
  which makes a second version, the second reads that version and asks for the cluster.
\<close>

lemma fx_first_life:
  obtains c where "lives fx_operator c" and "ft_work c = Map.empty" and "ft_seen c (''demo'', ''team'') = 0"
    and "ft_versions c (''demo'', ''team'') = [Some fx_unheld, Some fx_cluster]"
proof -
  let ?k = "(''demo'', ''team'')"
  let ?h1 = "[KubeGetCluster ''demo'' ''team'' None, SecretGet ''c1'' ''team'' None, KubeUpdateCluster fx_cluster None]"
  let ?first = "\<lambda>k. if k = ?k then Some fx_unheld else None"
  let ?c = "\<lparr>ft_history = [], ft_versions = (\<lambda>k. [?first k]), ft_seen = (\<lambda>k. 0), ft_base = (\<lambda>k. 0), ft_work = Map.empty\<rparr>"
  let ?s = "fx_state_with [(''c1'', ''team'') \<mapsto> fx_secret]"
  have start: "lives fx_operator ?c" by (rule lives.begun) (simp split: if_splits)
  have five: "0 < maxConcurrentReconciles (rec_runtime fx_operator)" by (simp add: fx_operator_laws)
  have "trace ?s = []" by (simp add: fx_state_with_def fx_state_def)
  then have t1: "trace (snd (run_state (Reconcile fx_operator ''demo'' ''team'') ?s)) = trace ?s @ ?h1"
    by (simp add: fx_first_run)
  obtain c0 where c0: "lives fx_operator c0" "ft_history c0 = []" "ft_versions c0 ?k = [Some fx_unheld]"
    "ft_base c0 ?k = 0" "ft_work c0 = [?k \<mapsto> ?h1]" "ft_seen c0 ?k = 0"
    by (rule lives_assign [OF start _ five _ _ _ t1, of 0]) (auto simp: fx_operator_def fx_state_with_def)
  have quiet: "serves ?k e L b L b" if "\<And>x. e \<noteq> KubeUpdateCluster x None" for e L b
    using that by (rule serves.unchanged)
  obtain c1 where c1: "lives fx_operator c1" "ft_history c1 = take 1 ?h1" "ft_versions c1 ?k = [Some fx_unheld]"
    "ft_base c1 ?k = 0" "ft_work c1 = [?k \<mapsto> drop 1 ?h1]" "ft_seen c1 ?k = 0"
    by (rule lives_call [OF c0(1) _ quiet, of "hd ?h1" "drop 1 ?h1"]) (use c0 in auto)
  obtain c2 where c2: "lives fx_operator c2" "ft_history c2 = take 2 ?h1" "ft_versions c2 ?k = [Some fx_unheld]"
    "ft_base c2 ?k = 0" "ft_work c2 = [?k \<mapsto> drop 2 ?h1]" "ft_seen c2 ?k = 0"
    by (rule lives_call [OF c1(1) _ quiet, of "?h1 ! 1" "drop 2 ?h1"]) (use c1 in auto)
  have same: "accepted (kc_ResourceVersion fx_cluster) fx_unheld fx_cluster = Some fx_cluster"
    by (simp add: accepted_def fx_unheld_def fx_cluster_def)
  have update: "serves ?k (KubeUpdateCluster fx_cluster None) [Some fx_unheld] 0 [Some fx_unheld, Some fx_cluster] 1"
    using serves.updated [of _ fx_cluster None ?k "[Some fx_unheld]" fx_unheld 0 "kc_ResourceVersion fx_cluster"] same
    by simp
  obtain c3 where c3: "lives fx_operator c3" "ft_history c3 = ?h1" "ft_versions c3 ?k = [Some fx_unheld, Some fx_cluster]"
    "ft_work c3 = [?k \<mapsto> []]" "ft_seen c3 ?k = 0"
    by (rule lives_call [OF c2(1), of ?k "?h1 ! 2" "[]"]) (use c2 update in auto)
  have "lives fx_operator (c3\<lparr>ft_work := (ft_work c3)(?k := None)\<rparr>)" by (rule lives.completed) (simp_all add: c3)
  then show ?thesis by (rule that) (simp_all add: c3)
qed

theorem clusters_have_owners_witness:
  "\<exists>c. lives fx_operator c \<and> (''team'', ''c1'') \<in> outstanding (ft_history c) \<and>
     (\<exists>k y. last (ft_versions c k) = Some y \<and> carries_finalizer y \<and> azure_key y = (''team'', ''c1''))"
proof -
  let ?k = "(''demo'', ''team'')"
  obtain c4 where c4: "lives fx_operator c4" "ft_work c4 = Map.empty" "ft_seen c4 ?k = 0"
    "ft_versions c4 ?k = [Some fx_unheld, Some fx_cluster]" by (rule fx_first_life)
  obtain es c u where es: "trace (snd (run_state (Reconcile fx_operator ''demo'' ''team'') fx_state)) = es"
    "AzClusterCreateOrUpdate ''team'' ''c1'' c u \<in> set es" "\<not> deletes es" "\<forall>e\<in>set es. on_behalf fx_cluster e"
    using fx_second_run by blast
  have t2: "trace (snd (run_state (Reconcile fx_operator ''demo'' ''team'') fx_state)) = trace fx_state @ es"
    using es(1) by (simp add: fx_state_def)
  have five: "0 < maxConcurrentReconciles (rec_runtime fx_operator)" by (simp add: fx_operator_laws)
  obtain c5 where c5: "lives fx_operator c5" "ft_history c5 = ft_history c4" "ft_versions c5 = ft_versions c4"
    "ft_base c5 ?k = 1" "ft_work c5 = [?k \<mapsto> es]"
    by (rule lives_assign [OF c4(1,2) five _ _ _ t2, of 1]) (auto simp: c4 fx_operator_def fx_state_def)
  obtain c6 where c6: "lives fx_operator c6" "ft_history c6 = ft_history c4 @ es"
    using lives_on [OF c5(1), of ?k es fx_cluster fx_cluster] c5 c4(4) es(4) by auto
  have out: "(''team'', ''c1'') \<in> outstanding (ft_history c6)"
    unfolding c6(2) by (rule outstanding_created [OF es(2,3)])
  have M: "cluster_manager M" if "rec_AKSClusterManager fx_operator = Some M" for M
    using that fx_creator_ok by (simp add: fx_operator_def)
  show ?thesis
    using clusters_have_owners [OF M fx_operator_laws(1-3) c6(1) out] c6(1) out by blast
qed

end
