(* ===== verification/WorkQueue.thy ===== *)
theory WorkQueue
  imports ControlLoop
begin

text \<open>
  Liveness of deletion. The work queue of controller-runtime hands a resource out again until
  \<open>Reconcile\<close> returns with neither an error nor a wish to be called again; a panic counts as an
  error. The loop need not end, so it is a \<^theory_text>\<open>partial_function (option)\<close>. It is shown to end
  for a resource that is being deleted, provided that what it needs of Azure and of the API server
  fails only a limited number of times.
\<close>

section \<open>The loop\<close>

text \<open>\<open>later\<close> is what happens in the world until the resource is handed out again.\<close>

definition satisfied :: "ctrl_result outcome \<Rightarrow> bool" where
  "satisfied x \<longleftrightarrow> (case x of Returned (delay, err) \<Rightarrow> delay = 0 \<and> err = None | Panicked \<Rightarrow> False)"

partial_function (option) work_queue ::
  "'w reconciler \<Rightarrow> ('w \<Rightarrow> 'w) \<Rightarrow> string \<Rightarrow> string \<Rightarrow> 'w st \<Rightarrow> 'w st option" where
  "work_queue r later name namespace s =
     (let (x, s') = run_state (Reconcile r name namespace) s
      in if satisfied x then Some s'
         else work_queue r later name namespace (s'\<lparr>world := later (world s')\<rparr>))"

lemma satisfied_iff [simp]: "satisfied x \<longleftrightarrow> x = Returned (0, None)"
  by (auto simp: satisfied_def split: outcome.splits prod.splits)

section \<open>A limited number of failures\<close>

text \<open>\<open>f\<close> does not grow while the operation runs.\<close>

definition no_setback :: "('w \<Rightarrow> nat) \<Rightarrow> ('w, 'a) go \<Rightarrow> bool" where
  "no_setback f m \<longleftrightarrow> (\<forall>s. f (world (snd (run_state m s))) \<le> f (world s))"

text \<open>\<open>f\<close> does not grow with the calls a deletion makes besides those whose failures count.\<close>

definition undisturbed :: "('w \<Rightarrow> nat) \<Rightarrow> 'w reconciler \<Rightarrow> bool" where
  "undisturbed f r \<longleftrightarrow>
     (\<forall>n ns w. f (snd (kube_Get (rec_client r) n ns w)) \<le> f w) \<and>
     (\<forall>kc w. f (snd (kube_StatusUpdate (rec_client r) kc w)) \<le> f w) \<and>
     (\<forall>n ns w. f (snd (kube_GetSecret (rec_client r) n ns w)) \<le> f w) \<and>
     (\<forall>x w. f (snd (kube_DeleteSecret (rec_client r) x w)) \<le> f w) \<and>
     (\<forall>w. f (snd (rt_now (rec_runtime r) w)) \<le> f w)"

text \<open>
  \<open>f\<close> bounds the failures still to come: of cluster deletions, of object updates, and of reads of the
  resource, where the answer that it does not exist is not a failure.
\<close>

definition limited_failures :: "('w \<Rightarrow> nat) \<Rightarrow> 'w reconciler \<Rightarrow> 'w aks_cluster_manager \<Rightarrow> bool" where
  "limited_failures f r M \<longleftrightarrow>
     undisturbed f r \<and>
     (\<forall>n ns w err w'. kube_Get (rec_client r) n ns w = (Inl err, w') \<longrightarrow> \<not> IsNotFound err \<longrightarrow> f w' < f w) \<and>
     (\<forall>kc w e c w'. kube_Update (rec_client r) kc w = ((e, c), w') \<longrightarrow> f w' + of_bool (e \<noteq> None) \<le> f w) \<and>
     (\<forall>kc s e s'. run_state (akm_DeleteCluster M kc) s = (e, s') \<longrightarrow>
        f (world s') + of_bool (e \<noteq> None) \<le> f (world s))"

text \<open>
  What is relied on for a resource that has been marked for deletion; \<open>there\<close> says of a world that
  the resource is stored with the operator's finalizer. A read that finds it finds it marked and under
  the same names, with or without the finalizer; "not found" is answered only when it is no longer
  \<open>there\<close>; and none of the calls but an update of the object ends that. An update, answered with an
  error or not, may end it.
\<close>

definition marked_resource ::
  "('w \<Rightarrow> bool) \<Rightarrow> 'w reconciler \<Rightarrow> 'w aks_cluster_manager \<Rightarrow> string \<Rightarrow> string \<Rightarrow> azure_key \<Rightarrow> bool" where
  "marked_resource there r M name namespace a \<longleftrightarrow>
     (\<forall>w kc w'. kube_Get (rec_client r) name namespace w = (Inr kc, w') \<longrightarrow>
        kc_DeletionTimestamp kc \<noteq> None \<and> resource_key kc = (name, namespace) \<and> azure_key kc = a) \<and>
     (\<forall>w err w'. kube_Get (rec_client r) name namespace w = (Inl err, w') \<longrightarrow> IsNotFound err \<longrightarrow> \<not> there w) \<and>
     undisturbed (\<lambda>w. of_bool (\<not> there w)) r \<and>
     (\<forall>kc s. there (world s) \<longrightarrow> there (world (snd (run_state (akm_DeleteCluster M kc) s))))"

named_theorems setbacks

lemma no_setbackD: "no_setback f m \<Longrightarrow> run_state m s = (x, s') \<Longrightarrow> f (world s') \<le> f (world s)"
  unfolding no_setback_def by (metis snd_conv)

lemma no_setback_basic [setbacks]:
  "no_setback f (ret x)"
  "(\<And>w. f (snd (g w)) \<le> f w) \<Longrightarrow> no_setback f (call ev g)"
  "(\<And>w. f (snd (rt_now R w)) \<le> f w) \<Longrightarrow> no_setback f (time_Now R)"
  by (simp_all add: no_setback_def)

lemma no_setback_bind [setbacks]:
  assumes "no_setback f m" and "\<And>x. no_setback f (g x)"
  shows "no_setback f (State_Monad.bind m g)"
  unfolding no_setback_def
proof
  fix s
  obtain x s1 where m: "run_state m s = (x, s1)" by fastforce
  obtain y s2 where g: "run_state (g x) s1 = (y, s2)" by fastforce
  have "f (world s2) \<le> f (world s)"
    using no_setbackD [OF assms(1) m] no_setbackD [OF assms(2) g] by simp
  then show "f (world (snd (run_state (State_Monad.bind m g) s))) \<le> f (world s)" using m g by simp
qed

lemma no_setback_cases [setbacks]:
  "(\<And>y z. x = (y, z) \<Longrightarrow> no_setback f (g y z)) \<Longrightarrow> no_setback f (case x of (y, z) \<Rightarrow> g y z)"
  "(\<And>y. no_setback f (h y)) \<Longrightarrow> no_setback f (Let v h)"
  "(\<And>y. no_setback f (p y)) \<Longrightarrow> (\<And>y. no_setback f (q y)) \<Longrightarrow>
     no_setback f (case u of Inl y \<Rightarrow> p y | Inr y \<Rightarrow> q y)"
  by (auto split: prod.splits sum.splits)

lemma no_setback_deletion:
  assumes "undisturbed f r"
  shows "no_setback f (updatePhaseAndCondition (rec_runtime r) (rec_client r) kc phase ct status message)"
    and "no_setback f (DeleteState (rec_client r) kc)"
  using assms
  by (auto simp: undisturbed_def updatePhaseAndCondition_def initializeStatusState_def setCondition_def
      DeleteState_def secretService_GetSecret_def intro!: setbacks)

section \<open>Deletion ends\<close>

text \<open>A run that does not finish the deletion has used up a failure.\<close>

lemma deletion_progress:
  assumes few: "limited_failures f r M" and run: "run_state (handleDeletion r M kc) s = (y, s')"
  shows "f (world s') + of_bool (y \<noteq> (0, None)) \<le> f (world s)"
proof -
  let ?K = "rec_client r"
  have calm: "undisturbed f r" using few by (simp add: limited_failures_def)
  have upd: "f w' + of_bool (e \<noteq> None) \<le> f w" if "kube_Update ?K c w = ((e, c'), w')" for c w e c' w'
    using few that unfolding limited_failures_def by blast
  obtain u kc1 s1 where p: "run_state (updatePhaseAndCondition (rec_runtime r) ?K kc PhaseDeleting
      ConditionClusterReady ConditionStatusWorking ''Deleting AKS cluster'') s = ((u, kc1), s1)"
    by (metis prod.collapse)
  obtain d s2 where d: "run_state (akm_DeleteCluster M kc1) s1 = (d, s2)" by fastforce
  have s1: "f (world s1) \<le> f (world s)" by (rule no_setbackD [OF no_setback_deletion(1) [OF calm] p])
  have s2: "f (world s2) + of_bool (d \<noteq> None) \<le> f (world s1)"
    using few d unfolding limited_failures_def by blast
  show ?thesis
  proof (cases d)
    case (Some err)
    then have "s' = s2" using run p d by (simp add: handleDeletion_def Let_def)
    moreover have "of_bool (y \<noteq> (0, None)) \<le> (1 :: nat)" by simp
    ultimately show ?thesis using s1 s2 Some by simp
  next
    case None
    obtain q s3 where q: "run_state (DeleteState ?K kc1) s2 = (q, s3)" by fastforce
    have s3: "f (world s3) \<le> f (world s2)" by (rule no_setbackD [OF no_setback_deletion(2) [OF calm] q])
    let ?c = "kube_RemoveFinalizer ?K kc1 KubernetesClusterFinalizer"
    obtain e c' w' where e: "kube_Update ?K ?c (world s3) = ((e, c'), w')" by (metis prod.collapse)
    have "world s' = w' \<and> y = (0, e) \<or> s' = s3 \<and> y = (0, None)"
      using run p d q e None by (auto simp: handleDeletion_def Let_def update_object_def split: if_splits)
    moreover have "f (world s3) \<le> f (world s)" using s1 s2 s3 by simp
    ultimately show ?thesis using upd [OF e] by (cases e) auto
  qed
qed

lemma Reconcile_unread:
  assumes "kube_Get (rec_client r) name namespace (world s) = (Inl err, w)"
  shows "run_state (Reconcile r name namespace) s =
     (Returned (0, if IsNotFound err then None else Some err),
      s\<lparr>world := w, trace := trace s @ [KubeGetCluster name namespace (Some err)]\<rparr>)"
  using assms by (simp add: Reconcile_def Let_def)

text \<open>So has any run that leaves something to do, when the resource it reads is marked.\<close>

lemma run_progress:
  assumes few: "limited_failures f r M" and wired: "rec_AKSClusterManager r = Some M" "rec_hasStateService r"
    and there: "marked_resource there r M name namespace a"
    and run: "run_state (Reconcile r name namespace) s = (x, s')"
  shows "f (world s') + of_bool (\<not> satisfied x) \<le> f (world s)"
proof -
  obtain g w where g: "kube_Get (rec_client r) name namespace (world s) = (g, w)" by fastforce
  have w: "f w \<le> f (world s)"
    using few g unfolding limited_failures_def undisturbed_def by (metis snd_conv)
  show ?thesis
  proof (cases g)
    case (Inl err)
    then have s': "world s' = w" "x = Returned (0, if IsNotFound err then None else Some err)"
      using run Reconcile_unread [OF g [unfolded Inl]] by auto
    have "\<not> IsNotFound err \<Longrightarrow> f w < f (world s)"
      using few g Inl unfolding limited_failures_def by blast
    with s' w show ?thesis by (cases "IsNotFound err") simp_all
  next
    case (Inr kc)
    then have got: "fst (kube_Get (rec_client r) name namespace (world s)) = Inr kc" "kc_DeletionTimestamp kc \<noteq> None"
      using g there unfolding marked_resource_def by auto
    obtain y where y: "run_state (handleDeletion r M kc) (after_get r name namespace s) = (y, s')" "x = Returned y"
      by (rule Reconcile_parts [OF run]) (use wired got in auto)
    have "f (world (after_get r name namespace s)) \<le> f (world s)"
      using w g by (simp add: after_get_def)
    with deletion_progress [OF few y(1)] y(2) show ?thesis by simp
  qed
qed

text \<open>
  The cluster is gone from Azure before the resource goes: a run keeps this, whatever it is answered,
  and ends with the cluster gone when nothing is left to do.
\<close>

definition gone_first :: "('w \<Rightarrow> bool) \<Rightarrow> azure_key \<Rightarrow> 'w st \<Rightarrow> bool" where
  "gone_first there a s \<longleftrightarrow> there (world s) \<or> a \<notin> outstanding (trace s)"

lemma deletion_gone_first:
  assumes M: "cluster_manager M" and K: "finalizer_laws (rec_client r)" "status_update_laws (rec_client r)"
    and calm: "undisturbed (\<lambda>w. of_bool (\<not> there w)) r"
      "\<And>kc s. there (world s) \<Longrightarrow> there (world (snd (run_state (akm_DeleteCluster M kc) s)))"
    and run: "run_state (handleDeletion r M kc) s = (y, s')" and "gone_first there (azure_key kc) s"
  shows "gone_first there (azure_key kc) s'"
proof -
  obtain c e0 e post where t: "trace s' = trace s @
       [KubeUpdateStatus c e0, AzClusterDelete (getResourceGroupName kc) (getClusterName kc) e] @ post"
    and post: "if gone e
      then \<exists>secrets. (\<forall>v\<in>set secrets. is_secret_event v) \<and>
        (post = secrets \<or> (\<exists>c u. post = secrets @ [KubeUpdateCluster c u]))
      else post = []"
    and y: "\<not> gone e \<Longrightarrow> \<exists>err. y = (ControllerRequeueError, Some err)"
    using handleDeletion_calls [OF M K run] by (auto split: if_splits) blast+
  show ?thesis
  proof (cases "gone e")
    case True
    then have "fold track post O' = O'" for O'
      using post by (auto simp: secrets_change_nothing)
    then have "azure_key kc \<notin> outstanding (trace s')"
      using t True by (simp add: outstanding_def azure_key_def)
    then show ?thesis by (simp add: gone_first_def)
  next
    case False
    then have same: "outstanding (trace s') = outstanding (trace s)"
      using t post by (simp add: outstanding_def)
    have "there (world s')" if "there (world s)"
    proof -
      obtain u kc1 s1 where p: "run_state (updatePhaseAndCondition (rec_runtime r) (rec_client r) kc PhaseDeleting
          ConditionClusterReady ConditionStatusWorking ''Deleting AKS cluster'') s = ((u, kc1), s1)"
        by (metis prod.collapse)
      obtain d s2 where d: "run_state (akm_DeleteCluster M kc1) s1 = (d, s2)" by fastforce
      have "there (world s1)"
        using no_setbackD [OF no_setback_deletion(1) [OF calm(1)] p] that by (simp split: if_splits)
      then have "there (world s2)" using calm(2) [of s1 kc1] d by simp
      moreover have "d \<noteq> None"
      proof
        assume "d = None"
        then have "fst y = 0"
          using run p d by (auto simp: handleDeletion_def Let_def split: if_splits prod.splits)
        with y [OF False] show False by (auto simp: ControllerRequeueError_def)
      qed
      then have "s' = s2" using run p d by (auto simp: handleDeletion_def Let_def)
      ultimately show ?thesis by simp
    qed
    then show ?thesis using assms(7) same by (auto simp: gone_first_def)
  qed
qed

lemma run_gone_first:
  assumes M: "cluster_manager M" and K: "finalizer_laws (rec_client r)" "status_update_laws (rec_client r)"
    and wired: "rec_AKSClusterManager r = Some M" "rec_hasStateService r"
    and there: "marked_resource there r M name namespace a"
    and run: "run_state (Reconcile r name namespace) s = (x, s')" and I: "gone_first there a s"
  shows "gone_first there a s' \<and>
     (satisfied x \<longrightarrow> a \<notin> outstanding (trace s') \<and>
        (case fst (kube_Get (rec_client r) name namespace (world s)) of
           Inl err \<Rightarrow> IsNotFound err
         | Inr kc \<Rightarrow> carries_finalizer kc \<longrightarrow> held (trace s') (name, namespace) = None))"
proof -
  have calm: "undisturbed (\<lambda>w. of_bool (\<not> there w)) r"
      "\<And>kc s. there (world s) \<Longrightarrow> there (world (snd (run_state (akm_DeleteCluster M kc) s)))"
    using there by (simp_all add: marked_resource_def)
  obtain g w where g: "kube_Get (rec_client r) name namespace (world s) = (g, w)" by fastforce
  have w: "there (world s) \<Longrightarrow> there w"
    using calm(1) g unfolding undisturbed_def by (metis le_zero_eq of_bool_eq_0_iff snd_conv)
  show ?thesis
  proof (cases g)
    case (Inl err)
    then have s': "world s' = w" "outstanding (trace s') = outstanding (trace s)"
        "x = Returned (0, if IsNotFound err then None else Some err)"
      using run Reconcile_unread [OF g [unfolded Inl]] by (auto simp: outstanding_def)
    then have "gone_first there a s'" using I w by (auto simp: gone_first_def)
    moreover have "a \<notin> outstanding (trace s')" if "IsNotFound err"
      using there g Inl that I s'(2) unfolding marked_resource_def gone_first_def by blast
    ultimately show ?thesis using s'(3) g Inl by auto
  next
    case (Inr kc)
    then have kc: "kc_DeletionTimestamp kc \<noteq> None" "resource_key kc = (name, namespace)" "azure_key kc = a"
      using g there unfolding marked_resource_def by auto
    have got: "fst (kube_Get (rec_client r) name namespace (world s)) = Inr kc" using g Inr by simp
    obtain y where y: "run_state (handleDeletion r M kc) (after_get r name namespace s) = (y, s')" "x = Returned y"
      by (rule Reconcile_parts [OF run]) (use wired got kc(1) in auto)
    have "gone_first there a (after_get r name namespace s)"
      using I w g by (auto simp: gone_first_def after_get_def outstanding_def)
    then have "gone_first there a s'"
      using deletion_gone_first [OF M K calm y(1)] kc(3) by simp
    moreover have "a \<notin> outstanding (trace s') \<and> (carries_finalizer kc \<longrightarrow> held (trace s') (name, namespace) = None)"
      if "satisfied x"
      using deletion_done [OF M K, of kc "after_get r name namespace s" s'] y that kc(2,3) by simp
    ultimately show ?thesis using got by simp
  qed
qed

text \<open>C11. A deletion that Azure and the API server let succeed in the end does end. The work queue hands
  a resource out again after every run that asks for it. Take one that carries the finalizer, which
  nobody but the operator takes away, and has been marked for deletion, so that reads which find it find
  it marked and under the same names, with or without the finalizer, and answer "not found" only when it
  is gone. If only a limited number of cluster deletions, object updates and reads of the resource fail
  (an update that is answered with an error may have taken effect all the same), then the work queue
  stops after finitely many runs. By then Azure has
  confirmed that the cluster is gone, and the last run has found the resource gone, or without the
  finalizer, or has taken the finalizer away.\<close>

theorem deletion_converges:
  assumes M: "cluster_manager M" and K: "finalizer_laws (rec_client r)" "status_update_laws (rec_client r)"
    and wired: "rec_AKSClusterManager r = Some M" "rec_hasStateService r"
    and marked: "marked_resource there r M name namespace a" and start: "there (world s)"
    and few: "limited_failures f r M"
    and later: "\<And>w. f (later w) \<le> f w" "\<And>w. there w \<Longrightarrow> there (later w)"
  shows "\<exists>s' t. work_queue r later name namespace s = Some s' \<and> a \<notin> outstanding (trace s') \<and>
     run_state (Reconcile r name namespace) t = (Returned (0, None), s') \<and>
     (case fst (kube_Get (rec_client r) name namespace (world t)) of
        Inl err \<Rightarrow> IsNotFound err
      | Inr kc \<Rightarrow> carries_finalizer kc \<longrightarrow> held (trace s') (name, namespace) = None)"
proof -
  have "gone_first there a s" using start by (simp add: gone_first_def)
  then show ?thesis
  proof (induction "f (world s)" arbitrary: s rule: less_induct)
    case less
    obtain x s1 where run: "run_state (Reconcile r name namespace) s = (x, s1)" by fastforce
    note keep = run_gone_first [OF M K wired marked run less.prems]
    show ?case
    proof (cases "satisfied x")
      case True
      then have "work_queue r later name namespace s = Some s1"
        using run by (subst work_queue.simps) simp
      with keep True run show ?thesis by (intro exI [of _ s1] exI [of _ s]) simp
    next
      case False
      let ?s = "s1\<lparr>world := later (world s1)\<rparr>"
      have "f (world s1) < f (world s)"
        using run_progress [OF few wired marked run] False by simp
      with later(1) [of "world s1"] have "f (world ?s) < f (world s)" by simp
      moreover have "gone_first there a ?s" using keep later(2) by (auto simp: gone_first_def)
      moreover have "work_queue r later name namespace s = work_queue r later name namespace ?s"
        using run False by (subst work_queue.simps) simp
      ultimately show ?thesis using less.hyps [of ?s] by simp
    qed
  qed
qed

section \<open>A shaky world\<close>

text \<open>
  How often Azure will still refuse a deletion, how many reads will still fail, how many updates will
  still take effect but be answered with an error, and whether the resource is there.
\<close>

record fx_shaky =
  sh_refusals :: nat
  sh_unread :: nat
  sh_lost :: nat
  sh_there :: bool

definition sh_failures :: "fx_shaky \<Rightarrow> nat" where
  "sh_failures w = sh_refusals w + sh_unread w + sh_lost w"

definition fx_refusing :: "fx_shaky managed_cluster_client" where
  "fx_refusing =
     \<lparr>mcc_CreateOrUpdate = (\<lambda>rg cl c w. (Inr c, w)), mcc_Get = (\<lambda>rg cl w. (Inl fx_not_found, w)),
      mcc_Delete = (\<lambda>rg cl w. if sh_refusals w = 0 then (None, w)
        else (Some (new_error ''busy''), w\<lparr>sh_refusals := sh_refusals w - 1\<rparr>)),
      mcc_GetAccessProfile = (\<lambda>rg cl role w. (Inr \<lparr>acp_KubeConfig = None\<rparr>, w)),
      mcc_ListClusterAdminCredentials = (\<lambda>rg cl w. (Inr \<lparr>cr_Kubeconfigs = []\<rparr>, w)),
      mcc_ListClusterUserCredentials = (\<lambda>rg cl w. (Inr \<lparr>cr_Kubeconfigs = []\<rparr>, w))\<rparr>"

definition fx_shaky_runtime :: "fx_shaky runtime" where
  "fx_shaky_runtime =
     \<lparr>rt_now = (\<lambda>w. (100, w)), rt_sleep = (\<lambda>d w. w), rt_getenv = (\<lambda>k. []), rt_range = (\<lambda>ks w. (ks, w)),
      rt_rfc3339 = (\<lambda>t. ''2026-01-01T00:00:00Z''), rt_rfc3339_utc = (\<lambda>t. ''2026-01-01T00:00:00Z''),
      rt_sort_conditions = (\<lambda>cs. cs)\<rparr>"

definition fx_shaky_get :: "fx_shaky \<Rightarrow> (go_error + kubernetes_cluster) \<times> fx_shaky" where
  "fx_shaky_get w =
     (if sh_unread w \<noteq> 0 then (Inl (new_error ''timeout''), w\<lparr>sh_unread := sh_unread w - 1\<rparr>)
      else (if sh_there w then Inr fx_deleted else Inl fx_not_found, w))"

text \<open>A resource that is marked goes with its last finalizer.\<close>

definition fx_shaky_update :: "kubernetes_cluster \<Rightarrow> fx_shaky \<Rightarrow> (go_error option \<times> kubernetes_cluster) \<times> fx_shaky" where
  "fx_shaky_update kc w =
     (let w' = w\<lparr>sh_there := sh_there w \<and> kc_Finalizers kc \<noteq> []\<rparr>
      in if sh_lost w \<noteq> 0 then ((Some (new_error ''timeout''), kc), w'\<lparr>sh_lost := sh_lost w - 1\<rparr>)
         else ((None, kc), w'))"

definition fx_shaky_kube :: "fx_shaky kube_client" where
  "fx_shaky_kube =
     \<lparr>kube_Get = (\<lambda>n ns. fx_shaky_get), kube_Update = fx_shaky_update,
      kube_StatusUpdate = (\<lambda>kc w. ((None, kc), w)), kube_ListMachineClasses = (\<lambda>w. (Inr [], w)),
      kube_GetSecret = (\<lambda>n ns w. (Inl fx_not_found, w)), kube_CreateSecret = (\<lambda>x w. (None, w)),
      kube_UpdateSecret = (\<lambda>x w. (None, w)), kube_DeleteSecret = (\<lambda>x w. (None, w)),
      kube_SetControllerReference = (\<lambda>kc x. (None, x)),
      kube_ContainsFinalizer = (\<lambda>kc f. f \<in> set (kc_Finalizers kc)),
      kube_AddFinalizer =
        (\<lambda>kc f. if f \<in> set (kc_Finalizers kc) then kc else kc\<lparr>kc_Finalizers := kc_Finalizers kc @ [f]\<rparr>),
      kube_RemoveFinalizer =
        (\<lambda>kc f. kc\<lparr>kc_Finalizers := filter (\<lambda>g. g \<noteq> f) (kc_Finalizers kc)\<rparr>)\<rparr>"

definition fx_refused_manager :: "fx_shaky aks_cluster_manager" where
  "fx_refused_manager = aks_cluster_manager_of fx_shaky_runtime (NewAKSClusterManager fx_refusing None None)"

definition fx_retrying :: "fx_shaky reconciler" where
  "fx_retrying =
     \<lparr>rec_runtime = fx_shaky_runtime, rec_client = fx_shaky_kube,
      rec_AKSClusterManager = Some fx_refused_manager, rec_hasStateService = True,
      rec_guest = \<lparr>ga_NewClientConfig = (\<lambda>k. None), ga_ClientConfig = (\<lambda>k. None), ga_NewForConfig = (\<lambda>k. None),
        ga_GetNamespaceUID = (\<lambda>k n w. (Inr ''uid'', w))\<rparr>\<rparr>"

text \<open>Azure refuses twice, one read fails, and the removal of the finalizer is answered with an error.\<close>

definition fx_in_trouble :: "fx_shaky st" where
  "fx_in_trouble =
     \<lparr>world = \<lparr>sh_refusals = 2, sh_unread = 1, sh_lost = 1, sh_there = True\<rparr>,
      trace = [KubeUpdateCluster fx_cluster None, AzClusterCreateOrUpdate ''team'' ''c1'' (fx_managed None) None],
      vm_cache = \<lparr>vmc_data = Map.empty, vmc_expiry = Map.empty, vmc_ttl = 30\<rparr>,
      class_cache = \<lparr>clc_data = [], clc_expiry = 0, clc_ttl = 30\<rparr>\<rparr>"

lemma fx_retrying_fields:
  "rec_AKSClusterManager fx_retrying = Some fx_refused_manager" "rec_hasStateService fx_retrying"
  "rec_client fx_retrying = fx_shaky_kube" "rec_runtime fx_retrying = fx_shaky_runtime"
  "finalizer_laws fx_shaky_kube" "status_update_laws fx_shaky_kube" "kube_Get fx_shaky_kube n ns = fx_shaky_get"
  by (simp_all add: fx_retrying_def fx_shaky_kube_def finalizer_laws_def status_update_laws_def)

lemma fx_refused_manager_ok: "cluster_manager fx_refused_manager"
  unfolding fx_refused_manager_def
  by (rule cluster_services.manager_is_service) (simp add: cluster_services_def NewAKSClusterManager_def)

lemma fx_refuses:
  "run_state (akm_DeleteCluster fx_refused_manager kc) s =
     (if sh_refusals (world s) = 0 then None else Some (wrap_error ''failed to delete AKS cluster'' (new_error ''busy'')),
      s\<lparr>world := (world s)\<lparr>sh_refusals := sh_refusals (world s) - 1\<rparr>,
        trace := trace s @ [AzClusterDelete (getResourceGroupName kc) (getClusterName kc)
         (if sh_refusals (world s) = 0 then None else Some (new_error ''busy''))]\<rparr>)"
proof -
  have "\<not> deleted_already (new_error ''busy'')"
    by (simp add: deleted_already_def new_error_def)
  then show ?thesis
    by (simp add: fx_refused_manager_def aks_cluster_manager_of_def DeleteCluster_def NewAKSClusterManager_def
        fx_refusing_def Let_def)
qed

lemma fx_limited: "limited_failures sh_failures fx_retrying fx_refused_manager"
  unfolding limited_failures_def undisturbed_def fx_retrying_fields
  by (auto simp: fx_shaky_kube_def fx_shaky_runtime_def fx_refuses fx_shaky_get_def fx_shaky_update_def
      sh_failures_def fx_not_found_def IsNotFound_def Let_def split: if_splits)

lemma fx_marked: "marked_resource sh_there fx_retrying fx_refused_manager ''demo'' ''team'' (''team'', ''c1'')"
proof -
  have kc: "kc_DeletionTimestamp fx_deleted \<noteq> None" "resource_key fx_deleted = (''demo'', ''team'')"
    "azure_key fx_deleted = (''team'', ''c1'')"
    by (simp_all add: fx_deleted_def resource_key_def azure_key_def fx_cluster_def
        getResourceGroupName_def getClusterName_def)
  have "undisturbed (\<lambda>w. of_bool (\<not> sh_there w)) fx_retrying"
    unfolding undisturbed_def fx_retrying_fields
    by (auto simp: fx_shaky_kube_def fx_shaky_runtime_def fx_shaky_get_def)
  moreover have "IsNotFound err \<Longrightarrow> \<not> sh_there w" if "fx_shaky_get w = (Inl err, w')" for w err w'
    using that by (auto simp: fx_shaky_get_def new_error_def IsNotFound_def split: if_splits)
  moreover have "kc_DeletionTimestamp kc' \<noteq> None \<and> resource_key kc' = (''demo'', ''team'') \<and> azure_key kc' = (''team'', ''c1'')"
    if "fx_shaky_get w = (Inr kc', w')" for w kc' w'
  proof -
    have "kc' = fx_deleted" using that by (auto simp: fx_shaky_get_def split: if_splits)
    with kc show ?thesis by simp
  qed
  moreover have "sh_there (world s) \<longrightarrow>
      sh_there (world (snd (run_state (akm_DeleteCluster fx_refused_manager kc') s)))" for kc' s
    by (simp add: fx_refuses)
  ultimately show ?thesis
    unfolding marked_resource_def fx_retrying_fields by blast
qed

theorem deletion_converges_witness:
  "\<exists>s'. work_queue fx_retrying (\<lambda>w. w) ''demo'' ''team'' fx_in_trouble = Some s' \<and>
     (''team'', ''c1'') \<in> outstanding (trace fx_in_trouble) \<and> (''team'', ''c1'') \<notin> outstanding (trace s')"
proof -
  have "sh_there (world fx_in_trouble)" by (simp add: fx_in_trouble_def)
  note ends = deletion_converges [OF fx_refused_manager_ok _ _ _ _ fx_marked this fx_limited]
  have "\<exists>s'. work_queue fx_retrying (\<lambda>w. w) ''demo'' ''team'' fx_in_trouble = Some s' \<and>
     (''team'', ''c1'') \<notin> outstanding (trace s')"
    using ends [where later = "\<lambda>w. w"] by (auto simp: fx_retrying_fields)
  moreover have "(''team'', ''c1'') \<in> outstanding (trace fx_in_trouble)"
    by (simp add: fx_in_trouble_def outstanding_def)
  ultimately show ?thesis by blast
qed

end
