(* ===== verification/Spec2Isabelle.thy ===== *)
theory Spec2Isabelle
  imports Startup StateFlags ApiServer WorkQueue
begin

text \<open>
  A model of the AKS operator, a Kubernetes controller that keeps an Azure managed cluster for every
  \<open>KubernetesCluster\<close> resource of the provider AKS.

  The program. \<open>cmd/main.go\<close> registers the settings (\<open>internal/settings\<close>), checks the
  environment and builds the Azure services (\<open>internal/services/initializationservice\<close>, over the
  client factory of \<open>pkg/clients/azure\<close>), optionally tests the connection, registers the
  reconciler and starts the controller-runtime manager. The reconciler (\<open>internal/controller\<close>)
  reads the resource, adds its finalizer, and hands the work to the cluster manager
  (\<open>internal/managers/aks_cluster_manager.go\<close>), which creates, updates or deletes the managed
  cluster through the client wrappers of \<open>pkg/clients/azure\<close> and leaves worker pools to the
  agent-pool manager. Both size machines through the MachineClass mapper, which reads MachineClass
  resources and the VM sizes of the location, each behind a cache. What is known of a cluster is kept in
  a state secret (\<open>internal/services/clusterstate\<close>), in the status of the resource and in two of
  its annotations.

  How code becomes definitions. Go code over the operator's own state is a function of type
  \<open>('w, 'a) go\<close>, a state monad over \<open>'w st\<close>: the outside world \<open>'w\<close>, the two
  caches, and a trace of the calls made with their answers, which no model code reads. Everything not
  in the repository is a parameter: the clock, environment and map order (\<open>runtime\<close>), the
  Kubernetes clients (\<open>kube_client\<close>), the SDK of Azure (\<open>managed_clusters_sdk\<close>,
  \<open>poller\<close>, pagers), the guest cluster (\<open>guest_api\<close>), viper, and controller-runtime. What
  the code relies on of them is a named hypothesis: \<open>finalizer_laws\<close>, \<open>update_laws\<close> and
  \<open>status_update_laws\<close> for resources; for the store of secrets \<open>locking_laws\<close>
  (optimistic locking, reads that may be stale, other writers at any time, updates that take effect
  although they are answered with an error) and \<open>api_laws\<close> (the same with the writers of the model
  only); \<open>range_permutes\<close> for maps; \<open>slice_sort\<close> for \<open>sort.Slice\<close>. Errors are a text with the reason of the API
  server; a call that may fail answers \<open>go_error + 'a\<close> and code that may panic an
  \<open>outcome\<close>. Machine integers are words, \<open>float64\<close> is an exact model of IEEE doubles, and
  Go maps whose order is visible are association lists.

  The theories.
  \<^item> \<open>Prelude\<close>: package strings, errors, sorting, association lists. \<open>Convert\<close>: the
    conversions of \<open>convert.go\<close>. \<open>Float64\<close>: rounding, arithmetic and monotonicity of
    doubles. \<open>CloudTypes\<close>: the data of Azure and of the custom resources. \<open>Runtime\<close>: the
    monad, the calls, the client interfaces of \<open>pkg/interfaces/azure.go\<close>, and \<open>emits\<close>,
    with which the calls of an operation are bounded compositionally. \<open>Fixtures\<close>: concrete
    surroundings for the witnesses. \<open>ManagerConstants\<close>: \<open>constants.go\<close>.
  \<^item> \<open>TtlCache\<close>, \<open>VMSize\<close>, \<open>MachineClass\<close>: the caches and their contract, the
    VM-size manager, the mapper. A size that is picked fits and no fitting size scores better; a tighter
    fit never scores worse, whatever is rounded; a class without cores is not ranked at all.
  \<^item> \<open>AgentPool\<close>, \<open>AKSCluster\<close>: the two managers, each operation with every branch. What
    a reconciliation writes to Azure, which errors it returns, where it panics, what the built pools and
    clusters look like, and that the managers agree on them.
  \<^item> \<open>ClusterState\<close>: the state secret, with its three attempts per update and three reads, and the
    laws of the store: an update that reports success replaced the secret then stored by the same one
    with its data edited, and reading the state never overwrites it, however stale the reads are;
    \<open>StateFlags\<close>: its writers as one type of operations, and the typing of the stored flags;
    \<open>StateRace\<close>: the update loop as goroutines that take turns of one API call each, with the
    creation locks. The goroutine alone is the sequential model; in any interleaving no update is lost,
    creation is exclusive, and every update returns within 24 turns.
  \<^item> \<open>Status\<close>: \<open>kubernetescluster_status.go\<close> and the constants. Conditions keep one per
    type, and the status that is sent reports its phase, also when it is sent again after a conflict.
  \<^item> \<open>Reconciler\<close>: \<open>kubernetescluster_controller.go\<close> and the credentials. Deletion,
    finalizer before Azure, who may write to Azure, and what is recorded.
  \<^item> \<open>ControlLoop\<close>: the history of calls, who holds which cluster by it, and the script a run
    follows; a resource is dropped from the work queue only when nothing is left to do, and what edited
    names leave behind. \<open>ApiServer\<close>: the reconciler over time, in the workers of the controller, with
    crashes, an API server that keeps the versions of every resource, reads that lag, optimistic locking,
    and users who edit: every cluster has an owner. \<open>WorkQueue\<close>: a deletion that is retried ends.
  \<^item> \<open>AzureClient\<close>: the client wrappers, the polling loop (\<open>partial_function\<close>, since it
    need not end) and the pagers. \<open>Settings\<close> and \<open>Startup\<close>: settings, flags, servers,
    factory, services and \<open>main\<close>.
  \<^item> This theory: deletion from the manager down to the SDK.

  Interfaces. Where one part relies on another the contract is a locale, interpreted on the model of the
  part that provides it: \<open>ttl_cache\<close> on both caches; \<open>vm_size_service\<close>,
  \<open>machine_class_service\<close>, \<open>pool_sizing\<close>, \<open>agent_pool_service\<close>,
  \<open>cluster_services\<close> and \<open>cluster_manager\<close> from the VM sizes up to the reconciler, each on
  the managers as \<open>main\<close> wires them; \<open>slice_sort\<close> on insertion sort.

  Bounds. A state update makes at most three attempts and each at most three reads of a missing secret,
  which is where the 24 turns of a goroutine come from. The polling loop waits 30 seconds between polls,
  so under a context with a deadline it takes at most one turn for every 30 seconds left and one more;
  \<open>poll_rounds\<close> is the loop with that many rounds of fuel, and both agree whenever either
  returns. Listing consumes the list of pages the service serves. The number of workers is the setting
  \<open>MAX_CONCURRENT_RECONCILES\<close>.

  Granularity. \<open>Reconcile\<close> itself runs over a world that only the calls change; what others do
  meanwhile is in how the world answers. \<open>StateRace\<close> interleaves the calls of updates over one
  store. \<open>ApiServer\<close> interleaves the calls of whole reconciliations, each with answers of its own: a
  worker may read any version that is no older than one its process has
  read, a process that starts again reads versions at least as young as those of that moment, an update is
  accepted only on the current version, and one that is answered with an error may have been accepted. It
  allows status updates on any version. The object is read again only for the last status update of a
  run, after which a run does not update the object, so the version of the worker's object is that of
  its first read and of its own updates. It assumes that no user takes the finalizer away or edits the
  fields that name the Azure cluster; \<open>edited_names_orphan\<close> shows what goes wrong otherwise. In
  \<open>WorkQueue\<close> one resource that is marked for deletion is handed out again and again, and the world
  may change in between: reads of it never show it unmarked or under other names, and answer "not found"
  only when it is gone (\<open>marked_resource\<close>); only a limited number of its reads, updates and cluster
  deletions fail (\<open>limited_failures\<close>). In the history an update that was answered with an error does
  not count as made, so \<open>held\<close> may still name a finalizer that is gone.

  Not modelled. Log lines, except that the closing one of a cluster reconciliation may panic and that
  polling logs its progress. Case mapping outside ASCII. Contexts, except in polling. Durations and
  times are unbounded integers. Parsing the command line, the dotenv file, the lookup of viper, the
  initialisation of the logger and of the Kubernetes client, and the registration with the scheme: calls
  of libraries. Leader election, which is off by default. Deletion of a state secret while others update it. Charts, manifests, generated
  code and tests.
\<close>

section \<open>Deletion, from the reconciler's manager to Azure\<close>

text \<open>
  A managed-cluster client that is the wrapper of \<open>pkg/clients/azure\<close> around the SDK \<open>S\<close>,
  under the context \<open>X\<close>, on operations that end.
\<close>

definition implements_clusters ::
  "'w runtime \<Rightarrow> 'w go_context \<Rightarrow> 'w managed_clusters_sdk \<Rightarrow> 'w managed_cluster_client \<Rightarrow> bool" where
  "implements_clusters R X S C \<longleftrightarrow>
     (\<forall>rg name cluster w. clusterClient_CreateOrUpdate R X S rg name cluster w =
        Some (mcc_CreateOrUpdate C rg name cluster w)) \<and>
     (\<forall>rg name w. mcc_Get C rg name w = clusterClient_Get S rg name w) \<and>
     (\<forall>rg name w. clusterClient_Delete R X S rg name w = Some (mcc_Delete C rg name w)) \<and>
     (\<forall>rg name role w. mcc_GetAccessProfile C rg name role w = clusterClient_GetAccessProfile S rg name role w) \<and>
     (\<forall>rg name w. mcc_ListClusterAdminCredentials C rg name w =
        clusterClient_ListClusterAdminCredentials S rg name w) \<and>
     (\<forall>rg name w. mcc_ListClusterUserCredentials C rg name w =
        clusterClient_ListClusterUserCredentials S rg name w)"

text \<open>C9. The manager reports a cluster as deleted only in one of three cases: Azure accepted the
  request and its operation was done with a result; Azure refused the request with an error that says
  it is not there; or, after accepting it, waiting for it failed with an error whose text says so.\<close>

theorem deletion_end_to_end:
  assumes C: "implements_clusters R X S (aki_client M)"
    and run: "run_state (DeleteCluster M kc) s = (None, s')"
  shows "(\<exists>p w. sdk_BeginDelete S (getResourceGroupName kc) (getClusterName kc) (world s) = (Inr p, w) \<and>
            operation_result () (world s') p) \<or>
    (\<exists>err. sdk_BeginDelete S (getResourceGroupName kc) (getClusterName kc) (world s) = (Inl err, world s') \<and>
       deleted_already (wrap_error ''failed to begin delete managed cluster'' err)) \<or>
    (\<exists>p w cause. sdk_BeginDelete S (getResourceGroupName kc) (getClusterName kc) (world s) = (Inr p, w) \<and>
       operation_error cause X p \<and>
       deleted_already (wrap_error ''failed to delete managed cluster'' cause))"
proof -
  let ?rg = "getResourceGroupName kc" and ?name = "getClusterName kc"
  obtain e w where e: "mcc_Delete (aki_client M) ?rg ?name (world s) = (e, w)" by fastforce
  then have client: "clusterClient_Delete R X S ?rg ?name (world s) = Some (e, w)"
    using C by (simp add: implements_clusters_def)
  have "w = world s'" and gone: "e = None \<or> (\<exists>err. e = Some err \<and> deleted_already err)"
    using run e by (auto simp: DeleteCluster_def Let_def split: option.splits if_splits)
  then show ?thesis
    using client_delete [OF client] by (cases e) auto
qed

definition fx_wrapper :: "time managed_cluster_client" where
  "fx_wrapper =
     \<lparr>mcc_CreateOrUpdate = (\<lambda>rg name c w.
        the (clusterClient_CreateOrUpdate fx_clock fx_context fx_clusters_sdk rg name c w)),
      mcc_Get = clusterClient_Get fx_clusters_sdk,
      mcc_Delete = (\<lambda>rg name w. the (clusterClient_Delete fx_clock fx_context fx_clusters_sdk rg name w)),
      mcc_GetAccessProfile = clusterClient_GetAccessProfile fx_clusters_sdk,
      mcc_ListClusterAdminCredentials = clusterClient_ListClusterAdminCredentials fx_clusters_sdk,
      mcc_ListClusterUserCredentials = clusterClient_ListClusterUserCredentials fx_clusters_sdk\<rparr>"

lemma fx_implements: "implements_clusters fx_clock fx_context fx_clusters_sdk fx_wrapper"
proof -
  have "\<exists>out. pollWithLogging fx_clock fx_context fx_poller w = Some out" for w
    using polling_bounded [OF fx_reads_clock, of "seconds 200" w]
    by (auto simp: has_deadline_def fx_context_def)
  then have del: "\<exists>out. clusterClient_Delete fx_clock fx_context fx_clusters_sdk rg name w = Some out" for rg name w
  proof -
    obtain r logs w' where "pollWithLogging fx_clock fx_context fx_poller w = Some (r, logs, w')"
      using \<open>\<And>w. \<exists>out. pollWithLogging fx_clock fx_context fx_poller w = Some out\<close> by (metis prod_cases3)
    then show ?thesis
      by (cases r) (simp_all add: clusterClient_Delete_def fx_clusters_sdk_def polled_def)
  qed
  note del
  moreover have "\<exists>out. clusterClient_CreateOrUpdate fx_clock fx_context fx_clusters_sdk rg name c w = Some out"
    for rg name c w
    by (simp add: clusterClient_CreateOrUpdate_def fx_clusters_sdk_def)
  ultimately show ?thesis
    unfolding implements_clusters_def fx_wrapper_def managed_cluster_client.simps by (metis option.sel)
qed

definition fx_wrapped :: "time aks_cluster_manager_impl" where
  "fx_wrapped = NewAKSClusterManager fx_wrapper None None"

definition fx_now :: "time st" where
  "fx_now = \<lparr>world = 0, trace = [],
     vm_cache = \<lparr>vmc_data = Map.empty, vmc_expiry = Map.empty, vmc_ttl = 30\<rparr>,
     class_cache = \<lparr>clc_data = [], clc_expiry = 0, clc_ttl = 30\<rparr>\<rparr>"

lemma fx_run_delete:
  "run_state (DeleteCluster fx_wrapped fx_cluster) fx_now =
     (None, fx_now\<lparr>world := seconds 90,
        trace := [AzClusterDelete (getResourceGroupName fx_cluster) (getClusterName fx_cluster) None]\<rparr>)"
  by (simp add: DeleteCluster_def fx_wrapped_def NewAKSClusterManager_def fx_wrapper_def fx_deletes
      fx_now_def Let_def)

theorem deletion_end_to_end_witness:
  "\<exists>p w. sdk_BeginDelete fx_clusters_sdk (getResourceGroupName fx_cluster) (getClusterName fx_cluster) 0 = (Inr p, w) \<and>
     (operation_result () (seconds 90) p \<or>
      (\<exists>cause. operation_error cause fx_context p \<and>
         deleted_already (wrap_error ''failed to delete managed cluster'' cause)))"
proof -
  have "implements_clusters fx_clock fx_context fx_clusters_sdk (aki_client fx_wrapped)"
    using fx_implements by (simp add: fx_wrapped_def NewAKSClusterManager_def)
  from deletion_end_to_end [OF this fx_run_delete] show ?thesis
    by (auto simp: fx_now_def fx_clusters_sdk_def)
qed

end
